(* ===== verification/Prelude.thy ===== *)
theory Prelude
  imports Main "HOL-Library.Word"
begin

text \<open>
  The machinery every component shares: the outcomes a C++ call can have, a
  state-and-exception monad in which a call may also fail to return, counted loops,
  and three families of proof rules over that monad (evaluation, totality, and
  invariants).  Nothing here is specific to the protocol.
\<close>

section \<open>Outcomes of a call\<close>

text \<open>
  A C++ call returns, throws, aborts in \<open>assert\<close>, or executes something the
  language leaves undefined.  Only \<^verbatim>\<open>MessageBufferOverflowException\<close> is ever
  caught by the program (in \<^verbatim>\<open>RediffBolConn::readCallback\<close>); all the others end the
  process.  Undefined behaviour is an outcome of its own, so that a theorem can say
  that a call does, or does not, reach it.
\<close>

datatype ub =
    NullDeref | UseAfterFree | OutOfBounds | DivByZero
  | SignedOverflow | Uninitialised

datatype exn =
    Overflow      \<comment> \<open>\<^verbatim>\<open>rbol::MessageBufferOverflowException\<close>\<close>
  | OutOfRange    \<comment> \<open>\<^verbatim>\<open>std::out_of_range\<close>, from \<^verbatim>\<open>std::string::substr\<close>\<close>
  | AssertFail    \<comment> \<open>a failed \<^verbatim>\<open>assert\<close>\<close>
  | Undef ub      \<comment> \<open>undefined behaviour\<close>

datatype 'a outcome = Ok 'a | Throw exn

text \<open>
  A call on a state \<open>'s\<close> with result \<open>'a\<close>.  The state is kept when an exception is
  thrown, as effects that already happened are.  \<open>None\<close>: the call never returns.
\<close>

type_synonym ('s, 'a) M = "'s \<Rightarrow> ('a outcome \<times> 's) option"

named_theorems exec "equations that run a call on a state"
named_theorems prim "the same for the primitive calls only, leaving sequences folded"
named_theorems total_intro "rules that show that a call returns"
named_theorems pres_intro "rules that show that a call keeps an invariant"
named_theorems quiet_intro "rules that show that a call never throws the exception that is caught"

section \<open>The monad\<close>

definition ret :: "'a \<Rightarrow> ('s, 'a) M" where
  "ret a = (\<lambda>s. Some (Ok a, s))"

definition raise :: "exn \<Rightarrow> ('s, 'a) M" where
  "raise e = (\<lambda>s. Some (Throw e, s))"

definition bindM :: "('s, 'a) M \<Rightarrow> ('a \<Rightarrow> ('s, 'b) M) \<Rightarrow> ('s, 'b) M" where
  "bindM m f = (\<lambda>s. case m s of
       None \<Rightarrow> None
     | Some (Ok a, s') \<Rightarrow> f a s'
     | Some (Throw e, s') \<Rightarrow> Some (Throw e, s'))"

definition thenM :: "('s, 'a) M \<Rightarrow> ('s, 'b) M \<Rightarrow> ('s, 'b) M" where
  "thenM m k = bindM m (\<lambda>_. k)"

definition getM :: "('s \<Rightarrow> 'a) \<Rightarrow> ('s, 'a) M" where
  "getM g = (\<lambda>s. Some (Ok (g s), s))"

definition modM :: "('s \<Rightarrow> 's) \<Rightarrow> ('s, unit) M" where
  "modM g = (\<lambda>s. Some (Ok (), g s))"

text \<open>\<open>ensure b e\<close> goes on when \<open>b\<close> holds and ends with \<open>e\<close> otherwise.\<close>

definition ensure :: "bool \<Rightarrow> exn \<Rightarrow> ('s, unit) M" where
  "ensure b e = (if b then ret () else raise e)"

definition whenM :: "bool \<Rightarrow> ('s, unit) M \<Rightarrow> ('s, unit) M" where
  "whenM b m = (if b then m else ret ())"

text \<open>A call on one half of a pair of states.\<close>

definition onL :: "('b, 'a) M \<Rightarrow> ('b \<times> 'w, 'a) M" where
  "onL m = (\<lambda>(b, w). case m b of None \<Rightarrow> None | Some (r, b') \<Rightarrow> Some (r, (b', w)))"

definition onR :: "('w, 'a) M \<Rightarrow> ('b \<times> 'w, 'a) M" where
  "onR m = (\<lambda>(b, w). case m w of None \<Rightarrow> None | Some (r, w') \<Rightarrow> Some (r, (b, w')))"

text \<open>
  A call by value on the left half: its changes there are lost.  A call on a local
  object of the caller, which goes out of scope.  And \<^verbatim>\<open>catch\<close>.
\<close>

definition on_copy :: "('b \<times> 'w, 'a) M \<Rightarrow> ('b \<times> 'w, 'a) M" where
  "on_copy m = (\<lambda>(b, w). case m (b, w) of
      None \<Rightarrow> None | Some (r, (b', w')) \<Rightarrow> Some (r, (b, w')))"

definition with_local :: "'b \<Rightarrow> ('b \<times> 'w, 'a) M \<Rightarrow> ('w, 'a) M" where
  "with_local b m = (\<lambda>w. case m (b, w) of
      None \<Rightarrow> None | Some (r, (b', w')) \<Rightarrow> Some (r, w'))"

definition catch_Overflow :: "('s, 'a) M \<Rightarrow> ('s, 'a) M \<Rightarrow> ('s, 'a) M" where
  "catch_Overflow m h = (\<lambda>s. case m s of
      None \<Rightarrow> None
    | Some (r, s') \<Rightarrow> if r = Throw Overflow then h s' else Some (r, s'))"

text \<open>
  The counted loop \<^verbatim>\<open>for (int i = 0; i < n; i++) body\<close>, with the variables the body
  updates as an accumulator.  A negative \<open>n\<close> runs it zero times.
\<close>

primrec loopM :: "nat \<Rightarrow> ('a \<Rightarrow> ('s, 'a) M) \<Rightarrow> 'a \<Rightarrow> ('s, 'a) M" where
  "loopM 0 f a = ret a"
| "loopM (Suc k) f a = bindM (f a) (loopM k f)"

definition forM :: "int \<Rightarrow> ('a \<Rightarrow> ('s, 'a) M) \<Rightarrow> 'a \<Rightarrow> ('s, 'a) M" where
  "forM n f a = loopM (nat n) f a"

text \<open>A loop over the elements of a vector.\<close>

primrec eachM :: "'x list \<Rightarrow> ('x \<Rightarrow> ('s, unit) M) \<Rightarrow> ('s, unit) M" where
  "eachM [] f = ret ()"
| "eachM (x # xs) f = bindM (f x) (\<lambda>_. eachM xs f)"

subsection \<open>Running a call\<close>

lemma ret_run [exec, prim]: "ret a s = Some (Ok a, s)"
  by (simp add: ret_def)

lemma raise_run [exec, prim]: "raise e s = Some (Throw e, s)"
  by (simp add: raise_def)

lemma getM_run [exec, prim]: "getM g s = Some (Ok (g s), s)"
  by (simp add: getM_def)

lemma modM_run [exec, prim]: "modM g s = Some (Ok (), g s)"
  by (simp add: modM_def)

lemma ensure_run [exec, prim]:
  "ensure b e s = Some (if b then Ok () else Throw e, s)"
  by (simp add: ensure_def exec)

lemma whenM_run [exec, prim]: "whenM b m s = (if b then m s else Some (Ok (), s))"
  by (simp add: whenM_def exec)

lemma bindM_run [exec]:
  "bindM m f s = (case m s of
       None \<Rightarrow> None
     | Some (r, s') \<Rightarrow> (case r of Ok a \<Rightarrow> f a s' | Throw e \<Rightarrow> Some (Throw e, s')))"
  by (simp add: bindM_def split: option.split prod.split outcome.split)

lemma thenM_run [exec]:
  "thenM m k s = (case m s of
       None \<Rightarrow> None
     | Some (r, s') \<Rightarrow> (case r of Ok a \<Rightarrow> k s' | Throw e \<Rightarrow> Some (Throw e, s')))"
  by (simp add: thenM_def exec)

lemma onL_run [exec]:
  "onL m (b, w) = (case m b of None \<Rightarrow> None | Some (r, b') \<Rightarrow> Some (r, (b', w)))"
  by (simp add: onL_def)

lemma onR_run [exec]:
  "onR m (b, w) = (case m w of None \<Rightarrow> None | Some (r, w') \<Rightarrow> Some (r, (b, w')))"
  by (simp add: onR_def)

lemma on_copy_run [exec]:
  "on_copy m (b, w) = (case m (b, w) of
      None \<Rightarrow> None | Some (r, (b', w')) \<Rightarrow> Some (r, (b, w')))"
  by (simp add: on_copy_def)

lemma with_local_run [exec]:
  "with_local b m w = (case m (b, w) of
      None \<Rightarrow> None | Some (r, (b', w')) \<Rightarrow> Some (r, w'))"
  by (simp add: with_local_def)

lemma catch_Overflow_run [exec]:
  "catch_Overflow m h s = (case m s of
      None \<Rightarrow> None
    | Some (r, s') \<Rightarrow> if r = Throw Overflow then h s' else Some (r, s'))"
  by (simp add: catch_Overflow_def)

lemma bindM_OkI: "m s = Some (Ok a, s') \<Longrightarrow> bindM m f s = f a s'"
  by (simp add: exec)

lemma thenM_OkI: "m s = Some (Ok a, s') \<Longrightarrow> thenM m k s = k s'"
  by (simp add: exec)

lemma bindM_ThrowI: "m s = Some (Throw e, s') \<Longrightarrow> bindM m f s = Some (Throw e, s')"
  by (simp add: exec)

lemma bindM_assoc: "bindM (bindM m f) g = bindM m (\<lambda>a. bindM (f a) g)"
  by (rule ext) (simp add: exec split: option.split prod.split outcome.split)

lemma bindM_ret_left [simp]: "bindM (ret a) f = f a"
  by (rule ext) (simp add: exec)

lemma bindM_ret_right [simp]: "bindM m ret = m"
  by (rule ext) (simp add: exec split: option.split prod.split outcome.split)

lemma bindM_SomeE:
  assumes "bindM m f s = Some (r, s')"
  obtains (ok) a t where "m s = Some (Ok a, t)" and "f a t = Some (r, s')"
        | (throw) e where "m s = Some (Throw e, s')" and "r = Throw e"
  using assms by (auto simp: exec split: option.splits prod.splits outcome.splits)

lemma bindM_OkE:
  assumes "bindM m f s = Some (Ok b, s')"
  obtains a t where "m s = Some (Ok a, t)" and "f a t = Some (Ok b, s')"
  using assms by (auto elim!: bindM_SomeE)

lemma thenM_OkE:
  assumes "thenM m k s = Some (Ok b, s')"
  obtains a t where "m s = Some (Ok a, t)" and "k t = Some (Ok b, s')"
  using assms unfolding thenM_def by (rule bindM_OkE)

subsection \<open>Totality: the calls that always return\<close>

definition total :: "('s, 'a) M \<Rightarrow> bool" where
  "total m \<longleftrightarrow> (\<forall>s. m s \<noteq> None)"

lemma totalD: "total m \<Longrightarrow> \<exists>r s'. m s = Some (r, s')"
  by (auto simp: total_def)

lemma total_ret [total_intro]: "total (ret a)"
  by (simp add: total_def exec)

lemma total_raise [total_intro]: "total (raise e)"
  by (simp add: total_def exec)

lemma total_getM [total_intro]: "total (getM g)"
  by (simp add: total_def exec)

lemma total_modM [total_intro]: "total (modM g)"
  by (simp add: total_def exec)

lemma total_ensure [total_intro]: "total (ensure b e)"
  by (simp add: total_def exec)

lemma total_bindM [total_intro]:
  "total m \<Longrightarrow> (\<And>a. total (f a)) \<Longrightarrow> total (bindM m f)"
  by (simp add: total_def exec split: option.split prod.split outcome.split)

lemma total_thenM [total_intro]: "total m \<Longrightarrow> total k \<Longrightarrow> total (thenM m k)"
  by (simp add: thenM_def total_bindM)

lemma total_whenM [total_intro]: "total m \<Longrightarrow> total (whenM b m)"
  by (simp add: whenM_def total_ret)

lemma total_if [total_intro]: "total m \<Longrightarrow> total k \<Longrightarrow> total (if b then m else k)"
  by simp

lemma total_onL [total_intro]: "total m \<Longrightarrow> total (onL m)"
  by (auto simp: total_def onL_def split: option.split)

lemma total_onR [total_intro]: "total m \<Longrightarrow> total (onR m)"
  by (auto simp: total_def onR_def split: option.split)

lemma total_on_copy [total_intro]: "total m \<Longrightarrow> total (on_copy m)"
  by (auto simp: total_def on_copy_def split: option.split)

lemma total_with_local [total_intro]: "total m \<Longrightarrow> total (with_local b m)"
  by (auto simp: total_def with_local_def split: option.split)

lemma total_catch_Overflow [total_intro]: "total m \<Longrightarrow> total h \<Longrightarrow> total (catch_Overflow m h)"
  by (auto simp: total_def catch_Overflow_def split: option.split)

lemma total_loopM: "(\<And>a. total (f a)) \<Longrightarrow> total (loopM k f a)"
  by (induction k arbitrary: a) (simp_all add: total_ret total_bindM)

lemma total_forM [total_intro]: "(\<And>a. total (f a)) \<Longrightarrow> total (forM n f a)"
  by (simp add: forM_def total_loopM)

lemma total_eachM [total_intro]: "(\<And>x. total (f x)) \<Longrightarrow> total (eachM xs f)"
  by (induction xs) (simp_all add: total_ret total_bindM)

subsection \<open>Invariants: what survives a call\<close>

text \<open>
  After a call the program goes on if the call returned, or if it threw the one
  exception that is caught.  \<open>valid P m Q\<close>: from \<open>P\<close>, a call that returns \<open>a\<close> ends in
  \<open>Q a\<close>, and one that throws \<open>Overflow\<close> ends in \<open>X\<close>.
\<close>

definition valid ::
  "('s \<Rightarrow> bool) \<Rightarrow> ('s, 'a) M \<Rightarrow> ('a \<Rightarrow> 's \<Rightarrow> bool) \<Rightarrow> ('s \<Rightarrow> bool) \<Rightarrow> bool" where
  "valid P m Q X \<longleftrightarrow> (\<forall>s r s'. P s \<longrightarrow> m s = Some (r, s') \<longrightarrow>
     (case r of Ok a \<Rightarrow> Q a s' | Throw e \<Rightarrow> e = Overflow \<longrightarrow> X s'))"

abbreviation pres :: "('s \<Rightarrow> bool) \<Rightarrow> ('s, 'a) M \<Rightarrow> bool" where
  "pres I m \<equiv> valid I m (\<lambda>_. I) I"

lemma validI:
  assumes "\<And>s a s'. P s \<Longrightarrow> m s = Some (Ok a, s') \<Longrightarrow> Q a s'"
    and "\<And>s s'. P s \<Longrightarrow> m s = Some (Throw Overflow, s') \<Longrightarrow> X s'"
  shows "valid P m Q X"
  using assms by (auto simp: valid_def split: outcome.split)

lemma validD_Ok: "valid P m Q X \<Longrightarrow> P s \<Longrightarrow> m s = Some (Ok a, s') \<Longrightarrow> Q a s'"
  by (fastforce simp: valid_def)

lemma validD_Overflow:
  "valid P m Q X \<Longrightarrow> P s \<Longrightarrow> m s = Some (Throw Overflow, s') \<Longrightarrow> X s'"
  by (fastforce simp: valid_def)

lemma valid_bindM:
  assumes "valid P m R X" and "\<And>a. valid (R a) (f a) Q X"
  shows "valid P (bindM m f) Q X"
proof (rule validI)
  fix s a s'
  assume "P s" and "bindM m f s = Some (Ok a, s')"
  then show "Q a s'"
    using assms by (auto elim!: bindM_SomeE dest: validD_Ok)
next
  fix s s'
  assume "P s" and "bindM m f s = Some (Throw Overflow, s')"
  then show "X s'"
    using assms by (auto elim!: bindM_SomeE dest: validD_Ok validD_Overflow)
qed

lemma valid_weaken:
  assumes "valid P' m Q' X'" and "\<And>s. P s \<Longrightarrow> P' s"
    and "\<And>a s. Q' a s \<Longrightarrow> Q a s" and "\<And>s. X' s \<Longrightarrow> X s"
  shows "valid P m Q X"
  using assms by (auto simp: valid_def split: outcome.splits) blast+

lemma valid_pre: "valid P' m Q X \<Longrightarrow> (\<And>s. P s \<Longrightarrow> P' s) \<Longrightarrow> valid P m Q X"
  by (rule valid_weaken)

lemma valid_conj: "(C \<Longrightarrow> valid P m Q X) \<Longrightarrow> valid (\<lambda>s. P s \<and> C) m Q X"
  by (fastforce simp: valid_def)

lemma valid_ret: "(\<And>s. P s \<Longrightarrow> Q a s) \<Longrightarrow> valid P (ret a) Q X"
  by (auto simp: valid_def exec)

lemma valid_thenM: "valid P m (\<lambda>_. R) X \<Longrightarrow> valid R k Q X \<Longrightarrow> valid P (thenM m k) Q X"
  unfolding thenM_def by (rule valid_bindM)

lemma valid_if:
  "(b \<Longrightarrow> valid P m Q X) \<Longrightarrow> (\<not> b \<Longrightarrow> valid P k Q X) \<Longrightarrow> valid P (if b then m else k) Q X"
  by simp

lemma valid_whenM:
  "(b \<Longrightarrow> valid P m (\<lambda>_. Q) X) \<Longrightarrow> (\<And>s. \<not> b \<Longrightarrow> P s \<Longrightarrow> Q s) \<Longrightarrow>
     valid P (whenM b m) (\<lambda>_. Q) X"
  by (auto simp: whenM_def valid_ret)

lemma valid_ensure: "(\<And>s. b \<Longrightarrow> P s \<Longrightarrow> Q () s) \<Longrightarrow> e \<noteq> Overflow \<Longrightarrow> valid P (ensure b e) Q X"
  by (auto simp: valid_def exec)

lemma valid_raise: "(e = Overflow \<Longrightarrow> \<forall>s. P s \<longrightarrow> X s) \<Longrightarrow> valid P (raise e) Q X"
  by (auto simp: valid_def exec)

lemma pres_ret [pres_intro]: "pres I (ret a)"
  by (auto simp: valid_def exec)

lemma pres_raise [pres_intro]: "pres I (raise e)"
  by (auto simp: valid_def exec)

lemma pres_getM [pres_intro]: "pres I (getM g)"
  by (auto simp: valid_def exec)

lemma pres_ensure [pres_intro]: "pres I (ensure b e)"
  by (auto simp: valid_def exec)

lemma pres_modM [pres_intro]: "(\<And>s. I s \<Longrightarrow> I (g s)) \<Longrightarrow> pres I (modM g)"
  by (auto simp: valid_def exec)

lemma pres_bindM [pres_intro]:
  "pres I m \<Longrightarrow> (\<And>a. pres I (f a)) \<Longrightarrow> pres I (bindM m f)"
  by (rule valid_bindM)

lemma pres_thenM [pres_intro]: "pres I m \<Longrightarrow> pres I k \<Longrightarrow> pres I (thenM m k)"
  by (simp add: thenM_def pres_bindM)

lemma pres_whenM [pres_intro]: "pres I m \<Longrightarrow> pres I (whenM b m)"
  by (simp add: whenM_def pres_ret)

lemma pres_if [pres_intro]: "pres I m \<Longrightarrow> pres I k \<Longrightarrow> pres I (if b then m else k)"
  by simp

lemma pres_option [pres_intro]:
  "pres I m \<Longrightarrow> (\<And>x. pres I (f x)) \<Longrightarrow> pres I (case r of None \<Rightarrow> m | Some x \<Rightarrow> f x)"
  by (cases r) simp_all

lemma pres_loopM: "(\<And>a. pres I (f a)) \<Longrightarrow> pres I (loopM k f a)"
  by (induction k arbitrary: a) (simp_all add: pres_ret pres_bindM)

lemma pres_forM [pres_intro]: "(\<And>a. pres I (f a)) \<Longrightarrow> pres I (forM n f a)"
  by (simp add: forM_def pres_loopM)

lemma pres_eachM [pres_intro]: "(\<And>x. pres I (f x)) \<Longrightarrow> pres I (eachM xs f)"
  by (induction xs) (simp_all add: pres_ret pres_bindM)

lemma pres_onL [pres_intro]: "pres (\<lambda>(b, w). I w) (onL m)"
  by (auto simp: valid_def onL_def split: option.splits outcome.split)

lemma pres_onR [pres_intro]: "pres I m \<Longrightarrow> pres (\<lambda>(b, w). I w) (onR m)"
  by (auto simp: valid_def onR_def split: option.splits outcome.splits)

lemma pres_iff:
  "pres I m \<longleftrightarrow> (\<forall>s r s'. I s \<longrightarrow> m s = Some (r, s') \<longrightarrow>
     (\<forall>e. r = Throw e \<longrightarrow> e = Overflow) \<longrightarrow> I s')"
  unfolding valid_def by (intro iff_allI) (simp split: outcome.split)

lemma pres_on_copy [pres_intro]:
  assumes "pres (\<lambda>(b, w). I w) m"
  shows "pres (\<lambda>(b, w). I w) (on_copy m)"
  using assms unfolding pres_iff on_copy_def by (auto split: option.splits)

lemma pres_with_local [pres_intro]:
  assumes "pres (\<lambda>(b, w). I w) m"
  shows "pres I (with_local b m)"
  using assms unfolding pres_iff with_local_def by (auto split: option.splits)

lemma pres_catch_Overflow [pres_intro]:
  assumes "pres I m" and "pres I h"
  shows "pres I (catch_Overflow m h)"
  unfolding pres_iff
proof (intro allI impI)
  fix s r s' assume s: "I s" "catch_Overflow m h s = Some (r, s')" "\<forall>e. r = Throw e \<longrightarrow> e = Overflow"
  obtain r1 s1 where m: "m s = Some (r1, s1)"
    using s(2) by (auto simp: catch_Overflow_def split: option.splits)
  show "I s'"
  proof (cases "r1 = Throw Overflow")
    case True
    then have "I s1" and "h s1 = Some (r, s')"
      using assms(1) s m unfolding pres_iff by (auto simp: catch_Overflow_def)
    then show ?thesis using assms(2) s(3) unfolding pres_iff by blast
  next
    case False
    then have "r = r1" and "s' = s1" using s(2) m by (auto simp: catch_Overflow_def)
    then show ?thesis using assms(1) s m unfolding pres_iff by blast
  qed
qed

subsection \<open>Calls that never throw the exception that is caught\<close>

abbreviation quiet :: "('s, 'a) M \<Rightarrow> bool" where
  "quiet m \<equiv> valid (\<lambda>_. True) m (\<lambda>_ _. True) (\<lambda>_. False)"

lemma quiet_def: "quiet m \<longleftrightarrow> (\<forall>s s'. m s \<noteq> Some (Throw Overflow, s'))"
  by (fastforce simp: valid_def split: outcome.split)

lemma valid_quiet:
  "quiet m \<Longrightarrow> (\<And>s a s'. P s \<Longrightarrow> m s = Some (Ok a, s') \<Longrightarrow> Q a s') \<Longrightarrow> valid P m Q X"
  by (rule validI) (auto simp: quiet_def)

lemma quiet_ret [quiet_intro]: "quiet (ret a)"
  by (simp add: quiet_def exec)

lemma quiet_raise [quiet_intro]: "e \<noteq> Overflow \<Longrightarrow> quiet (raise e)"
  by (simp add: quiet_def exec)

lemma quiet_getM [quiet_intro]: "quiet (getM g)"
  by (simp add: quiet_def exec)

lemma quiet_modM [quiet_intro]: "quiet (modM g)"
  by (simp add: quiet_def exec)

lemma quiet_ensure [quiet_intro]: "e \<noteq> Overflow \<Longrightarrow> quiet (ensure b e)"
  by (simp add: quiet_def exec)

lemma quiet_bindM [quiet_intro]: "quiet m \<Longrightarrow> (\<And>a. quiet (f a)) \<Longrightarrow> quiet (bindM m f)"
  by (rule valid_bindM)

lemma quiet_thenM [quiet_intro]: "quiet m \<Longrightarrow> quiet k \<Longrightarrow> quiet (thenM m k)"
  by (rule valid_thenM)

lemma quiet_whenM [quiet_intro]: "quiet m \<Longrightarrow> quiet (whenM b m)"
  by (simp add: whenM_def quiet_ret)

lemma quiet_if [quiet_intro]: "quiet m \<Longrightarrow> quiet k \<Longrightarrow> quiet (if b then m else k)"
  by simp

lemma quiet_option [quiet_intro]:
  "quiet m \<Longrightarrow> (\<And>x. quiet (f x)) \<Longrightarrow> quiet (case r of None \<Rightarrow> m | Some x \<Rightarrow> f x)"
  by (cases r) simp_all

subsection \<open>Loops that may not end\<close>

text \<open>Lets \<^theory_text>\<open>partial_function (option)\<close> recurse under \<open>bindM\<close>.\<close>

lemma bindM_mono [partial_function_mono]:
  fixes B :: "('x \<Rightarrow> 'y option) \<Rightarrow> ('s, 'a) M"
  assumes "\<And>s. mono_option (\<lambda>f. B f s)" and "\<And>y s. mono_option (\<lambda>f. C y f s)"
  shows "mono_option (\<lambda>f. bindM (B f) (\<lambda>y. C y f) s)"
proof (rule monotoneI)
  fix f g :: "'x \<Rightarrow> 'y option"
  assume fg: "option.le_fun f g"
  have B: "option_ord (B f t) (B g t)" for t
    using fg by (rule monotoneD [OF assms(1)])
  have C: "option_ord (C y f t) (C y g t)" for y t
    using fg by (rule monotoneD [OF assms(2)])
  from B [of s] consider "B f s = None" | "B g s = B f s"
    by (auto simp: flat_ord_def)
  then show "option_ord (bindM (B f) (\<lambda>y. C y f) s) (bindM (B g) (\<lambda>y. C y g) s)"
  proof cases
    case 1
    then show ?thesis by (simp add: exec flat_ord_def)
  next
    case 2
    then show ?thesis
      using C by (simp add: exec flat_ord_def split: option.split prod.split outcome.split)
  qed
qed

lemma if_app_mono [partial_function_mono]:
  "mono_option (\<lambda>f. A f s) \<Longrightarrow> mono_option (\<lambda>f. B f s) \<Longrightarrow>
     mono_option (\<lambda>f. (if c then A f else B f) s)"
  by (cases c) simp_all

lemma thenM_mono [partial_function_mono]:
  "(\<And>s. mono_option (\<lambda>f. B f s)) \<Longrightarrow> (\<And>s. mono_option (\<lambda>f. C f s)) \<Longrightarrow>
     mono_option (\<lambda>f. thenM (B f) (C f) s)"
  unfolding thenM_def by (rule bindM_mono)

end
