(* ===== verification/Bytes.thy ===== *)
theory Bytes
  imports Prelude
begin

unbundle bit_operations_syntax

text \<open>
  The integers and strings of the program.  A C \<^verbatim>\<open>int\<close> (or \<^verbatim>\<open>gint32\<close>) is an
  \<^typ>\<open>int\<close> between \<open>-2 ^ 31\<close> and \<open>2 ^ 31 - 1\<close>; conversions to it wrap
  (\<open>to_int32\<close>).  A \<^verbatim>\<open>std::string\<close> is a \<^typ>\<open>string\<close>: HOL's \<^typ>\<open>char\<close> is a byte.
  A plain \<^verbatim>\<open>char\<close> is signed, as on the x86 platforms the plugin is built for, and
  memory is little-endian there.  Models \<^verbatim>\<open>util.cpp\<close>, the \<^verbatim>\<open>write_int\<close> and
  \<^verbatim>\<open>write_short\<close> macros of \<^verbatim>\<open>rediffbol.cpp\<close>, and the C library's \<^verbatim>\<open>atoi\<close>,
  \<^verbatim>\<open>%d\<close> and \<^verbatim>\<open>tolower\<close> as the code uses them.
\<close>

section \<open>C integers\<close>

definition cint :: "int \<Rightarrow> bool" where
  "cint i \<longleftrightarrow> - (2 ^ 31) \<le> i \<and> i < 2 ^ 31"

definition to_int32 :: "int \<Rightarrow> int" where
  "to_int32 i = signed_take_bit 31 i"

definition to_int16 :: "int \<Rightarrow> int" where
  "to_int16 i = signed_take_bit 15 i"

text \<open>\<open>size_t\<close> is 64 bits wide.\<close>

definition to_size :: "int \<Rightarrow> int" where
  "to_size i = i mod 2 ^ 64"

text \<open>The value of a \<^verbatim>\<open>char\<close> when it is promoted to \<^verbatim>\<open>int\<close>.\<close>

definition schar :: "char \<Rightarrow> int" where
  "schar c = signed_take_bit 7 (of_char c)"

lemma to_int32_cint [simp]: "cint (to_int32 i)"
  using signed_take_bit_int_greater_eq_minus_exp [of 31 i] signed_take_bit_int_less_exp [of 31 i]
  by (simp add: cint_def to_int32_def)

lemma to_int32_id: "cint i \<Longrightarrow> to_int32 i = i"
  by (simp add: cint_def to_int32_def signed_take_bit_int_eq_self)

lemma cint_bounds: "0 \<le> i \<Longrightarrow> i < 2147483648 \<Longrightarrow> cint i"
  by (simp add: cint_def)

lemma to_size_nonneg: "0 \<le> i \<Longrightarrow> i < 2 ^ 64 \<Longrightarrow> to_size i = i"
  by (simp add: to_size_def)

lemma to_size_neg: "- (2 ^ 63) \<le> i \<Longrightarrow> i < 0 \<Longrightarrow> to_size i = 2 ^ 64 + i"
proof -
  assume "- (2 ^ 63) \<le> i" and "i < 0"
  then have "(i + 2 ^ 64) mod 2 ^ 64 = i + 2 ^ 64" by (intro mod_pos_pos_trivial) auto
  then show ?thesis by (simp add: to_size_def)
qed

lemma of_char_bounds: "0 \<le> (of_char c :: int)" "(of_char c :: int) < 256"
proof -
  have eq: "(of_char c :: int) = of_char c mod 256" by (simp add: of_char_mod_256)
  show "0 \<le> (of_char c :: int)" by (subst eq) (rule pos_mod_sign, simp)
  show "(of_char c :: int) < 256" by (subst eq) (rule pos_mod_bound, simp)
qed

lemma schar_cases:
  "schar c = (if (of_char c :: int) < 128 then of_char c else of_char c - 256)"
proof (cases "(of_char c :: int) < 128")
  case True
  then show ?thesis
    using of_char_bounds [of c]
    by (simp add: schar_def signed_take_bit_int_eq_self)
next
  case False
  have "signed_take_bit 7 (of_char c :: int) = signed_take_bit 7 (of_char c - 256)"
    by (rule signed_take_bit_eq_iff_take_bit_eq [THEN iffD2])
      (simp add: take_bit_eq_mod mod_diff_eq)
  with False show ?thesis
    using of_char_bounds [of c]
    by (simp add: schar_def signed_take_bit_int_eq_self)
qed

lemma schar_nonneg: "(of_char c :: int) < 128 \<Longrightarrow> schar c = of_char c"
  by (simp add: schar_cases)

section \<open>util.cpp: integers as bytes\<close>

definition intToSWord :: "int \<Rightarrow> string" where
  "intToSWord i = [char_of (drop_bit 8 i AND 0xff), char_of (i AND 0xff)]"

definition intToDWord :: "int \<Rightarrow> string" where
  "intToDWord i =
     [char_of (i AND 0xff), char_of (drop_bit 8 i AND 0xff),
      char_of (drop_bit 16 i AND 0xff), char_of (drop_bit 24 i AND 0xff)]"

text \<open>
  Each operand of \<^verbatim>\<open>|=\<close> is a \<^verbatim>\<open>char\<close> promoted to \<^verbatim>\<open>int\<close> before the shift; a shift
  into or past the sign bit wraps, as GCC documents.
\<close>

definition bytesToLEInt :: "char \<Rightarrow> char \<Rightarrow> char \<Rightarrow> char \<Rightarrow> int" where
  "bytesToLEInt a b c d =
     ((to_int32 (push_bit 24 (schar a)) OR push_bit 16 (schar b))
       OR push_bit 8 (schar c)) OR schar d"

text \<open>The \<^verbatim>\<open>int\<close> and \<^verbatim>\<open>short\<close> a little-endian machine keeps in memory.\<close>

definition write_int :: "int \<Rightarrow> string" where
  "write_int a = map (\<lambda>k. char_of (drop_bit (8 * k) (to_int32 a))) [0, 1, 2, 3]"

definition write_short :: "int \<Rightarrow> string" where
  "write_short a = map (\<lambda>k. char_of (drop_bit (8 * k) (to_int16 a))) [0, 1]"

definition int32_of_mem :: "string \<Rightarrow> int" where
  "int32_of_mem bs = to_int32 (horner_sum of_char 256 bs)"

lemma length_intToDWord [simp]: "length (intToDWord i) = 4"
  by (simp add: intToDWord_def)

lemma length_intToSWord [simp]: "length (intToSWord i) = 2"
  by (simp add: intToSWord_def)

lemma length_write_int [simp]: "length (write_int i) = 4"
  by (simp add: write_int_def)

lemma length_write_short [simp]: "length (write_short i) = 2"
  by (simp add: write_short_def)

lemma and_ff: "(i :: int) AND 0xff = take_bit 8 i"
  by (simp add: take_bit_eq_mask mask_eq_exp_minus_1)

lemma char_of_take_bit: "char_of (take_bit 8 (i :: int)) = (char_of i :: char)"
  by (simp add: char_of_def bit_take_bit_iff take_bit_0 flip: bit_0)

lemma of_char_take_bit: "take_bit 8 (i :: int) mod 256 = take_bit 8 i"
  by (simp add: take_bit_eq_mod)

lemma write_int_eq: "write_int i = intToDWord i"
proof -
  have "char_of (drop_bit k (to_int32 i)) = (char_of (drop_bit k i AND 0xff) :: char)"
    if "k \<le> 24" for k
  proof -
    have "min 31 (k + n) = k + n" if "n < 8" for n
      using that \<open>k \<le> 24\<close> by simp
    then have "take_bit 8 (drop_bit k (to_int32 i)) = take_bit 8 (drop_bit k i)"
      by (intro bit_eqI)
        (auto simp: bit_take_bit_iff bit_drop_bit_eq to_int32_def bit_signed_take_bit_iff)
    then have "char_of (take_bit 8 (drop_bit k (to_int32 i)))
        = (char_of (take_bit 8 (drop_bit k i)) :: char)" by simp
    then show ?thesis by (simp only: and_ff char_of_take_bit)
  qed
  from this [of 0] this [of 8] this [of 16] this [of 24] show ?thesis
    by (simp add: write_int_def intToDWord_def)
qed

lemma write_short_0 [simp]: "write_short 0 = [CHR 0x00, CHR 0x00]"
  by (simp add: write_short_def to_int16_def char_of_def)

text \<open>A reader on the same machine gets back the number, modulo its width.\<close>

lemma horner_sum_intToDWord: "horner_sum of_char 256 (intToDWord i) = take_bit 32 i"
proof -
  have step: "take_bit n i + 2 ^ n * take_bit 8 (drop_bit n i) = take_bit (n + 8) i" for n
  proof -
    have "take_bit (n + 8) i = concat_bit n i (take_bit 8 (drop_bit n i))"
      by (intro bit_eqI)
        (auto simp: bit_concat_bit_iff bit_take_bit_iff bit_drop_bit_eq)
    then show ?thesis by (simp add: concat_bit_eq push_bit_eq_mult mult.commute)
  qed
  have "horner_sum of_char 256 (intToDWord i) =
      take_bit 8 i + 2 ^ 8 * take_bit 8 (drop_bit 8 i)
        + 2 ^ 16 * take_bit 8 (drop_bit 16 i) + 2 ^ 24 * take_bit 8 (drop_bit 24 i)"
    by (simp add: intToDWord_def and_ff of_char_take_bit)
  also have "\<dots> = take_bit 32 i"
    using step [of 8] step [of 16] step [of 24] by simp
  finally show ?thesis .
qed

lemma int32_of_mem_intToDWord: "int32_of_mem (intToDWord i) = to_int32 i"
proof -
  have "signed_take_bit 31 (take_bit 32 i) = signed_take_bit 31 i"
    by (rule signed_take_bit_eq_iff_take_bit_eq [THEN iffD2]) simp
  then show ?thesis
    by (simp only: int32_of_mem_def to_int32_def horner_sum_intToDWord)
qed

lemma int32_of_mem_write_int: "cint i \<Longrightarrow> int32_of_mem (intToDWord i) = i"
  by (simp add: int32_of_mem_intToDWord to_int32_id)

subsection \<open>bytesToLEInt reads big-endian, and only when no byte is negative\<close>

definition be_value :: "char \<Rightarrow> char \<Rightarrow> char \<Rightarrow> char \<Rightarrow> int" where
  "be_value a b c d =
     2 ^ 24 * of_char a + 2 ^ 16 * of_char b + 2 ^ 8 * of_char c + of_char d"

lemma or_push_bit: "0 \<le> y \<Longrightarrow> y < 2 ^ n \<Longrightarrow> push_bit n x OR y = 2 ^ n * x + (y :: int)"
proof -
  assume "0 \<le> y" and "y < 2 ^ n"
  then have "take_bit n y = y" by (simp add: take_bit_int_eq_self)
  moreover have "concat_bit n y x = take_bit n y + push_bit n x" by (rule concat_bit_eq)
  moreover have "concat_bit n y x = take_bit n y OR push_bit n x" by (rule concat_bit_def)
  ultimately show ?thesis by (simp add: or.commute push_bit_eq_mult mult.commute)
qed

lemma bytesToLEInt_big_endian:
  assumes "(of_char a :: int) < 128" "(of_char b :: int) < 128"
    and "(of_char c :: int) < 128" "(of_char d :: int) < 128"
  shows "bytesToLEInt a b c d = be_value a b c d"
proof -
  let ?a = "of_char a :: int" and ?b = "of_char b :: int"
    and ?c = "of_char c :: int" and ?d = "of_char d :: int"
  have a: "to_int32 (push_bit 24 ?a) = push_bit 24 ?a"
    using assms(1) of_char_bounds [of a]
    by (intro to_int32_id) (simp add: cint_def push_bit_eq_mult)
  have b: "push_bit 24 ?a OR push_bit 16 ?b = push_bit 16 (2 ^ 8 * ?a + ?b)"
    using assms(2) of_char_bounds [of b] or_push_bit [of "2 ^ 16 * ?b" 24 ?a]
    by (simp add: push_bit_eq_mult mult.commute)
  have c: "push_bit 16 (2 ^ 8 * ?a + ?b) OR push_bit 8 ?c
      = push_bit 8 (2 ^ 8 * (2 ^ 8 * ?a + ?b) + ?c)"
    using assms(3) of_char_bounds [of c] or_push_bit [of "2 ^ 8 * ?c" 16 "2 ^ 8 * ?a + ?b"]
    by (simp add: push_bit_eq_mult mult.commute)
  have d: "push_bit 8 (2 ^ 8 * (2 ^ 8 * ?a + ?b) + ?c) OR ?d
      = 2 ^ 8 * (2 ^ 8 * (2 ^ 8 * ?a + ?b) + ?c) + ?d"
    using of_char_bounds [of d] by (intro or_push_bit) simp_all
  show ?thesis
    by (simp only: bytesToLEInt_def schar_nonneg assms a b c d be_value_def) simp
qed

text \<open>A last byte of 128 or more is a negative \<^verbatim>\<open>char\<close>, and its sign bits drown the rest.\<close>

lemma bytesToLEInt_negative:
  assumes "128 \<le> (of_char d :: int)"
  shows "bytesToLEInt a b c d = of_char d - 256"
proof -
  have neg: "schar d = of_char d - 256" using assms by (simp add: schar_cases)
  have hi: "bit (schar d) n" if "7 \<le> n" for n
  proof -
    have "of_char d div 128 = (1 :: int)"
      using assms of_char_bounds [of d] by linarith
    then have "bit (of_char d :: int) 7" by (simp add: bit_iff_odd)
    then show ?thesis using that by (simp add: schar_def bit_signed_take_bit_iff min_def)
  qed
  have "((to_int32 (push_bit 24 (schar a)) OR push_bit 16 (schar b)) OR push_bit 8 (schar c))
      OR schar d = schar d"
    using hi
    by (intro bit_eqI)
      (auto simp: bit_or_iff bit_push_bit_iff to_int32_def bit_signed_take_bit_iff)
  then show ?thesis by (simp add: bytesToLEInt_def neg)
qed

section \<open>The C library's string functions\<close>

text \<open>What a callee that takes a \<^verbatim>\<open>const char *\<close> sees of \<^verbatim>\<open>s.c_str()\<close>.\<close>

definition c_str :: "string \<Rightarrow> string" where
  "c_str s = takeWhile (\<lambda>c. c \<noteq> CHR 0x00) s"

definition is_space :: "char \<Rightarrow> bool" where
  "is_space c \<longleftrightarrow> c \<in> {CHR '' '', CHR 0x09, CHR 0x0A, CHR 0x0B, CHR 0x0C, CHR 0x0D}"

definition is_digit :: "char \<Rightarrow> bool" where
  "is_digit c \<longleftrightarrow> (48 :: int) \<le> of_char c \<and> (of_char c :: int) \<le> 57"

fun digits_value :: "int \<Rightarrow> string \<Rightarrow> int" where
  "digits_value acc [] = acc"
| "digits_value acc (c # cs) =
     (if is_digit c then digits_value (10 * acc + (of_char c - 48)) cs else acc)"

text \<open>
  \<^verbatim>\<open>atoi\<close>: leading white space, an optional sign, digits; \<open>None\<close> where the value is
  not an \<^verbatim>\<open>int\<close>, which the C standard leaves undefined.
\<close>

definition atoi :: "string \<Rightarrow> int option" where
  "atoi s =
     (let t = dropWhile is_space (c_str s);
          v = (case t of
                 [] \<Rightarrow> 0
               | c # cs \<Rightarrow> if c = CHR ''-'' then - digits_value 0 cs
                           else if c = CHR ''+'' then digits_value 0 cs
                           else digits_value 0 t)
      in if cint v then Some v else None)"

fun dec_of_nat :: "nat \<Rightarrow> string" where
  "dec_of_nat n =
     (if n < 10 then [char_of (48 + n)] else dec_of_nat (n div 10) @ [char_of (48 + n mod 10)])"

text \<open>\<^verbatim>\<open>%d\<close> of \<^verbatim>\<open>sprintf\<close>.\<close>

definition dec_of_int :: "int \<Rightarrow> string" where
  "dec_of_int i = (if i < 0 then CHR ''-'' # dec_of_nat (nat (- i)) else dec_of_nat (nat i))"

definition c_tolower :: "char \<Rightarrow> char" where
  "c_tolower c =
     (if (65 :: int) \<le> of_char c \<and> (of_char c :: int) \<le> 90
      then char_of ((of_char c :: int) + 32) else c)"

text \<open>\<^verbatim>\<open>string::find(c)\<close> converted to \<^verbatim>\<open>int\<close>: the first position, or \<open>-1\<close> for \<^verbatim>\<open>npos\<close>.\<close>

definition str_find :: "char \<Rightarrow> string \<Rightarrow> int" where
  "str_find c s = (if c \<in> set s then int (length (takeWhile (\<lambda>x. x \<noteq> c) s)) else -1)"

text \<open>
  \<^verbatim>\<open>s.substr(pos, n)\<close> for arguments of type \<^verbatim>\<open>size_t\<close>: \<^verbatim>\<open>std::out_of_range\<close> (here
  \<open>None\<close>) when \<open>pos\<close> is past the end, at most \<open>n\<close> bytes otherwise.
\<close>

definition substr :: "string \<Rightarrow> int \<Rightarrow> int \<Rightarrow> string option" where
  "substr s pos n =
     (if int (length s) < pos then None else Some (take (nat n) (drop (nat pos) s)))"

lemma c_str_no_nul [simp]: "CHR 0x00 \<notin> set (c_str s)"
  by (auto simp: c_str_def dest: set_takeWhileD)

lemma c_str_id: "CHR 0x00 \<notin> set s \<Longrightarrow> c_str s = s"
  by (auto simp: c_str_def takeWhile_eq_all_conv)

end
