(* ===== verification/MessageBuffer.thy ===== *)
theory MessageBuffer
  imports Bytes
begin

text \<open>
  \<^verbatim>\<open>messagebuffer.h\<close> and \<^verbatim>\<open>messagebuffer.cpp\<close>: a string and a read position.  The
  position is an \<^verbatim>\<open>int\<close> that a length taken from the wire can move backwards, and the
  checks mix signed and \<^verbatim>\<open>size_t\<close> arithmetic, so both conversions are kept.  The
  abstraction is the list of bytes still to be read (\<open>rest\<close>).  The locale \<open>codec\<close> is
  the contract between a reader and the bytes it undoes.
\<close>

section \<open>The class\<close>

record msgbuf =
  mb_offset :: int
  mb_err :: int
  mb_str :: string

definition MessageBuffer :: "string \<Rightarrow> msgbuf" where
  "MessageBuffer s = \<lparr>mb_offset = 0, mb_err = 0, mb_str = s\<rparr>"

definition getRawBuffer :: "msgbuf \<Rightarrow> string" where
  "getRawBuffer b = mb_str b"

definition mb_adv :: "int \<Rightarrow> msgbuf \<Rightarrow> msgbuf" where
  "mb_adv n b = b\<lparr>mb_offset := mb_offset b + n\<rparr>"

text \<open>The subtraction is in \<^verbatim>\<open>int\<close>; past its range it is undefined.\<close>

definition left :: "(msgbuf, int) M" where
  "left =
     bindM (getM (\<lambda>b. to_int32 (int (length (mb_str b))) - mb_offset b)) (\<lambda>v.
     thenM (ensure (cint v) (Undef SignedOverflow))
     (ret v))"

text \<open>\<^verbatim>\<open>*((gint32*) (str.c_str() + offset))\<close>: defined inside the string only.\<close>

definition mem_int32 :: "(msgbuf, int) M" where
  "mem_int32 = (\<lambda>b.
     if 0 \<le> mb_offset b \<and> mb_offset b + 4 \<le> int (length (mb_str b))
     then Some (Ok (int32_of_mem (take 4 (drop (nat (mb_offset b)) (mb_str b)))), b)
     else Some (Throw (Undef OutOfBounds), b))"

definition readInt32 :: "(msgbuf, int) M" where
  "readInt32 =
     bindM left (\<lambda>l.
     thenM (ensure (4 \<le> l) Overflow) (
     bindM mem_int32 (\<lambda>i.
     thenM (modM (mb_adv 4))
     (ret i))))"

definition peekInt32 :: "(msgbuf, int) M" where
  "peekInt32 =
     bindM left (\<lambda>l.
     thenM (ensure (4 \<le> l) Overflow)
     mem_int32)"

definition readInt :: "(msgbuf, int) M" where
  "readInt = readInt32"

text \<open>\<^verbatim>\<open>size_t(offset) + len >= str.length()\<close> is a comparison of \<^verbatim>\<open>size_t\<close> values.\<close>

definition seek :: "int \<Rightarrow> (msgbuf, unit) M" where
  "seek len =
     bindM (getM (\<lambda>b. to_size (to_size (mb_offset b) + to_size len) \<ge> int (length (mb_str b)))) (\<lambda>over.
     thenM (ensure (\<not> over) Overflow)
     (modM (mb_adv len)))"

definition readByte :: "(msgbuf, char) M" where
  "readByte =
     bindM (getM (\<lambda>b. to_size (mb_offset b) \<ge> int (length (mb_str b)))) (\<lambda>over.
     thenM (ensure (\<not> over) Overflow) (
     bindM (getM (\<lambda>b. mb_str b ! nat (mb_offset b))) (\<lambda>c.
     thenM (modM (mb_adv 1))
     (ret c))))"

definition readBytes :: "int \<Rightarrow> (msgbuf, string) M" where
  "readBytes len =
     bindM left (\<lambda>l.
     thenM (ensure (len \<le> l) Overflow) (
     bindM (getM (\<lambda>b. substr (mb_str b) (to_size (mb_offset b)) (to_size len))) (\<lambda>r.
     case r of
       None \<Rightarrow> raise OutOfRange
     | Some s \<Rightarrow> thenM (modM (mb_adv len)) (ret s))))"

definition readMessageBuffer :: "int \<Rightarrow> (msgbuf, msgbuf) M" where
  "readMessageBuffer len = bindM (readBytes len) (\<lambda>s. ret (MessageBuffer s))"

definition readString :: "(msgbuf, string) M" where
  "readString = bindM readInt32 (\<lambda>len. readBytes len)"

definition readStringn :: "int \<Rightarrow> (msgbuf, string) M" where
  "readStringn len = (if len = 0 then ret [] else readBytes len)"

definition readShort :: "(msgbuf, int) M" where
  "readShort =
     bindM readByte (\<lambda>c0.
     bindM readByte (\<lambda>c1.
     ret (to_int16 (or (push_bit 8 (schar c1)) (schar c0)))))"

definition isEnd :: "(msgbuf, bool) M" where
  "isEnd = getM (\<lambda>b. to_size (mb_offset b) \<ge> int (length (mb_str b)))"

definition getLength :: "(msgbuf, int) M" where
  "getLength = getM (\<lambda>b. to_int32 (int (length (mb_str b))))"

definition mb_reset :: "(msgbuf, unit) M" where
  "mb_reset = modM (\<lambda>b. b\<lparr>mb_offset := 0, mb_err := 0\<rparr>)"

definition push_str :: "string \<Rightarrow> msgbuf \<Rightarrow> msgbuf" where
  "push_str s b = b\<lparr>mb_str := mb_str b @ s\<rparr>"

definition mb_push :: "string \<Rightarrow> (msgbuf, unit) M" where
  "mb_push s = modM (push_str s)"

definition readLEInt :: "(msgbuf, int) M" where
  "readLEInt =
     bindM readByte (\<lambda>a.
     bindM readByte (\<lambda>b.
     bindM readByte (\<lambda>c.
     bindM readByte (\<lambda>d.
     ret (bytesToLEInt a b c d)))))"

text \<open>\<^verbatim>\<open>str.substr(offset)\<close>, for \<^verbatim>\<open>peek\<close> and \<^verbatim>\<open>tail\<close>.\<close>

definition mb_peek :: "(msgbuf, string) M" where
  "mb_peek =
     bindM (getM (\<lambda>b. substr (mb_str b) (to_size (mb_offset b)) (2 ^ 64 - 1))) (\<lambda>r.
     case r of None \<Rightarrow> raise OutOfRange | Some s \<Rightarrow> ret s)"

definition mb_tail :: "(msgbuf, msgbuf) M" where
  "mb_tail = bindM mb_peek (\<lambda>s. ret (MessageBuffer s))"

text \<open>The assignment \<^verbatim>\<open>buffer = buffer.readMessageBuffer(len)\<close> of the packet parsers.\<close>

definition narrow :: "int \<Rightarrow> (msgbuf, unit) M" where
  "narrow len = bindM (readMessageBuffer len) (\<lambda>b. modM (\<lambda>_. b))"

subsection \<open>Every operation returns\<close>

lemma total_case_option [total_intro]:
  "total m \<Longrightarrow> (\<And>x. total (f x)) \<Longrightarrow> total (case r of None \<Rightarrow> m | Some x \<Rightarrow> f x)"
  by (cases r) simp_all

lemma total_mem_int32 [total_intro]: "total mem_int32"
  by (simp add: total_def mem_int32_def)

lemma total_buffer_ops [total_intro]:
  "total left" "total readInt32" "total peekInt32" "total readInt" "total (seek n)"
  "total readByte" "total (readBytes n)" "total (readMessageBuffer n)" "total readString"
  "total (readStringn n)" "total readShort" "total isEnd" "total getLength" "total mb_reset"
  "total (mb_push s)" "total readLEInt" "total mb_peek" "total mb_tail" "total (narrow n)"
  by (unfold left_def readInt32_def peekInt32_def readInt_def seek_def readByte_def
      readBytes_def readMessageBuffer_def readString_def readStringn_def readShort_def isEnd_def
      getLength_def mb_reset_def mb_push_def readLEInt_def mb_peek_def mb_tail_def narrow_def)
    (intro total_intro)+

section \<open>The invariant and the abstraction\<close>

definition mb_wf :: "msgbuf \<Rightarrow> bool" where
  "mb_wf b \<longleftrightarrow> 0 \<le> mb_offset b \<and> mb_offset b \<le> int (length (mb_str b))
     \<and> length (mb_str b) < 2 ^ 31"

definition rest :: "msgbuf \<Rightarrow> string" where
  "rest b = drop (nat (mb_offset b)) (mb_str b)"

lemma mb_wf_new: "length s < 2 ^ 31 \<Longrightarrow> mb_wf (MessageBuffer s)"
  by (simp add: mb_wf_def MessageBuffer_def)

lemma rest_new [simp]: "rest (MessageBuffer s) = s"
  by (simp add: rest_def MessageBuffer_def)

lemma length_rest: "mb_wf b \<Longrightarrow> int (length (rest b)) = int (length (mb_str b)) - mb_offset b"
  by (auto simp: mb_wf_def rest_def)

lemma mb_adv_add [simp]: "mb_adv m (mb_adv n b) = mb_adv (n + m) b"
  by (simp add: mb_adv_def)

lemma mb_adv_0 [simp]: "mb_adv 0 b = b"
  by (simp add: mb_adv_def)

lemma mb_wf_adv: "mb_wf b \<Longrightarrow> 0 \<le> n \<Longrightarrow> n \<le> int (length (rest b)) \<Longrightarrow> mb_wf (mb_adv n b)"
  by (auto simp: mb_wf_def mb_adv_def length_rest)

lemma rest_adv: "mb_wf b \<Longrightarrow> 0 \<le> n \<Longrightarrow> rest (mb_adv n b) = drop (nat n) (rest b)"
  by (simp add: mb_wf_def mb_adv_def rest_def nat_add_distrib add.commute)

lemma rest_adv_append:
  "mb_wf b \<Longrightarrow> rest b = xs @ r \<Longrightarrow> rest (mb_adv (int (length xs)) b) = r"
  by (simp add: rest_adv)

lemma mb_wf_adv_append:
  "mb_wf b \<Longrightarrow> rest b = xs @ r \<Longrightarrow> mb_wf (mb_adv (int (length xs)) b)"
  by (rule mb_wf_adv) simp_all

section \<open>What each read does on a well-formed buffer\<close>

named_theorems reads "results of the read operations on a well-formed buffer"

lemma left_run [reads]: "mb_wf b \<Longrightarrow> left b = Some (Ok (int (length (rest b))), b)"
  by (auto simp: left_def exec length_rest to_int32_id mb_wf_def cint_def)

lemma mem_int32_run:
  "mb_wf b \<Longrightarrow> 4 \<le> length (rest b) \<Longrightarrow>
     mem_int32 b = Some (Ok (int32_of_mem (take 4 (rest b))), b)"
  by (auto simp: mem_int32_def rest_def mb_wf_def)

lemma readInt32_run [reads]:
  "mb_wf b \<Longrightarrow> readInt32 b =
     (if 4 \<le> length (rest b)
      then Some (Ok (int32_of_mem (take 4 (rest b))), mb_adv 4 b)
      else Some (Throw Overflow, b))"
  by (simp add: readInt32_def exec left_run mem_int32_run)

lemma peekInt32_run [reads]:
  "mb_wf b \<Longrightarrow> peekInt32 b =
     (if 4 \<le> length (rest b)
      then Some (Ok (int32_of_mem (take 4 (rest b))), b)
      else Some (Throw Overflow, b))"
  by (simp add: peekInt32_def exec left_run mem_int32_run)

lemma mb_wf_size: "mb_wf b \<Longrightarrow> to_size (mb_offset b) = mb_offset b"
  by (intro to_size_nonneg) (auto simp: mb_wf_def)

lemma substr_rest:
  "mb_wf b \<Longrightarrow> substr (mb_str b) (to_size (mb_offset b)) n = Some (take (nat n) (rest b))"
  by (simp add: mb_wf_size) (simp add: substr_def rest_def mb_wf_def)

lemma readBytes_run [reads]:
  assumes "mb_wf b" and "cint n"
  shows "readBytes n b =
     (if int (length (rest b)) < n then Some (Throw Overflow, b)
      else if 0 \<le> n then Some (Ok (take (nat n) (rest b)), mb_adv n b)
      else Some (Ok (rest b), mb_adv n b))"
proof (cases "0 \<le> n")
  case True
  then have "to_size n = n"
    using assms(2) by (intro to_size_nonneg) (simp_all add: cint_def)
  with True assms(1) show ?thesis
    by (simp add: readBytes_def exec left_run substr_rest)
next
  case False
  then have n: "to_size n = 2 ^ 64 + n"
    using assms(2) by (intro to_size_neg) (simp_all add: cint_def)
  have "length (rest b) \<le> length (mb_str b)" by (simp add: rest_def)
  also have "\<dots> \<le> nat (2 ^ 64 + n)"
  proof -
    have "int (length (mb_str b)) < 2 ^ 31" and "- (2 ^ 31) \<le> n"
      using assms by (auto simp: mb_wf_def cint_def)
    then show ?thesis by simp
  qed
  finally have "length (rest b) \<le> nat (2 ^ 64 + n)" .
  with False n assms(1) show ?thesis
    by (simp add: readBytes_def exec left_run substr_rest)
qed

lemma readByte_run [reads]:
  "mb_wf b \<Longrightarrow> readByte b =
     (case rest b of
        [] \<Rightarrow> Some (Throw Overflow, b)
      | c # _ \<Rightarrow> Some (Ok c, mb_adv 1 b))"
  using length_rest [of b]
  by (auto simp: readByte_def exec mb_wf_size rest_def nth_via_drop split: list.split
      dest: drop_eq_Nil [THEN iffD1])

lemma isEnd_run [reads]: "mb_wf b \<Longrightarrow> isEnd b = Some (Ok (rest b = []), b)"
  by (simp add: isEnd_def exec mb_wf_size) (auto simp: rest_def mb_wf_def)

lemma mb_peek_run [reads]: "mb_wf b \<Longrightarrow> mb_peek b = Some (Ok (rest b), b)"
  using length_rest [of b] by (simp add: mb_peek_def exec substr_rest) (simp add: mb_wf_def)

lemma mb_tail_run [reads]: "mb_wf b \<Longrightarrow> mb_tail b = Some (Ok (MessageBuffer (rest b)), b)"
  by (simp add: mb_tail_def exec mb_peek_run)

lemma readStringn_run [reads]:
  "mb_wf b \<Longrightarrow> cint n \<Longrightarrow> readStringn n b =
     (if int (length (rest b)) < n then Some (Throw Overflow, b)
      else if 0 \<le> n then Some (Ok (take (nat n) (rest b)), mb_adv n b)
      else Some (Ok (rest b), mb_adv n b))"
  by (simp add: readStringn_def readBytes_run exec)

lemma narrow_run [reads]:
  "mb_wf b \<Longrightarrow> cint n \<Longrightarrow> 0 \<le> n \<Longrightarrow> n \<le> int (length (rest b)) \<Longrightarrow>
     narrow n b = Some (Ok (), MessageBuffer (take (nat n) (rest b)))"
  by (simp add: narrow_def readMessageBuffer_def readBytes_run exec)

lemma readLEInt_run:
  "mb_wf b \<Longrightarrow> rest b = [c0, c1, c2, c3] @ r \<Longrightarrow>
     readLEInt b = Some (Ok (bytesToLEInt c0 c1 c2 c3), mb_adv 4 b)"
  by (simp add: readLEInt_def exec readByte_run mb_wf_adv rest_adv)

lemma readLEInt_short:
  assumes "mb_wf b" and "length (rest b) < 4"
  shows "\<exists>b'. readLEInt b = Some (Throw Overflow, b')"
proof -
  consider "rest b = []" | c where "rest b = [c]" | c d where "rest b = [c, d]"
    | c d e where "rest b = [c, d, e]"
    using assms(2) by (auto simp: less_Suc_eq numeral_eq_Suc length_Suc_conv)
  then show ?thesis
    by cases (use assms(1) in \<open>simp_all add: readLEInt_def exec readByte_run mb_wf_adv rest_adv\<close>)
qed

section \<open>The contract between a writer and its reader\<close>

text \<open>
  \<open>put\<close> lays a value out as bytes, \<open>get\<close> reads it back when it stands at the front
  of what is left to read, consuming exactly those bytes.  \<open>ok\<close> bounds the values
  for which that holds.
\<close>

locale codec =
  fixes put :: "'a \<Rightarrow> string" and get :: "(msgbuf, 'a) M" and ok :: "'a \<Rightarrow> bool"
  assumes get_put: "mb_wf b \<Longrightarrow> ok a \<Longrightarrow> rest b = put a @ r \<Longrightarrow>
    get b = Some (Ok a, mb_adv (int (length (put a))) b)"
begin

lemma get_then:
  assumes "mb_wf b" and "ok a" and "rest b = put a @ r"
  shows "bindM get f b = f a (mb_adv (int (length (put a))) b)"
    and "mb_wf (mb_adv (int (length (put a))) b)"
    and "rest (mb_adv (int (length (put a))) b) = r"
  using get_put [OF assms] assms by (simp_all add: bindM_OkI mb_wf_adv_append rest_adv_append)

text \<open>A counted loop of reads gets back a whole sequence, whatever it folds it into.\<close>

lemma get_loop:
  assumes "mb_wf b" and "list_all ok xs" and "rest b = concat (map put xs) @ r"
  shows "loopM (length xs) (\<lambda>acc. bindM get (\<lambda>x. ret (f x acc))) acc b
    = Some (Ok (fold f xs acc), mb_adv (int (length (concat (map put xs)))) b)"
  using assms
proof (induction xs arbitrary: b acc)
  case Nil
  then show ?case by (simp add: exec)
next
  case (Cons x xs)
  let ?b = "mb_adv (int (length (put x))) b"
  have front: "rest b = put x @ (concat (map put xs) @ r)" using Cons.prems(3) by simp
  have x: "ok x" using Cons.prems(2) by simp
  have "mb_wf ?b" and "rest ?b = concat (map put xs) @ r"
    by (rule get_then [OF Cons.prems(1) x front])+
  then have "loopM (length xs) (\<lambda>acc. bindM get (\<lambda>x. ret (f x acc))) (f x acc) ?b
      = Some (Ok (fold f xs (f x acc)), mb_adv (int (length (concat (map put xs)))) ?b)"
    using Cons.prems(2) by (intro Cons.IH) simp_all
  then show ?case
    by (simp add: bindM_assoc get_then(1) [OF Cons.prems(1) x front])
qed

lemma get_forM:
  assumes "mb_wf b" and "list_all ok xs" and "rest b = concat (map put xs) @ r"
  shows "forM (int (length xs)) (\<lambda>acc. bindM get (\<lambda>x. ret (f x acc))) acc b
    = Some (Ok (fold f xs acc), mb_adv (int (length (concat (map put xs)))) b)"
  unfolding forM_def nat_int by (rule get_loop [OF assms])

end

text \<open>Two readers in sequence undo two writers in sequence.\<close>

locale codec_pair =
  a: codec puta geta oka + b: codec putb getb okb
  for puta :: "'a \<Rightarrow> string" and geta oka
    and putb :: "'b \<Rightarrow> string" and getb okb

sublocale codec_pair \<subseteq> pair: codec
  "\<lambda>(x, y). puta x @ putb y" "bindM geta (\<lambda>x. bindM getb (\<lambda>y. ret (x, y)))"
  "\<lambda>(x, y). oka x \<and> okb y"
proof
  fix b :: msgbuf and p :: "'a \<times> 'b" and r
  assume wf: "mb_wf b" and p: "case p of (x, y) \<Rightarrow> oka x \<and> okb y"
    and front: "rest b = (case p of (x, y) \<Rightarrow> puta x @ putb y) @ r"
  obtain x y where xy: "p = (x, y)" by force
  have x: "oka x" and y: "okb y" using p xy by simp_all
  have f: "rest b = puta x @ (putb y @ r)" using front xy by simp
  note ax = a.get_then [OF wf x f]
  show "bindM geta (\<lambda>x. bindM getb (\<lambda>y. ret (x, y))) b
      = Some (Ok p, mb_adv (int (length (case p of (x, y) \<Rightarrow> puta x @ putb y))) b)"
    by (simp add: ax(1) b.get_then(1) [OF ax(2) y ax(3)] xy ret_run)
qed

subsection \<open>The encodings of the protocol\<close>

text \<open>A string goes on the wire as its length and its bytes.\<close>

definition put_string :: "string \<Rightarrow> string" where
  "put_string s = intToDWord (int (length s)) @ s"

definition str_ok :: "string \<Rightarrow> bool" where
  "str_ok s \<longleftrightarrow> length s < 2 ^ 31"

lemma length_put_string [simp]: "length (put_string s) = length s + 4"
  by (simp add: put_string_def)

lemma str_ok_cint: "str_ok s \<Longrightarrow> cint (int (length s))"
  by (simp add: str_ok_def cint_def)

lemma readInt32_put:
  assumes "mb_wf b" and "cint i" and "rest b = intToDWord i @ r"
  shows "readInt32 b = Some (Ok i, mb_adv 4 b)"
  using assms by (simp add: readInt32_run int32_of_mem_write_int)

interpretation int_codec: codec intToDWord readInt32 cint
  by unfold_locales (simp add: readInt32_put)

interpretation str_codec: codec put_string readString str_ok
proof
  fix b :: msgbuf and s r :: string
  assume wf: "mb_wf b" and ok: "str_ok s" and front: "rest b = put_string s @ r"
  have f: "rest b = intToDWord (int (length s)) @ (s @ r)"
    using front by (simp add: put_string_def)
  note len = int_codec.get_then [OF wf str_ok_cint [OF ok] f]
  show "readString b = Some (Ok s, mb_adv (int (length (put_string s))) b)"
    using len(2,3) str_ok_cint [OF ok]
    by (simp add: readString_def len(1) readBytes_run add.commute)
qed

interpretation str_str: codec_pair put_string readString str_ok put_string readString str_ok
  by unfold_locales

interpretation str_int: codec_pair put_string readString str_ok intToDWord readInt32 cint
  by unfold_locales

end
