(* ===== verification/FontParser.thy ===== *)
theory FontParser
  imports Bytes
begin

text \<open>
  \<^verbatim>\<open>FontParser.h\<close> and \<^verbatim>\<open>FontParser.cpp\<close>: the font name and the binary font record of a
  text run, and the attributes read out of the record by position.
\<close>

record fontparser =
  fp_name :: string
  fp_data :: string

definition FontParser :: "string \<Rightarrow> string \<Rightarrow> fontparser" where
  "FontParser fontname fontdata = \<lparr>fp_name = fontname, fp_data = fontdata\<rparr>"

text \<open>
  \<^verbatim>\<open>std::string::operator[]\<close>: the terminating NUL at the position after the last
  byte, undefined beyond it.
\<close>

definition str_at :: "string \<Rightarrow> nat \<Rightarrow> ('s, char) M" where
  "str_at s i =
     (if i < length s then ret (s ! i)
      else if i = length s then ret (CHR 0x00)
      else raise (Undef OutOfBounds))"

definition getSize :: "fontparser \<Rightarrow> ('s, int) M" where
  "getSize fp = bindM (str_at (fp_data fp) 1) (\<lambda>c. ret (0xff AND schar c))"

fun hex_digit :: "nat \<Rightarrow> char" where
  "hex_digit n = (if n < 10 then char_of (48 + n) else char_of (87 + n))"

fun hex_of_nat :: "nat \<Rightarrow> string" where
  "hex_of_nat n =
     (if n < 16 then [hex_digit n] else hex_of_nat (n div 16) @ [hex_digit (n mod 16)])"

declare hex_of_nat.simps [simp del]

text \<open>\<^verbatim>\<open>%06x\<close>: the \<^verbatim>\<open>int\<close> argument read as unsigned, padded with zeros to six digits.\<close>

definition fmt_06x :: "int \<Rightarrow> string" where
  "fmt_06x i =
     (let h = hex_of_nat (nat (i mod 2 ^ 32)) in replicate (6 - length h) (CHR ''0'') @ h)"

definition getColor :: "fontparser \<Rightarrow> ('s, string) M" where
  "getColor fp =
     bindM (str_at (fp_data fp) 10) (\<lambda>c10.
     let nc = to_int32 (push_bit 8 (schar c10)) in
     bindM (str_at (fp_data fp) 11) (\<lambda>c11.
     let nc = to_int32 (push_bit 8 (nc OR schar c11)) in
     bindM (str_at (fp_data fp) 12) (\<lambda>c12.
     let nc = nc OR schar c12 in
     ret (CHR ''#'' # fmt_06x nc))))"

definition isItalic :: "fontparser \<Rightarrow> ('s, bool) M" where
  "isItalic fp = bindM (str_at (fp_data fp) 8) (\<lambda>c. ret (schar c AND 1 \<noteq> 0))"

definition isBold :: "fontparser \<Rightarrow> ('s, bool) M" where
  "isBold fp = bindM (str_at (fp_data fp) 7) (\<lambda>c. ret (schar c AND 0xff = 75))"

definition isStrikedOut :: "fontparser \<Rightarrow> ('s, bool) M" where
  "isStrikedOut fp = bindM (str_at (fp_data fp) 8) (\<lambda>c. ret (schar c AND 4 \<noteq> 0))"

definition isUnderlined :: "fontparser \<Rightarrow> ('s, bool) M" where
  "isUnderlined fp = bindM (str_at (fp_data fp) 8) (\<lambda>c. ret (schar c AND 2 \<noteq> 0))"

lemma total_str_at [total_intro]: "total (str_at s i)"
  by (simp add: str_at_def total_intro)

lemma total_font [total_intro]:
  "total (getSize fp)" "total (getColor fp)" "total (isItalic fp)" "total (isBold fp)"
  "total (isStrikedOut fp)" "total (isUnderlined fp)"
  by (simp_all add: getSize_def getColor_def isItalic_def isBold_def isStrikedOut_def
      isUnderlined_def Let_def total_intro)

section \<open>What a 13-byte record says\<close>

text \<open>The attributes as pure functions of a record that is long enough.\<close>

definition font_bold :: "string \<Rightarrow> bool" where
  "font_bold d \<longleftrightarrow> (of_char (d ! 7) :: int) = 75"

definition font_italic :: "string \<Rightarrow> bool" where
  "font_italic d \<longleftrightarrow> odd (of_char (d ! 8) :: int)"

definition font_color :: "string \<Rightarrow> string" where
  "font_color d =
     (let nc = to_int32 (push_bit 8 (schar (d ! 10)));
          nc = to_int32 (push_bit 8 (nc OR schar (d ! 11)))
      in CHR ''#'' # fmt_06x (nc OR schar (d ! 12)))"

lemma schar_and_ff: "schar c AND 0xff = of_char c"
proof -
  have "take_bit 8 (schar c) = take_bit 8 (of_char c)"
    by (simp add: schar_def take_bit_signed_take_bit)
  then show ?thesis
    using of_char_bounds [of c] by (simp only: and_ff) (simp add: take_bit_int_eq_self)
qed

lemma odd_schar: "odd (schar c) = odd (of_char c :: int)"
  by (simp add: schar_cases)

lemma str_at_run [exec]: "i < length s \<Longrightarrow> str_at s i st = Some (Ok (s ! i), st)"
  by (simp add: str_at_def ret_run)

lemma isBold_run:
  "8 \<le> length d \<Longrightarrow> isBold (FontParser f d) s = Some (Ok (font_bold d), s)"
  by (simp add: isBold_def FontParser_def exec schar_and_ff font_bold_def)

lemma isItalic_run:
  "9 \<le> length d \<Longrightarrow> isItalic (FontParser f d) s = Some (Ok (font_italic d), s)"
  by (simp add: isItalic_def FontParser_def exec and_one_eq odd_iff_mod_2_eq_one [symmetric]
      odd_schar font_italic_def)

lemma getSize_run:
  "2 \<le> length d \<Longrightarrow> getSize (FontParser f d) s = Some (Ok (of_char (d ! 1)), s)"
  using schar_and_ff [of "d ! 1"] by (simp add: getSize_def FontParser_def exec and.commute)

lemma getColor_reads:
  "13 \<le> length d \<Longrightarrow> getColor (FontParser f d) s = Some (Ok (font_color d), s)"
  by (simp add: getColor_def font_color_def FontParser_def exec Let_def)

lemma getColor_run:
  assumes "13 \<le> length d"
    and "(of_char (d ! 10) :: int) < 128" "(of_char (d ! 11) :: int) < 128"
    and "(of_char (d ! 12) :: int) < 128"
  shows "getColor (FontParser f d) s = Some (Ok (CHR ''#'' # fmt_06x
    (2 ^ 16 * of_char (d ! 10) + 2 ^ 8 * of_char (d ! 11) + of_char (d ! 12))), s)"
proof -
  let ?r = "of_char (d ! 10) :: int" and ?g = "of_char (d ! 11) :: int"
    and ?b = "of_char (d ! 12) :: int"
  have "to_int32 (push_bit 8 ?r) OR ?g = 2 ^ 8 * ?r + ?g"
    using assms(2) of_char_bounds [of "d ! 10"] of_char_bounds [of "d ! 11"]
      or_push_bit [of ?g 8 ?r]
    by (simp add: to_int32_id cint_def push_bit_eq_mult)
  moreover have "to_int32 (push_bit 8 (2 ^ 8 * ?r + ?g)) OR ?b = 2 ^ 16 * ?r + 2 ^ 8 * ?g + ?b"
    using assms(2,3) of_char_bounds [of "d ! 10"] of_char_bounds [of "d ! 11"]
      of_char_bounds [of "d ! 12"] or_push_bit [of ?b 8 "2 ^ 8 * ?r + ?g"]
    by (simp add: to_int32_id cint_def push_bit_eq_mult)
  ultimately show ?thesis
    using assms
    by (simp add: getColor_def FontParser_def exec Let_def schar_nonneg del: push_bit_or)
qed

text \<open>Reading an attribute changes nothing.\<close>

lemma valid_font [pres_intro]:
  "valid P (isBold fp) (\<lambda>_. P) X" "valid P (isItalic fp) (\<lambda>_. P) X"
  "valid P (getSize fp) (\<lambda>_. P) X" "valid P (getColor fp) (\<lambda>_. P) X"
  by (auto simp: valid_def isBold_def isItalic_def getSize_def getColor_def Let_def str_at_def exec split: if_splits)

end
