(* ===== verification/ChatMessage.thy ===== *)
theory ChatMessage
  imports MessageBuffer FontParser
begin

text \<open>
  \<^verbatim>\<open>encode.cpp\<close>, \<^verbatim>\<open>escape_html_entities\<close> and \<^verbatim>\<open>RediffBolConn::_parseChatMessage\<close>:
  the body of a message, a sequence of text runs and smileys, turned into markup.
  \<^verbatim>\<open>iconv\<close> and GLib's and libpurple's markup functions are not part of the repository
  and are parameters.  The loop has no termination argument (a length on the wire may
  be negative), so it is a \<^theory_text>\<open>partial_function (option)\<close>.
\<close>

section \<open>What the code takes from iconv, GLib and libpurple\<close>

text \<open>
  \<open>tx_iconv to from a\<close>: the conversion of \<open>a\<close>, or \<open>None\<close> where \<^verbatim>\<open>iconv_open\<close>,
  \<^verbatim>\<open>iconv\<close> or \<^verbatim>\<open>iconv_close\<close> reports an error.  \<open>tx_escape\<close> is
  \<^verbatim>\<open>g_markup_escape_text\<close>, \<open>tx_unescape\<close> is \<^verbatim>\<open>purple_unescape_html\<close>.  \<open>tx_fonts\<close> says
  whether the plugin was built with \<^verbatim>\<open>REDIFFBOL_ENABLE_INCOMING_FONT_SUPPORT\<close>.
\<close>

record text_env =
  tx_iconv :: "string \<Rightarrow> string \<Rightarrow> string \<Rightarrow> string option"
  tx_escape :: "string \<Rightarrow> string"
  tx_unescape :: "string \<Rightarrow> string"
  tx_fonts :: bool

text \<open>
  The output buffer has five bytes per input byte, of which all but one are offered
  to \<^verbatim>\<open>iconv\<close>; a result that does not fit makes it fail, which the code asserts away.
  For an empty input the buffer is empty and its size is not limited.
\<close>

definition encode :: "'e text_env_scheme \<Rightarrow> string \<Rightarrow> string \<Rightarrow> string \<Rightarrow> ('s, string) M" where
  "encode E a from to =
     (case tx_iconv E to from a of
        None \<Rightarrow> raise AssertFail
      | Some out \<Rightarrow>
          if a = [] then (if out = [] then ret [] else raise (Undef OutOfBounds))
          else if length out \<le> 5 * length a - 1 then ret out
          else raise AssertFail)"

definition encode_from_iso :: "'e text_env_scheme \<Rightarrow> string \<Rightarrow> string \<Rightarrow> ('s, string) M" where
  "encode_from_iso E a to = encode E a ''UTF-8'' to"

definition escape_html_entities :: "'e text_env_scheme \<Rightarrow> string \<Rightarrow> string" where
  "escape_html_entities E text = c_str (tx_escape E text)"

section \<open>The parser\<close>

definition smiley_codes :: "string list" where
  "smiley_codes =
     [''0:-)'', ''>:-('', ''(B)'', '':s'', '':`('',
      ''>:|'', ''(D)'', '':-$'', ''8-|'', ''#:)'',
      '':^)'', '':D'', '':-('', ''^o)'', '':(('',
      '':-z'', '':-)'', '':-O'', CHR 0x5C # '':)'', '':p'',
      '';-)'']"

text \<open>
  \<^verbatim>\<open>double(n)/8\<close> written to a stream: for an \<open>n\<close> of one byte there are at most two digits
  before the point and three behind it, so none is rounded away.
\<close>

definition fmt_eighths :: "int \<Rightarrow> string" where
  "fmt_eighths n = dec_of_int (n div 8)
     @ [[], ''.125'', ''.25'', ''.375'', ''.5'', ''.625'', ''.75'', ''.875''] ! nat (n mod 8)"

definition apostrophe :: string where
  "apostrophe = [CHR 0x27]"

definition font_tag :: "string \<Rightarrow> int \<Rightarrow> string \<Rightarrow> string" where
  "font_tag font sz color =
     ''<font face='' @ apostrophe @ font @ apostrophe @ '' size='' @ apostrophe @ fmt_eighths sz
       @ apostrophe @ '' color='' @ apostrophe @ color @ apostrophe @ '' >''"

text \<open>The opening tag, where the font support is compiled in.\<close>

definition open_font :: "'e text_env_scheme \<Rightarrow> string \<Rightarrow> fontparser \<Rightarrow> (msgbuf, string) M" where
  "open_font E font fp =
     (if tx_fonts E then
        bindM (getSize fp) (\<lambda>sz.
        bindM (getColor fp) (\<lambda>color.
        ret (font_tag font sz color)))
      else ret [])"

text \<open>The markup of one run.\<close>

definition text_item :: "'e text_env_scheme \<Rightarrow> string \<Rightarrow> (msgbuf, string) M" where
  "text_item E acc =
     bindM readLEInt (\<lambda>fontstrlen.
     bindM (readStringn fontstrlen) (\<lambda>font.
     bindM (readStringn 13) (\<lambda>fontinfo.
     bindM readLEInt (\<lambda>messagelen.
     bindM (readStringn messagelen) (\<lambda>message.
     bindM (encode E message ''UTF-16BE'' ''UTF-8'') (\<lambda>message.
     bindM (encode E font ''UTF-16BE'' ''UTF-8'') (\<lambda>font.
     let message = escape_html_entities E message; fp = FontParser font fontinfo in
     bindM (open_font E font fp) (\<lambda>tag.
     bindM (isItalic fp) (\<lambda>it1.
     bindM (isBold fp) (\<lambda>b1.
     bindM (isBold fp) (\<lambda>b2.
     bindM (isItalic fp) (\<lambda>it2.
     ret (acc @ tag @ (if it1 then ''<em>'' else []) @ (if b1 then ''<b>'' else []) @ message
            @ (if b2 then ''</b>'' else []) @ (if it2 then ''</em>'' else [])
            @ (if tx_fonts E then ''</font>'' else []))))))))))))))"

definition smiley_item :: "string \<Rightarrow> (msgbuf, string) M" where
  "smiley_item acc =
     bindM readLEInt (\<lambda>smileycode.
     bindM readLEInt (\<lambda>smileylen.
     bindM (readStringn smileylen) (\<lambda>smiley.
     if smileycode < int (length smiley_codes)
     then (if smileycode < 0 then raise (Undef OutOfBounds)
           else ret (acc @ smiley_codes ! nat smileycode))
     else ret acc)))"

definition chat_item :: "'e text_env_scheme \<Rightarrow> string \<Rightarrow> (msgbuf, string) M" where
  "chat_item E acc =
     bindM readLEInt (\<lambda>len.
     if len = 0 then text_item E acc
     else if len = 1 then smiley_item acc
     else ret acc)"

partial_function (option) chat_loop ::
  "'e text_env_scheme \<Rightarrow> string \<Rightarrow> msgbuf \<Rightarrow> (string outcome \<times> msgbuf) option" where
  "chat_loop E acc b =
     bindM isEnd (\<lambda>e.
       if e then ret acc else bindM (chat_item E acc) (\<lambda>acc'. (\<lambda>b'. chat_loop E acc' b'))) b"

definition parseChatMessage :: "'e text_env_scheme \<Rightarrow> (msgbuf, string) M" where
  "parseChatMessage E = chat_loop E []"

section \<open>Big-endian lengths\<close>

definition put_be :: "int \<Rightarrow> string" where
  "put_be i = rev (intToDWord i)"

text \<open>The numbers \<^verbatim>\<open>readLEInt\<close> reads back: those none of whose bytes is 128 or more.\<close>

definition be_ok :: "int \<Rightarrow> bool" where
  "be_ok i \<longleftrightarrow> 0 \<le> i \<and> i < 2 ^ 31 \<and> list_all (\<lambda>c. (of_char c :: int) < 128) (intToDWord i)"

definition put_bstring :: "string \<Rightarrow> string" where
  "put_bstring s = put_be (int (length s)) @ s"

definition bstr_ok :: "string \<Rightarrow> bool" where
  "bstr_ok s \<longleftrightarrow> be_ok (int (length s))"

lemma length_put_be [simp]: "length (put_be i) = 4"
  by (simp add: put_be_def)

lemma length_put_bstring [simp]: "length (put_bstring s) = length s + 4"
  by (simp add: put_bstring_def)

lemma be_value_intToDWord:
  assumes "intToDWord i = [d, c, b, a]" and "0 \<le> i" and "i < 2 ^ 31"
  shows "be_value a b c d = i"
proof -
  have "cint i" using assms(2,3) by (simp add: cint_def)
  then have i: "int32_of_mem [d, c, b, a] = i"
    using int32_of_mem_write_int [of i] assms(1) by simp
  have "be_value a b c d = horner_sum of_char 256 [d, c, b, a]"
    by (simp add: be_value_def algebra_simps)
  moreover have "horner_sum of_char 256 [d, c, b, a] = take_bit 32 i"
    using horner_sum_intToDWord [of i] assms(1) by simp
  ultimately show ?thesis
    using assms(2,3) by (simp add: take_bit_int_eq_self)
qed

lemma be_ok_cint: "be_ok i \<Longrightarrow> cint i"
  by (simp add: be_ok_def cint_def)

interpretation be_codec: codec put_be readLEInt be_ok
proof
  fix b :: msgbuf and i :: int and r
  assume wf: "mb_wf b" and ok: "be_ok i" and front: "rest b = put_be i @ r"
  obtain c3 c2 c1 c0 where w: "intToDWord i = [c3, c2, c1, c0]"
    by (simp add: intToDWord_def)
  have "bytesToLEInt c0 c1 c2 c3 = i"
    using ok be_value_intToDWord [OF w] by (simp add: be_ok_def w bytesToLEInt_big_endian)
  moreover have "rest b = [c0, c1, c2, c3] @ r" using front w by (simp add: put_be_def)
  ultimately show "readLEInt b = Some (Ok i, mb_adv (int (length (put_be i))) b)"
    using readLEInt_run [OF wf] by simp
qed

interpretation bstr_codec: codec put_bstring "bindM readLEInt readStringn" bstr_ok
proof
  fix b :: msgbuf and s r :: string
  assume wf: "mb_wf b" and ok: "bstr_ok s" and front: "rest b = put_bstring s @ r"
  have f: "rest b = put_be (int (length s)) @ (s @ r)"
    using front by (simp add: put_bstring_def)
  have k: "be_ok (int (length s))" using ok by (simp add: bstr_ok_def)
  note len = be_codec.get_then [OF wf k f]
  show "bindM readLEInt readStringn b = Some (Ok s, mb_adv (int (length (put_bstring s))) b)"
    using len(2,3) be_ok_cint [OF k]
    by (simp add: len(1) readStringn_run add.commute)
qed

section \<open>What a message means\<close>

datatype chat_part =
    TextPart (part_font: string) (part_info: string) (part_text: string)
  | SmileyPart (part_code: int) (part_name: string)

fun put_part :: "chat_part \<Rightarrow> string" where
  "put_part (TextPart font info msg) = put_be 0 @ put_bstring font @ info @ put_bstring msg"
| "put_part (SmileyPart code name) = put_be 1 @ put_be code @ put_bstring name"

text \<open>The UTF-8 of a UTF-16 string, where \<^verbatim>\<open>encode\<close> gives one.\<close>

definition utf8_ok :: "'e text_env_scheme \<Rightarrow> string \<Rightarrow> bool" where
  "utf8_ok E s \<longleftrightarrow> (case tx_iconv E ''UTF-8'' ''UTF-16BE'' s of
     None \<Rightarrow> False | Some out \<Rightarrow> length out \<le> 5 * length s - 1)"

definition utf8 :: "'e text_env_scheme \<Rightarrow> string \<Rightarrow> string" where
  "utf8 E s = (case tx_iconv E ''UTF-8'' ''UTF-16BE'' s of None \<Rightarrow> [] | Some out \<Rightarrow> out)"

fun part_ok :: "'e text_env_scheme \<Rightarrow> chat_part \<Rightarrow> bool" where
  "part_ok E (TextPart font info msg) \<longleftrightarrow>
     bstr_ok font \<and> length info = 13 \<and> bstr_ok msg \<and> utf8_ok E font \<and> utf8_ok E msg"
| "part_ok E (SmileyPart code name) \<longleftrightarrow> be_ok code \<and> bstr_ok name"

definition style :: "string \<Rightarrow> string \<Rightarrow> string" where
  "style info txt =
     (if font_italic info then ''<em>'' else []) @ (if font_bold info then ''<b>'' else []) @ txt
       @ (if font_bold info then ''</b>'' else []) @ (if font_italic info then ''</em>'' else [])"

definition font_markup :: "'e text_env_scheme \<Rightarrow> string \<Rightarrow> string \<Rightarrow> string \<Rightarrow> string" where
  "font_markup E font info txt =
     (if tx_fonts E
      then font_tag (utf8 E font) (of_char (info ! 1)) (font_color info) @ txt @ ''</font>''
      else txt)"

fun render :: "'e text_env_scheme \<Rightarrow> chat_part \<Rightarrow> string" where
  "render E (TextPart font info msg) =
     font_markup E font info (style info (escape_html_entities E (utf8 E msg)))"
| "render E (SmileyPart code name) =
     (if code < int (length smiley_codes) then smiley_codes ! nat code else [])"

lemma encode_utf8:
  "utf8_ok E s \<Longrightarrow> encode E s ''UTF-16BE'' ''UTF-8'' st = Some (Ok (utf8 E s), st)"
  by (auto simp: utf8_ok_def utf8_def encode_def exec split: option.splits)

lemma encode_then:
  "utf8_ok E s \<Longrightarrow> bindM (encode E s ''UTF-16BE'' ''UTF-8'') f st = f (utf8 E s) st"
  by (rule bindM_OkI) (rule encode_utf8)

lemma isBold_then: "length d = 13 \<Longrightarrow> bindM (isBold (FontParser f d)) g s = g (font_bold d) s"
  by (rule bindM_OkI) (rule isBold_run, simp)

lemma isItalic_then: "length d = 13 \<Longrightarrow> bindM (isItalic (FontParser f d)) g s = g (font_italic d) s"
  by (rule bindM_OkI) (rule isItalic_run, simp)

lemma open_font_then:
  "length d = 13 \<Longrightarrow> bindM (open_font E x (FontParser f d)) g s
     = g (if tx_fonts E then font_tag x (of_char (d ! 1)) (font_color d) else []) s"
  by (rule bindM_OkI) (simp add: open_font_def exec getSize_run getColor_reads)

lemma text_item_run:
  assumes wf: "mb_wf b" and ok: "part_ok E (TextPart font info msg)"
    and front: "rest b = put_bstring font @ info @ put_bstring msg @ r"
  shows "text_item E acc b = Some (Ok (acc @ render E (TextPart font info msg)),
    mb_adv (int (length (put_bstring font @ info @ put_bstring msg))) b)"
proof -
  let ?b1 = "mb_adv (int (length (put_bstring font))) b"
  have of: "bstr_ok font" and om: "bstr_ok msg" and info: "length info = 13"
    and uf: "utf8_ok E font" and um: "utf8_ok E msg" using ok by simp_all
  note f = bstr_codec.get_then [OF wf of front]
  let ?b2 = "mb_adv 13 ?b1"
  have i: "bindM (readStringn 13) g ?b1 = g info ?b2" for g :: "string \<Rightarrow> (msgbuf, string) M"
    by (rule bindM_OkI) (use f(2,3) info in \<open>simp add: readStringn_run cint_def\<close>)
  have b2: "mb_wf ?b2" "rest ?b2 = put_bstring msg @ r"
    using f(2,3) info mb_wf_adv_append [of ?b1 info] rest_adv_append [of ?b1 info] by simp_all
  note m = bstr_codec.get_then [OF b2(1) om b2(2)]
  have "text_item E acc b = bindM (bindM readLEInt readStringn) (\<lambda>font.
     bindM (readStringn 13) (\<lambda>info.
     bindM (bindM readLEInt readStringn) (\<lambda>msg.
     bindM (encode E msg ''UTF-16BE'' ''UTF-8'') (\<lambda>message.
     bindM (encode E font ''UTF-16BE'' ''UTF-8'') (\<lambda>font.
     let message = escape_html_entities E message; fp = FontParser font info in
     bindM (open_font E font fp) (\<lambda>tag.
     bindM (isItalic fp) (\<lambda>it1. bindM (isBold fp) (\<lambda>b1.
     bindM (isBold fp) (\<lambda>b2. bindM (isItalic fp) (\<lambda>it2.
     ret (acc @ tag @ (if it1 then ''<em>'' else []) @ (if b1 then ''<b>'' else []) @ message
            @ (if b2 then ''</b>'' else []) @ (if it2 then ''</em>'' else [])
            @ (if tx_fonts E then ''</font>'' else [])))))))))))) b"
    by (simp only: text_item_def bindM_assoc)
  then show ?thesis
    by (simp only: f(1) i m(1) encode_then [OF um] encode_then [OF uf] Let_def
        open_font_then [OF info] isBold_then [OF info] isItalic_then [OF info])
      (simp add: info prim style_def font_markup_def algebra_simps)
qed

lemma smiley_item_run:
  assumes wf: "mb_wf b" and ok: "part_ok E (SmileyPart code name)"
    and front: "rest b = put_be code @ put_bstring name @ r"
  shows "smiley_item acc b = Some (Ok (acc @ render E (SmileyPart code name)),
    mb_adv (int (length (put_be code @ put_bstring name))) b)"
proof -
  have oc: "be_ok code" and on: "bstr_ok name" using ok by simp_all
  note c = be_codec.get_then [OF wf oc front]
  note n = bstr_codec.get_then [OF c(2) on c(3)]
  have "smiley_item acc b = bindM readLEInt (\<lambda>code.
     bindM (bindM readLEInt readStringn) (\<lambda>name.
     if code < int (length smiley_codes)
     then (if code < 0 then raise (Undef OutOfBounds)
           else ret (acc @ smiley_codes ! nat code))
     else ret acc)) b"
    by (simp only: smiley_item_def bindM_assoc)
  then show ?thesis
    by (simp only: c(1) n(1)) (use oc in \<open>simp add: prim be_ok_def algebra_simps\<close>)
qed

lemma be_ok_0_1 [simp]: "be_ok 0" "be_ok 1"
  by (simp_all add: be_ok_def intToDWord_def)

lemma chat_item_run:
  assumes wf: "mb_wf b" and ok: "part_ok E p" and front: "rest b = put_part p @ r"
  shows "chat_item E acc b = Some (Ok (acc @ render E p), mb_adv (int (length (put_part p))) b)"
proof (cases p)
  case (TextPart font info msg)
  then have f: "rest b = put_be 0 @ (put_bstring font @ info @ put_bstring msg @ r)"
    using front by simp
  note t = be_codec.get_then [OF wf be_ok_0_1(1) f]
  show ?thesis
    using text_item_run [OF t(2) _ t(3), of E acc] ok TextPart
    by (simp add: chat_item_def t(1) algebra_simps)
next
  case (SmileyPart code name)
  then have f: "rest b = put_be 1 @ (put_be code @ put_bstring name @ r)"
    using front by simp
  note t = be_codec.get_then [OF wf be_ok_0_1(2) f]
  show ?thesis
    using smiley_item_run [OF t(2) _ t(3), of E acc] ok SmileyPart
    by (simp add: chat_item_def t(1) algebra_simps)
qed

subsection \<open>The loop\<close>

lemma chat_loop_end: "mb_wf b \<Longrightarrow> rest b = [] \<Longrightarrow> chat_loop E acc b = Some (Ok acc, b)"
  by (subst chat_loop.simps) (simp add: exec isEnd_run)

lemma chat_loop_step:
  "mb_wf b \<Longrightarrow> rest b \<noteq> [] \<Longrightarrow>
     chat_loop E acc b = bindM (chat_item E acc) (chat_loop E) b"
  by (subst chat_loop.simps) (simp add: bindM_OkI [OF isEnd_run])

lemma put_part_not_Nil: "put_part p \<noteq> []"
proof
  assume "put_part p = []"
  then have "length (put_part p) = 0" by simp
  then show False by (cases p) simp_all
qed

lemma chat_loop_parts:
  assumes "mb_wf b" and "list_all (part_ok E) ps" and "rest b = concat (map put_part ps)"
  shows "chat_loop E acc b = Some (Ok (acc @ concat (map (render E) ps)),
    mb_adv (int (length (concat (map put_part ps)))) b)"
  using assms
proof (induction ps arbitrary: b acc)
  case Nil
  then show ?case by (simp add: chat_loop_end)
next
  case (Cons p ps)
  let ?b = "mb_adv (int (length (put_part p))) b"
  have front: "rest b = put_part p @ concat (map put_part ps)" using Cons.prems(3) by simp
  have "chat_loop E acc b = bindM (chat_item E acc) (chat_loop E) b"
    using front put_part_not_Nil by (intro chat_loop_step Cons.prems(1)) simp
  also have "\<dots> = chat_loop E (acc @ render E p) ?b"
    using Cons.prems(2) by (intro bindM_OkI chat_item_run [OF Cons.prems(1) _ front]) simp
  also have "\<dots> = Some (Ok ((acc @ render E p) @ concat (map (render E) ps)),
      mb_adv (int (length (concat (map put_part ps)))) ?b)"
    using Cons.prems mb_wf_adv_append [OF Cons.prems(1) front]
      rest_adv_append [OF Cons.prems(1) front]
    by (intro Cons.IH) simp_all
  finally show ?case by simp
qed

section \<open>Termination\<close>

text \<open>
  When no byte of the message is 128 or more, no length is negative and every round
  of the loop consumes at least four bytes.
\<close>

definition low :: "nat \<Rightarrow> msgbuf \<Rightarrow> bool" where
  "low n b \<longleftrightarrow> mb_wf b \<and> length (rest b) \<le> n \<and> list_all (\<lambda>c. (of_char c :: int) < 128) (rest b)"

lemma low_adv: "low n b \<Longrightarrow> 0 \<le> k \<Longrightarrow> k \<le> int (length (rest b)) \<Longrightarrow> low (n - nat k) (mb_adv k b)"
  by (auto simp: low_def mb_wf_adv rest_adv list_all_iff dest: in_set_dropD)

lemma low_mono: "low m b \<Longrightarrow> m \<le> n \<Longrightarrow> low n b"
  by (simp add: low_def)

lemma valid_readLEInt_low:
  "valid (low n) readLEInt (\<lambda>v b. low (n - 4) b \<and> 4 \<le> n \<and> 0 \<le> v \<and> cint v) (\<lambda>_. True)"
proof (rule validI)
  fix b v b'
  assume low: "low n b" and run: "readLEInt b = Some (Ok v, b')"
  have wf: "mb_wf b" using low by (simp add: low_def)
  have len: "4 \<le> length (rest b)"
    using readLEInt_short [OF wf] run by (cases "length (rest b) < 4") auto
  then obtain c0 c1 c2 c3 r where front: "rest b = [c0, c1, c2, c3] @ r"
    by (auto simp: numeral_eq_Suc Suc_le_length_iff)
  have v: "v = be_value c0 c1 c2 c3" and b': "b' = mb_adv 4 b"
    using run low by (simp_all add: readLEInt_run [OF wf front] low_def front
        bytesToLEInt_big_endian)
  have "0 \<le> v \<and> cint v"
    using low of_char_bounds [of c0] of_char_bounds [of c1] of_char_bounds [of c2]
      of_char_bounds [of c3]
    by (auto simp: v be_value_def cint_def low_def front)
  moreover have "low (n - 4) b'" using low_adv [OF low, of 4] len b' by simp
  moreover have "4 \<le> n" using low len by (simp add: low_def)
  ultimately show "low (n - 4) b' \<and> 4 \<le> n \<and> 0 \<le> v \<and> cint v" by blast
qed simp

lemma valid_readStringn_low:
  "0 \<le> k \<Longrightarrow> cint k \<Longrightarrow> valid (low n) (readStringn k) (\<lambda>_. low n) (\<lambda>_. True)"
  by (rule validI)
    (auto simp: low_def readStringn_run mb_wf_adv rest_adv list_all_iff split: if_splits
      dest: in_set_dropD)

lemma valid_encode [pres_intro]: "valid P (encode E a from to) (\<lambda>_. P) X"
  by (auto simp: valid_def encode_def exec split: option.splits if_splits)

lemma valid_open_font [pres_intro]: "valid P (open_font E f fp) (\<lambda>_. P) X"
  unfolding open_font_def by (simp add: valid_bindM [OF valid_font(3)] valid_bindM [OF valid_font(4)] valid_ret)

lemma valid_length_low:
  assumes "\<And>v. 0 \<le> v \<Longrightarrow> cint v \<Longrightarrow> valid (low n) (f v) Q (\<lambda>_. True)"
  shows "valid (low n) (bindM readLEInt f) Q (\<lambda>_. True)"
proof (rule valid_bindM)
  show "valid (low n) readLEInt (\<lambda>v b. low n b \<and> (0 \<le> v \<and> cint v)) (\<lambda>_. True)"
    by (rule valid_weaken [OF valid_readLEInt_low]) (auto intro: low_mono)
  show "valid (\<lambda>b. low n b \<and> (0 \<le> v \<and> cint v)) (f v) Q (\<lambda>_. True)" for v
    by (rule valid_conj) (simp add: assms)
qed

lemma valid_text_item_low: "valid (low n) (text_item E acc) (\<lambda>_. low n) (\<lambda>_. True)"
  unfolding text_item_def Let_def
  by (rule valid_length_low valid_bindM valid_readStringn_low valid_encode valid_open_font valid_font
      | simp add: cint_def valid_ret)+

lemma valid_smiley_item_low: "valid (low n) (smiley_item acc) (\<lambda>_. low n) (\<lambda>_. True)"
  unfolding smiley_item_def
  by (rule valid_length_low valid_bindM valid_readStringn_low
      | simp add: valid_raise valid_ret)+

lemma valid_chat_item_low:
  "valid (low n) (chat_item E acc) (\<lambda>_ b. low (n - 4) b \<and> 4 \<le> n) (\<lambda>_. True)"
  unfolding chat_item_def
proof (rule valid_bindM [OF valid_readLEInt_low])
  fix len :: int
  have "valid (low m) (if len = 0 then text_item E acc
      else if len = 1 then smiley_item acc else ret acc) (\<lambda>_. low m) (\<lambda>_. True)" for m
    by (simp add: valid_text_item_low valid_smiley_item_low valid_ret)
  from this [of "n - 4"]
  show "valid (\<lambda>b. low (n - 4) b \<and> 4 \<le> n \<and> 0 \<le> len \<and> cint len)
    (if len = 0 then text_item E acc else if len = 1 then smiley_item acc else ret acc)
    (\<lambda>_ b. low (n - 4) b \<and> 4 \<le> n) (\<lambda>_. True)"
    by (auto simp: valid_def split: outcome.splits)
qed

lemma total_encode [total_intro]: "total (encode E a from to)"
  by (simp add: encode_def total_intro)

lemma total_chat_item: "total (chat_item E acc)"
  by (auto simp: chat_item_def text_item_def open_font_def smiley_item_def Let_def
      intro!: total_intro)

lemma chat_loop_terminates: "low n b \<Longrightarrow> chat_loop E acc b \<noteq> None"
proof (induction n arbitrary: b acc rule: less_induct)
  case (less n)
  have wf: "mb_wf b" using less.prems by (simp add: low_def)
  show ?case
  proof (cases "rest b = []")
    case True
    then show ?thesis by (simp add: chat_loop_end wf)
  next
    case False
    obtain r b' where item: "chat_item E acc b = Some (r, b')"
      using totalD [OF total_chat_item] by blast
    show ?thesis
    proof (cases r)
      case (Ok acc')
      then have "low (n - 4) b' \<and> 4 \<le> n"
        using validD_Ok [OF valid_chat_item_low less.prems] item by blast
      then have "chat_loop E acc' b' \<noteq> None" by (intro less.IH [of "n - 4"]) simp_all
      then show ?thesis
        using item Ok by (simp add: chat_loop_step wf False exec)
    next
      case (Throw e)
      then show ?thesis using item by (simp add: chat_loop_step wf False exec)
    qed
  qed
qed

text \<open>
  Otherwise it may not: a smiley whose name has length \<open>-12\<close> moves the position back
  to where the smiley began.
\<close>

definition hang_message :: string where
  "hang_message =
     [CHR 0x00, CHR 0x00, CHR 0x00, CHR 0x01,
      CHR 0x00, CHR 0x00, CHR 0x00, CHR 0x00,
      CHR 0x00, CHR 0x00, CHR 0x00, CHR 0xF4]"

lemma hang_message_wf: "mb_wf (MessageBuffer hang_message)"
  by (rule mb_wf_new) (simp add: hang_message_def)

lemma hang_message_not_Nil: "hang_message \<noteq> []"
  by (simp add: hang_message_def)

lemma chat_item_hang:
  "chat_item E acc (MessageBuffer hang_message)
    = Some (Ok (acc @ ''0:-)''), MessageBuffer hang_message)"
proof -
  let ?z = "CHR 0x00"
  let ?b = "MessageBuffer hang_message"
  have wf: "mb_wf ?b" by (rule mb_wf_new) (simp add: hang_message_def)
  have r0: "rest ?b = [?z, ?z, ?z, CHR 0x01] @ ([?z, ?z, ?z, ?z] @ [?z, ?z, ?z, CHR 0xF4])"
    by (simp add: hang_message_def)
  note wf1 = mb_wf_adv_append [OF wf r0] and r1 = rest_adv_append [OF wf r0]
  note wf2 = mb_wf_adv_append [OF wf1 r1] and r2 = rest_adv_append [OF wf1 r1]
  have r2': "rest (mb_adv 8 ?b) = [?z, ?z, ?z, CHR 0xF4] @ []" using r2 by simp
  have wf2': "mb_wf (mb_adv 8 ?b)" using wf2 by simp
  note wf3 = mb_wf_adv_append [OF wf2' r2'] and r3 = rest_adv_append [OF wf2' r2']
  have v: "bytesToLEInt ?z ?z ?z (CHR 0x01) = 1" "bytesToLEInt ?z ?z ?z ?z = 0"
    "bytesToLEInt ?z ?z ?z (CHR 0xF4) = -12"
    by (simp_all add: bytesToLEInt_big_endian be_value_def bytesToLEInt_negative)
  have "readStringn (-12) (mb_adv 12 ?b) = Some (Ok [], ?b)"
    using wf3 r3 by (simp add: readStringn_run cint_def)
  then show ?thesis
    using readLEInt_run [OF wf r0] readLEInt_run [OF wf1 r1] readLEInt_run [OF wf2' r2']
    by (simp add: chat_item_def smiley_item_def v exec smiley_codes_def)
qed

lemma chat_loop_hangs: "chat_loop E acc (MessageBuffer hang_message) = None"
proof (rule ccontr)
  assume "chat_loop E acc (MessageBuffer hang_message) \<noteq> None"
  then obtain res where "chat_loop E acc (MessageBuffer hang_message) = Some res" by blast
  then have "MessageBuffer hang_message \<noteq> MessageBuffer hang_message"
  proof (rule chat_loop.raw_induct [where P = "\<lambda>E acc b r. b \<noteq> MessageBuffer hang_message",
        rotated])
    fix f :: "'a text_env_scheme \<Rightarrow> string \<Rightarrow> msgbuf \<Rightarrow> (string outcome \<times> msgbuf) option"
    fix E acc b r
    assume IH: "\<And>E acc b r. f E acc b = Some r \<Longrightarrow> b \<noteq> MessageBuffer hang_message"
      and run: "bindM isEnd (\<lambda>e. if e then ret acc
        else bindM (chat_item E acc) (\<lambda>acc'. (\<lambda>b'. f E acc' b'))) b = Some r"
    show "b \<noteq> MessageBuffer hang_message"
    proof
      assume b: "b = MessageBuffer hang_message"
      then have "f E (acc @ ''0:-)'') (MessageBuffer hang_message) = Some r"
        using run
        by (simp add: isEnd_run hang_message_wf hang_message_not_Nil chat_item_hang exec)
      then show False using IH by blast
    qed
  qed
  then show False by simp
qed

end
