(* ===== verification/Requests.thy ===== *)
theory Requests
  imports ChatMessage
begin

text \<open>
  The packets the client sends: the constants of \<^verbatim>\<open>request.h\<close> and, for each sending
  function of \<^verbatim>\<open>rediffbol.cpp\<close> and \<^verbatim>\<open>rediffbol_chatroom.cpp\<close>, the bytes it writes,
  with every length computed by the code's own arithmetic.  \<open>write_int\<close> and
  \<open>intToDWord\<close> keep the low 32 bits, so a sum of lengths needs no further wrapping.
  The specification is a structured layout in which no length is written by hand; all
  packets but one are proved equal to theirs.
\<close>

section \<open>request.h and rediffbol.h\<close>

definition GKRequestHeader :: string where "GKRequestHeader = ''Gatekeeper2''"
definition GKCmdGetLoginServers :: string where "GKCmdGetLoginServers = ''GetLoginServers''"
definition CSRequestHeader :: string where "CSRequestHeader = ''Server1.2''"
definition CSCmdSignIn :: string where "CSCmdSignIn = ''SignIn''"
definition CSCmdGetOfflineMsgs :: string where "CSCmdGetOfflineMsgs = ''GetOfflineMsgs''"
definition CSCmdSetOnlineStatus :: string where "CSCmdSetOnlineStatus = ''SetOnlineStatus''"
definition CSCmdTextMessage :: string where "CSCmdTextMessage = ''TextMessage''"
definition CSPeerRequestHeader :: string where "CSPeerRequestHeader = ''ClientPeer1.2''"
definition CSCmdGetChatRooms :: string where "CSCmdGetChatRooms = ''GetChatRoomsRequest''"
definition CSCmdKeepAlive :: string where "CSCmdKeepAlive = ''KeepAlive''"
definition CSCmdDelOfflineMsg :: string where "CSCmdDelOfflineMsg = ''DelOfflineMsg''"
definition CSCmdGetAddRequests :: string where "CSCmdGetAddRequests = ''GetAddRequests''"
definition CSCmdAcceptAdd2 :: string where "CSCmdAcceptAdd2 = ''AcceptAdd2''"
definition CSCmdDelAddRequest :: string where "CSCmdDelAddRequest = ''DelAddRequest''"
definition CSCmdDelContact :: string where "CSCmdDelContact = ''DelContact2''"
definition CSCmdAddGroup :: string where "CSCmdAddGroup = ''AddGroup''"
definition CSCmdRemoveGroup :: string where "CSCmdRemoveGroup = ''RemoveGroup''"
definition CSCmdMoveContact :: string where "CSCmdMoveContact = ''MoveContactBetweenGroups''"
definition CSCmdAddContact :: string where "CSCmdAddContact = ''AddContact2''"
definition CSCmdTypingNotify :: string where "CSCmdTypingNotify = ''TypingNotify''"

definition CAP_DIR :: string where "CAP_DIR = ''RBOL/1.2.5''"
definition CAP_HTTP_CONNECT :: string where "CAP_HTTP_CONNECT = ''RBOL/1.2.5+HTTP_CONNECT''"
definition CAP_HTTP :: string where "CAP_HTTP = ''RBOL/1.2.5+HTTP''"
definition DEFAULT_USERAGENT :: string where
  "DEFAULT_USERAGENT = ''Rediff Bol8.0  build 315''"

lemmas command_names =
  GKRequestHeader_def GKCmdGetLoginServers_def CSRequestHeader_def CSCmdSignIn_def
  CSCmdGetOfflineMsgs_def CSCmdSetOnlineStatus_def CSCmdTextMessage_def
  CSPeerRequestHeader_def CSCmdGetChatRooms_def CSCmdKeepAlive_def CSCmdDelOfflineMsg_def
  CSCmdGetAddRequests_def CSCmdAcceptAdd2_def CSCmdDelAddRequest_def CSCmdDelContact_def
  CSCmdAddGroup_def CSCmdRemoveGroup_def CSCmdMoveContact_def CSCmdAddContact_def
  CSCmdTypingNotify_def CAP_DIR_def CAP_HTTP_CONNECT_def CAP_HTTP_def

definition fixEmail :: "string \<Rightarrow> string" where
  "fixEmail original =
     (if CHR ''@'' \<notin> set original then original @ ''@rediffmail.com'' else original)"

abbreviation len :: "string \<Rightarrow> int" where
  "len s \<equiv> int (length s)"

section \<open>The packets\<close>

definition connectToGK_packet :: "string \<Rightarrow> string" where
  "connectToGK_packet userAgent =
     (let capsize = len CAP_DIR + len CAP_HTTP_CONNECT + len CAP_HTTP;
          uasize = len userAgent;
          size = capsize + uasize + 32 + len GKRequestHeader + len GKCmdGetLoginServers + 4 * 3
      in write_int (size - 4) @ write_int 0 @ write_int 0
         @ write_int (len GKRequestHeader) @ GKRequestHeader
         @ write_int (len GKCmdGetLoginServers) @ GKCmdGetLoginServers
         @ write_int (capsize + 3 * 4 + uasize + 8)
         @ write_int uasize @ userAgent
         @ write_int 3
         @ write_int (len CAP_DIR) @ CAP_DIR
         @ write_int (len CAP_HTTP_CONNECT) @ CAP_HTTP_CONNECT
         @ write_int (len CAP_HTTP) @ CAP_HTTP)"

definition signin_magic :: string where
  "signin_magic = map char_of [0, 0, 0, 0, 0, 0, 3, 0, 0, 0, 33, 31, 35 :: nat]"

definition connectToCS_packet :: "string \<Rightarrow> string \<Rightarrow> string" where
  "connectToCS_packet name pass =
     (let credsize = len name + len pass;
          size = 58 + credsize + len CSRequestHeader + len CSCmdSignIn
      in write_int (size - 4) @ write_int 0 @ write_int 0
         @ write_int (len CSRequestHeader) @ CSRequestHeader
         @ write_int (len CSCmdSignIn) @ CSCmdSignIn
         @ write_int (credsize + 34)
         @ write_int (len name) @ name
         @ write_int (len pass) @ pass
         @ signin_magic
         @ write_int 9 @ ''Winver:48'')"

definition fontBytes :: string where
  "fontBytes = map char_of [0x00, 0x78, 0xff, 0xff, 0x05, 0x01, 0x00, 0x32, 0x00,
     0x49, 0x33, 0x33, 0x33, 0x00, 0x00 :: nat]"

text \<open>\<open>sendMessage\<close>, with the font name and the message already in UTF-16.\<close>

definition sendMessage_packet :: "string \<Rightarrow> string \<Rightarrow> string \<Rightarrow> string \<Rightarrow> string" where
  "sendMessage_packet sender to fonttype message =
     (let msgsize = len message; sendersize = len sender; recipientsize = len to;
          fontstrsize = len fonttype;
          size = 57 + msgsize + sendersize + recipientsize + len CSCmdTextMessage
                 + len CSPeerRequestHeader + fontstrsize
      in write_int (size - 4) @ write_int 3
         @ write_int (len CSPeerRequestHeader) @ CSPeerRequestHeader
         @ write_int (len CSCmdTextMessage) @ CSCmdTextMessage
         @ write_int (37 + sendersize + recipientsize + msgsize + fontstrsize)
         @ write_int (len sender) @ sender
         @ write_int (len to) @ to
         @ write_int (25 + fontstrsize + msgsize)
         @ write_int 0 @ write_short 0
         @ intToSWord (len fonttype) @ fonttype
         @ fontBytes
         @ intToSWord (len message) @ message)"

definition sendKeepAlive_packet :: "int \<Rightarrow> string" where
  "sendKeepAlive_packet counter =
     (let size = 24 + len CSRequestHeader + len CSCmdKeepAlive
      in write_int (size - 4) @ write_int 0 @ write_int counter
         @ write_int (len CSRequestHeader) @ CSRequestHeader
         @ write_int (len CSCmdKeepAlive) @ CSCmdKeepAlive
         @ write_int 0)"

definition sendOfflineMessagesRequest_packet :: string where
  "sendOfflineMessagesRequest_packet =
     (let totalsize = 24 + len CSRequestHeader + len CSCmdGetOfflineMsgs
      in intToDWord (totalsize - 4) @ intToDWord 0 @ intToDWord 1
         @ intToDWord (len CSRequestHeader) @ CSRequestHeader
         @ intToDWord (len CSCmdGetOfflineMsgs) @ CSCmdGetOfflineMsgs
         @ intToDWord 0)"

definition deleteOfflineMessage_packet :: "string \<Rightarrow> string" where
  "deleteOfflineMessage_packet msgid =
     (let totalsize = 24 + len CSRequestHeader + len CSCmdDelOfflineMsg + len msgid
      in intToDWord (totalsize - 4) @ intToDWord 3
         @ intToDWord (len CSRequestHeader) @ CSRequestHeader
         @ intToDWord (len CSCmdDelOfflineMsg) @ CSCmdDelOfflineMsg
         @ intToDWord (4 + len msgid)
         @ intToDWord (len msgid) @ msgid)"

text \<open>The status code, or nothing for a status that is not sent.\<close>

definition status_code :: "string \<Rightarrow> int option" where
  "status_code status =
     (let t = map c_tolower status
      in if t = ''online'' \<or> t = ''available'' then Some 1
         else if t = ''away'' then Some 2
         else if t = ''busy'' then Some 3
         else if t = ''invisible'' then Some 4
         else None)"

definition setStatus_packet :: "int \<Rightarrow> string \<Rightarrow> string" where
  "setStatus_packet code message =
     (let size = 28 + len CSRequestHeader + len CSCmdSetOnlineStatus + len message
      in intToDWord (size - 4) @ intToDWord 3
         @ intToDWord (len CSRequestHeader) @ CSRequestHeader
         @ intToDWord (len CSCmdSetOnlineStatus) @ CSCmdSetOnlineStatus
         @ intToDWord (8 + len message)
         @ intToDWord code
         @ intToDWord (len message) @ message)"

definition sendGetAddRequest_packet :: string where
  "sendGetAddRequest_packet =
     (let size = 24 + len CSRequestHeader + len CSCmdGetAddRequests
      in intToDWord (size - 4) @ intToDWord 0 @ intToDWord 2
         @ intToDWord (len CSRequestHeader) @ CSRequestHeader
         @ intToDWord (len CSCmdGetAddRequests) @ CSCmdGetAddRequests
         @ intToDWord 0)"

definition sendDenyAddRequest_packet :: "string \<Rightarrow> string" where
  "sendDenyAddRequest_packet reqId =
     (let size = 24 + len CSRequestHeader + len CSCmdDelAddRequest + len reqId
      in intToDWord (size - 4) @ intToDWord 3
         @ intToDWord (len CSRequestHeader) @ CSRequestHeader
         @ intToDWord (len CSCmdDelAddRequest) @ CSCmdDelAddRequest
         @ intToDWord (len reqId + 4)
         @ intToDWord (len reqId) @ reqId)"

text \<open>\<open>sfrom\<close> is the parameter \<^verbatim>\<open>from\<close>; \<^verbatim>\<open>from2\<close> is not sent.\<close>

definition sendAcceptAddRequest_packet :: "string \<Rightarrow> string \<Rightarrow> string \<Rightarrow> string \<Rightarrow> string" where
  "sendAcceptAddRequest_packet localid reqId sfrom grp =
     (let size = 38 + len CSRequestHeader + len CSCmdAcceptAdd2 + len localid + len reqId
                 + len grp + len sfrom
      in intToDWord (size - 4) @ intToDWord 3
         @ intToDWord (len CSRequestHeader) @ CSRequestHeader
         @ intToDWord (len CSCmdAcceptAdd2) @ CSCmdAcceptAdd2
         @ intToDWord (18 + len localid + len reqId + len grp + len sfrom)
         @ intToDWord (len localid) @ localid
         @ intToDWord (len reqId) @ reqId
         @ intToDWord (len grp) @ grp
         @ intToDWord (len sfrom) @ sfrom
         @ intToDWord 1 @ intToDWord 1)"

definition sendDelContactRequest_packet :: "string \<Rightarrow> string \<Rightarrow> string" where
  "sendDelContactRequest_packet idToDel grp =
     (let size = 28 + len CSRequestHeader + len CSCmdDelContact + len grp + len idToDel
      in intToDWord (size - 4) @ intToDWord 3
         @ intToDWord (len CSRequestHeader) @ CSRequestHeader
         @ intToDWord (len CSCmdDelContact) @ CSCmdDelContact
         @ intToDWord (8 + len grp + len idToDel)
         @ intToDWord (len grp) @ grp
         @ intToDWord (len idToDel) @ idToDel)"

definition sendAddContactRequest_packet :: "string \<Rightarrow> string \<Rightarrow> string \<Rightarrow> string" where
  "sendAddContactRequest_packet localid grp remoteid =
     (let size = 36 + len CSRequestHeader + len CSCmdAddContact + len localid
                 + len remoteid + len grp
      in intToDWord (size - 4) @ intToDWord 3
         @ intToDWord (len CSRequestHeader) @ CSRequestHeader
         @ intToDWord (len CSCmdAddContact) @ CSCmdAddContact
         @ intToDWord (16 + len localid + len remoteid + len grp)
         @ intToDWord (len localid) @ localid
         @ intToDWord (len grp) @ grp
         @ intToDWord (len remoteid) @ remoteid
         @ intToDWord 0)"

definition sendTypingNotification_size :: "string \<Rightarrow> string \<Rightarrow> int" where
  "sendTypingNotification_size name to =
     28 + len CSPeerRequestHeader + len CSCmdTypingNotify + len name + len to"

definition sendTypingNotification_packet :: "string \<Rightarrow> string \<Rightarrow> string" where
  "sendTypingNotification_packet name to =
     intToDWord (sendTypingNotification_size name to - 4) @ intToDWord 3
     @ intToDWord (len CSPeerRequestHeader) @ CSPeerRequestHeader
     @ intToDWord (len CSCmdTypingNotify) @ CSCmdTypingNotify
     @ intToDWord (8 + len name + len to)
     @ intToDWord (len name) @ name
     @ intToDWord (len to) @ to"

definition sendChangeBuddyGroupRequest_packet ::
  "string \<Rightarrow> string \<Rightarrow> string \<Rightarrow> string \<Rightarrow> string" where
  "sendChangeBuddyGroupRequest_packet username buddy from_group to_group =
     (let size = 36 + len CSRequestHeader + len CSCmdMoveContact + len username + len buddy
                 + len from_group + len to_group
      in intToDWord (size - 4) @ intToDWord 3
         @ intToDWord (len CSRequestHeader) @ CSRequestHeader
         @ intToDWord (len CSCmdMoveContact) @ CSCmdMoveContact
         @ intToDWord (16 + len username + len buddy + len from_group + len to_group)
         @ intToDWord (len username) @ username
         @ intToDWord (len buddy) @ buddy
         @ intToDWord (len from_group) @ from_group
         @ intToDWord (len to_group) @ to_group)"

definition sendAddRemoveGroupRequest_packet :: "bool \<Rightarrow> string \<Rightarrow> string \<Rightarrow> string" where
  "sendAddRemoveGroupRequest_packet Remove username groupname =
     (let cmd = (if Remove then CSCmdRemoveGroup else CSCmdAddGroup);
          size = 28 + len CSRequestHeader + len cmd + len groupname + len username
      in intToDWord (size - 4) @ intToDWord 3
         @ intToDWord (len CSRequestHeader) @ CSRequestHeader
         @ intToDWord (len cmd) @ cmd
         @ intToDWord (8 + len username + len groupname)
         @ intToDWord (len username) @ username
         @ intToDWord (len groupname) @ groupname)"

definition sendGetChatRoomsRequest_packet :: string where
  "sendGetChatRoomsRequest_packet =
     (let totalsize = 24 + len CSRequestHeader + len CSCmdGetChatRooms
      in intToDWord (totalsize - 4) @ intToDWord 0 @ intToDWord 7
         @ intToDWord (len CSRequestHeader) @ CSRequestHeader
         @ intToDWord (len CSCmdGetChatRooms) @ CSCmdGetChatRooms
         @ intToDWord 0)"

definition http_gk_request :: string where
  "http_gk_request =
     ''GET http://gatekeeper.rediff.com:80/direct.cgi HTTP/1.1''
     @ [CHR 0x0D, CHR 0x0A, CHR 0x0D, CHR 0x0A]"

section \<open>The layout they are meant to have\<close>

text \<open>
  A frame is a string whose length goes first.  Inside, a number for the kind of
  packet (and, for kind 0, a request number), the header, the command, and a body,
  each again preceded by its length.
\<close>

definition command :: "string \<Rightarrow> string \<Rightarrow> string \<Rightarrow> string \<Rightarrow> string" where
  "command kind header cmd body =
     put_string (kind @ put_string header @ put_string cmd @ put_string body)"

abbreviation kind0 :: "int \<Rightarrow> string" where
  "kind0 n \<equiv> intToDWord 0 @ intToDWord n"

abbreviation kind3 :: string where
  "kind3 \<equiv> intToDWord 3"

lemmas layout_defs = command_def put_string_def command_names Let_def write_int_eq

lemma connectToGK_layout:
  "connectToGK_packet ua = command (kind0 0) GKRequestHeader GKCmdGetLoginServers
     (put_string ua @ intToDWord 3 @ put_string CAP_DIR @ put_string CAP_HTTP_CONNECT
        @ put_string CAP_HTTP)"
  by (simp add: connectToGK_packet_def layout_defs algebra_simps)

lemma connectToCS_layout:
  "connectToCS_packet name pass = command (kind0 0) CSRequestHeader CSCmdSignIn
     (put_string name @ put_string pass @ signin_magic @ put_string ''Winver:48'')"
  by (simp add: connectToCS_packet_def signin_magic_def layout_defs algebra_simps)

lemma sendMessage_layout:
  "sendMessage_packet sender to font msg = command kind3 CSPeerRequestHeader CSCmdTextMessage
     (put_string sender @ put_string to @ put_string
       (intToDWord 0 @ [CHR 0x00, CHR 0x00] @ intToSWord (len font) @ font
        @ fontBytes @ intToSWord (len msg) @ msg))"
  by (simp add: sendMessage_packet_def fontBytes_def layout_defs algebra_simps)

lemma sendKeepAlive_layout:
  "sendKeepAlive_packet n = command (kind0 n) CSRequestHeader CSCmdKeepAlive []"
  by (simp add: sendKeepAlive_packet_def layout_defs)

lemma sendOfflineMessagesRequest_layout:
  "sendOfflineMessagesRequest_packet = command (kind0 1) CSRequestHeader CSCmdGetOfflineMsgs []"
  by (simp add: sendOfflineMessagesRequest_packet_def layout_defs)

lemma deleteOfflineMessage_layout:
  "deleteOfflineMessage_packet msgid =
     command kind3 CSRequestHeader CSCmdDelOfflineMsg (put_string msgid)"
  by (simp add: deleteOfflineMessage_packet_def layout_defs algebra_simps)

lemma setStatus_layout:
  "setStatus_packet code msg =
     command kind3 CSRequestHeader CSCmdSetOnlineStatus (intToDWord code @ put_string msg)"
  by (simp add: setStatus_packet_def layout_defs algebra_simps)

lemma sendGetAddRequest_layout:
  "sendGetAddRequest_packet = command (kind0 2) CSRequestHeader CSCmdGetAddRequests []"
  by (simp add: sendGetAddRequest_packet_def layout_defs)

lemma sendDenyAddRequest_layout:
  "sendDenyAddRequest_packet reqId =
     command kind3 CSRequestHeader CSCmdDelAddRequest (put_string reqId)"
  by (simp add: sendDenyAddRequest_packet_def layout_defs algebra_simps)

lemma sendDelContactRequest_layout:
  "sendDelContactRequest_packet who grp =
     command kind3 CSRequestHeader CSCmdDelContact (put_string grp @ put_string who)"
  by (simp add: sendDelContactRequest_packet_def layout_defs algebra_simps)

lemma sendAddContactRequest_layout:
  "sendAddContactRequest_packet me grp who = command kind3 CSRequestHeader CSCmdAddContact
     (put_string me @ put_string grp @ put_string who @ intToDWord 0)"
  by (simp add: sendAddContactRequest_packet_def layout_defs algebra_simps)

lemma sendTypingNotification_layout:
  "sendTypingNotification_packet me to =
     command kind3 CSPeerRequestHeader CSCmdTypingNotify (put_string me @ put_string to)"
  by (simp add: sendTypingNotification_packet_def sendTypingNotification_size_def layout_defs
      algebra_simps)

lemma sendChangeBuddyGroupRequest_layout:
  "sendChangeBuddyGroupRequest_packet me who old new =
     command kind3 CSRequestHeader CSCmdMoveContact
       (put_string me @ put_string who @ put_string old @ put_string new)"
  by (simp add: sendChangeBuddyGroupRequest_packet_def layout_defs algebra_simps)

lemma sendAddRemoveGroupRequest_layout:
  "sendAddRemoveGroupRequest_packet rm me grp =
     command kind3 CSRequestHeader (if rm then CSCmdRemoveGroup else CSCmdAddGroup)
       (put_string me @ put_string grp)"
  by (simp add: sendAddRemoveGroupRequest_packet_def layout_defs algebra_simps)

lemma sendGetChatRoomsRequest_layout:
  "sendGetChatRoomsRequest_packet = command (kind0 7) CSRequestHeader CSCmdGetChatRooms []"
  by (simp add: sendGetChatRoomsRequest_packet_def layout_defs)

lemmas request_layouts = connectToGK_layout connectToCS_layout sendKeepAlive_layout
  sendOfflineMessagesRequest_layout deleteOfflineMessage_layout setStatus_layout
  sendGetAddRequest_layout sendDenyAddRequest_layout sendDelContactRequest_layout
  sendAddContactRequest_layout sendChangeBuddyGroupRequest_layout
  sendAddRemoveGroupRequest_layout sendGetChatRoomsRequest_layout

text \<open>
  The exception: \<^verbatim>\<open>sendAcceptAddRequest\<close> counts two bytes for the two words it ends
  with, so both its lengths are six too small.
\<close>

lemma sendAcceptAddRequest_layout:
  "sendAcceptAddRequest_packet localid reqId sfrom grp =
     (let body = put_string localid @ put_string reqId @ put_string grp @ put_string sfrom
                 @ intToDWord 1 @ intToDWord 1;
          payload = kind3 @ put_string CSRequestHeader @ put_string CSCmdAcceptAdd2
                    @ intToDWord (len body - 6) @ body
      in intToDWord (len payload - 6) @ payload)"
  by (simp add: sendAcceptAddRequest_packet_def layout_defs algebra_simps)

subsection \<open>A sent text message is one run of a chat message\<close>

lemma put_be_short: "0 \<le> i \<Longrightarrow> i < 65536 \<Longrightarrow> put_be i = [CHR 0x00, CHR 0x00] @ intToSWord i"
proof -
  assume i: "0 \<le> i" "i < 65536"
  have "drop_bit n i = 0" if "16 \<le> n" for n
  proof -
    have "i < 2 ^ n" using i(2) power_increasing [OF that, of "2 :: int"] by simp
    then show ?thesis using i(1) by (simp add: drop_bit_eq_div)
  qed
  then show ?thesis by (simp add: put_be_def intToDWord_def intToSWord_def char_of_def)
qed

definition sent_font_info :: string where
  "sent_font_info = take 13 fontBytes"

lemma fontBytes_split: "fontBytes = sent_font_info @ [CHR 0x00, CHR 0x00]"
  by (simp add: sent_font_info_def fontBytes_def char_of_def)

lemma length_sent_font_info [simp]: "length sent_font_info = 13"
  by (simp add: sent_font_info_def fontBytes_def)

lemma sendMessage_body:
  assumes "length font < 65536" and "length msg < 65536"
  shows "intToDWord 0 @ [CHR 0x00, CHR 0x00] @ intToSWord (len font) @ font
      @ fontBytes @ intToSWord (len msg) @ msg = put_part (TextPart font sent_font_info msg)"
  using put_be_short [of "len font"] put_be_short [of "len msg"] assms
  by (simp add: fontBytes_split put_bstring_def put_be_def intToDWord_def)

end
