(* ===== verification/External.thy ===== *)
theory External
  imports ChatMessage
begin

text \<open>
  The boundary of the model.  Every call the plugin makes into libpurple, the event
  loop or the operating system that has an effect is an \<open>event\<close>, recorded in a history
  (newest first); every result such a call gives back is a function of the history so
  far, a field of an environment record.  So an environment may answer in any way that
  depends on what happened before, and the theorems hold for all of them.
\<close>

section \<open>Calls that have an effect\<close>

datatype cond = CondRead | CondWrite   \<comment> \<open>\<^verbatim>\<open>PURPLE_INPUT_READ\<close>, \<^verbatim>\<open>PURPLE_INPUT_WRITE\<close>\<close>

datatype reason = NetworkError | AuthenticationFailed | NameInUse
  \<comment> \<open>\<^verbatim>\<open>PurpleConnectionError\<close>\<close>

datatype fetch = AvatarKey | AvatarImage  \<comment> \<open>which callback a URL request is given\<close>

text \<open>\<^verbatim>\<open>struct AddRequest\<close>; \<open>ar_conn\<close> is the raw pointer it keeps.\<close>

record add_request =
  ar_conn :: nat
  ar_localid :: string
  ar_from :: string
  ar_from2 :: string
  ar_reqId :: string

text \<open>
  Accounts are numbers.  The last argument of \<open>ProxyConnect\<close>, \<open>InputAdd\<close> and
  \<open>TimeoutAdd\<close> is the object id handed to the callback; \<open>SysWrite\<close> and \<open>SysClose\<close> carry
  the id of the connection that makes the call.
\<close>

datatype event =
    ProxyConnect nat string int int int   \<comment> \<open>account, host, port, returned handle, id\<close>
  | ProxyCancel int
  | InputAdd int int cond int             \<comment> \<open>returned handle, fd, condition, id\<close>
  | InputRemove int
  | SysClose int int                      \<comment> \<open>id, fd\<close>
  | SysWrite int int string int           \<comment> \<open>id, fd, bytes offered, result\<close>
  | SysRead int int                       \<comment> \<open>id, fd\<close>
  | TimeoutAdd int int int                \<comment> \<open>returned handle, seconds, id\<close>
  | TimeoutRemove int
  | ConnectionError nat reason string
  | UpdateProgress nat string int int
  | SetConnected nat
  | GotIm nat string string int           \<comment> \<open>account, sender, text, time\<close>
  | GotTyping nat string int
  | GotUserStatus nat string string "string option"
  | UpdateBuddyStatus nat string
  | AddBuddy nat string string            \<comment> \<open>account, buddy, group\<close>
  | NewGroup string
  | NotifyEmails nat int string
  | RequestAuthorization nat add_request
  | FetchUrl string fetch int string      \<comment> \<open>URL, callback, id, user name\<close>
  | SetBuddyIcon nat string string
  | NotifyUri string
  | RoomlistUnref int
  | RoomlistNew nat int                   \<comment> \<open>account, returned handle\<close>
  | RoomlistSetFields int "string list"
  | RoomlistInProgress int bool
  | RoomlistAddRoom int string "string list"

text \<open>The inputs registered with the event loop, as the history gives them.\<close>

fun watches :: "event list \<Rightarrow> int \<Rightarrow> (int \<times> cond \<times> int) option" where
  "watches [] h = None"
| "watches (InputAdd h' fd c i # tr) h = (if h = h' then Some (fd, c, i) else watches tr h)"
| "watches (InputRemove h' # tr) h = (if h = h' then None else watches tr h)"
| "watches (_ # tr) h = watches tr h"

text \<open>The bytes the operating system has taken from the connection with a given id.\<close>

fun sent :: "event list \<Rightarrow> int \<Rightarrow> string" where
  "sent [] i = []"
| "sent (SysWrite i' fd d r # tr) i = sent tr i @ (if i = i' then take (nat r) d else [])"
| "sent (_ # tr) i = sent tr i"

section \<open>Results\<close>

text \<open>The result of \<^verbatim>\<open>read\<close>: an error, with \<^verbatim>\<open>errno == EAGAIN\<close> or not, or some bytes.\<close>

datatype read_result = ReadError bool | ReadData string

text \<open>
  What \<^verbatim>\<open>conn.cpp\<close> takes from outside.  A handle of \<open>0\<close> is a null pointer or a
  failure.  \<open>ne_write\<close> gives the result of \<^verbatim>\<open>write\<close> and whether \<^verbatim>\<open>errno\<close> is
  \<^verbatim>\<open>EAGAIN\<close>.  \<open>ne_read\<close> may give any number of bytes; the buffer that the code passes to
  \<^verbatim>\<open>read\<close> holds 1024, so every behaviour of the code is one of the model.  The type \<open>'b\<close> is that of libpurple's circular buffers, with the
  operations the code uses.
\<close>

record 'b net_env = text_env +
  ne_proxy_connect :: "event list \<Rightarrow> int"
  ne_input_add :: "event list \<Rightarrow> int"
  ne_input_error :: "event list \<Rightarrow> int \<Rightarrow> int"
  ne_write :: "event list \<Rightarrow> int \<Rightarrow> string \<Rightarrow> int \<times> bool"
  ne_read :: "event list \<Rightarrow> int \<Rightarrow> read_result"
  cb_new :: 'b
  cb_append :: "'b \<Rightarrow> string \<Rightarrow> 'b"
  cb_max_read :: "'b \<Rightarrow> nat"
  cb_out :: "'b \<Rightarrow> nat \<Rightarrow> string"
  cb_mark_read :: "'b \<Rightarrow> nat \<Rightarrow> 'b"

text \<open>What the rest of the plugin takes from outside.\<close>

record 'b env = "'b net_env" +
  ev_username :: "nat \<Rightarrow> string option"
  ev_password :: "nat \<Rightarrow> string option"
  ev_rand :: "event list \<Rightarrow> int"
  ev_time :: "event list \<Rightarrow> int"
  ev_timeout_add :: "event list \<Rightarrow> int"
  ev_find_buddy :: "event list \<Rightarrow> nat \<Rightarrow> string \<Rightarrow> bool"
  ev_find_group :: "event list \<Rightarrow> string \<Rightarrow> bool"
  ev_status_message :: "event list \<Rightarrow> nat \<Rightarrow> string option"
  ev_status_id :: "event list \<Rightarrow> nat \<Rightarrow> string option"
  ev_roomlist_new :: "event list \<Rightarrow> int"

section \<open>Documented behaviour the theorems may assume\<close>

text \<open>
  GLib's sources: a new one has a positive id that no registered source has.
\<close>

definition fresh_handles :: "('b, 'e) net_env_scheme \<Rightarrow> bool" where
  "fresh_handles E \<longleftrightarrow> (\<forall>tr. 0 < ne_input_add E tr \<and> watches tr (ne_input_add E tr) = None)"

text \<open>
  libpurple's circular buffer is a queue of bytes (\<open>content\<close>): it starts empty, appends
  at the back, offers a prefix of the content, non-empty unless the content is empty,
  as one block, and drops from the front what is marked as read.
\<close>

definition circ_buffer :: "('b, 'e) net_env_scheme \<Rightarrow> ('b \<Rightarrow> string) \<Rightarrow> bool" where
  "circ_buffer E content \<longleftrightarrow>
     content (cb_new E) = []
   \<and> (\<forall>q d. content (cb_append E q d) = content q @ d)
   \<and> (\<forall>q. cb_max_read E q \<le> length (content q))
   \<and> (\<forall>q. cb_max_read E q = 0 \<longrightarrow> content q = [])
   \<and> (\<forall>q n. n \<le> cb_max_read E q \<longrightarrow> cb_out E q n = take n (content q))
   \<and> (\<forall>q n. n \<le> cb_max_read E q \<longrightarrow> content (cb_mark_read E q n) = drop n (content q))"

text \<open>\<^verbatim>\<open>write\<close> takes at most the bytes it is offered.\<close>

definition posix_write :: "('b, 'e) net_env_scheme \<Rightarrow> bool" where
  "posix_write E \<longleftrightarrow> (\<forall>tr fd d. fst (ne_write E tr fd d) \<le> int (length d))"

end
