(* ===== verification/RObject.thy ===== *)
theory RObject
  imports Prelude
begin

text \<open>
  \<^verbatim>\<open>RObject.h\<close> and \<^verbatim>\<open>RObject.cpp\<close>: the base class that gives each object a number and
  keeps a table from numbers to objects, so that callbacks can be handed a number
  instead of a pointer.  A pointer is a \<^typ>\<open>nat\<close>; an address is never used twice, so
  that a dangling pointer is one that nothing is stored at.
\<close>

section \<open>The base class and its table\<close>

record robject =
  invalid :: bool
  obj_id :: int

record registry =
  id_counter :: int
  id_map :: "int \<Rightarrow> nat option"

definition int_max :: int where
  "int_max = 2 ^ 31 - 1"

text \<open>The constructor, on the object at address \<open>this\<close>; the counter is an \<^verbatim>\<open>int\<close>.\<close>

definition reg_add :: "nat \<Rightarrow> 'z registry_scheme \<Rightarrow> 'z registry_scheme" where
  "reg_add this r =
     r\<lparr>id_counter := id_counter r + 1, id_map := (id_map r)(id_counter r \<mapsto> this)\<rparr>"

definition reg_erase :: "int \<Rightarrow> 'z registry_scheme \<Rightarrow> 'z registry_scheme" where
  "reg_erase i r = r\<lparr>id_map := (id_map r)(i := None)\<rparr>"

definition RObject :: "nat \<Rightarrow> ('z registry_scheme, robject) M" where
  "RObject this =
     bindM (getM id_counter) (\<lambda>i.
     thenM (ensure (i < int_max) (Undef SignedOverflow)) (
     thenM (modM (reg_add this))
     (ret \<lparr>invalid = False, obj_id = i\<rparr>)))"

text \<open>The destructor; the object is gone afterwards, so its own flag is not kept.\<close>

definition destroy_RObject :: "int \<Rightarrow> ('z registry_scheme, unit) M" where
  "destroy_RObject i =
     thenM (modM (reg_erase i)) (
     bindM (getM (\<lambda>r. id_map r i = None)) (\<lambda>gone.
     ensure gone AssertFail))"

definition getObjectById :: "int \<Rightarrow> ('z registry_scheme, nat option) M" where
  "getObjectById i = getM (\<lambda>r. id_map r i)"

definition isInvalid :: "'z robject_scheme \<Rightarrow> bool" where
  "isInvalid r = invalid r"

definition setInvalid :: "'z robject_scheme \<Rightarrow> 'z robject_scheme" where
  "setInvalid r = r\<lparr>invalid := True\<rparr>"

lemma total_registry [total_intro]:
  "total (RObject this)" "total (destroy_RObject i)" "total (getObjectById i)"
  by (unfold RObject_def destroy_RObject_def getObjectById_def) (intro total_intro)+

lemma RObject_run [exec]:
  "RObject this r =
     (if id_counter r < int_max
      then Some (Ok \<lparr>invalid = False, obj_id = id_counter r\<rparr>, reg_add this r)
      else Some (Throw (Undef SignedOverflow), r))"
  by (simp add: RObject_def exec)

lemma destroy_RObject_run [exec]: "destroy_RObject i r = Some (Ok (), reg_erase i r)"
  by (simp add: destroy_RObject_def exec reg_erase_def)

lemma getObjectById_run [exec]: "getObjectById i r = Some (Ok (id_map r i), r)"
  by (simp add: getObjectById_def exec)

section \<open>The contract: numbers are handles\<close>

text \<open>
  A table of handles hands out a handle for each thing added, finds the thing until
  the handle is deleted, and never hands out a handle again: one that is \<open>spent\<close>
  stays spent whatever is added or deleted afterwards.
\<close>

datatype ('a, 'h) table_op = Add 'a | Delete 'h

locale handle_table =
  fixes add :: "'a \<Rightarrow> 'r \<Rightarrow> 'r" and del :: "'h \<Rightarrow> 'r \<Rightarrow> 'r"
    and find :: "'r \<Rightarrow> 'h \<Rightarrow> 'a option"
    and new_handle :: "'r \<Rightarrow> 'h" and issued :: "'r \<Rightarrow> 'h \<Rightarrow> bool"
  assumes find_add: "find (add a r) h = (if h = new_handle r then Some a else find r h)"
    and find_del: "find (del k r) h = (if h = k then None else find r h)"
    and new_not_issued: "\<not> issued r (new_handle r)"
    and issued_add: "issued (add a r) h \<longleftrightarrow> h = new_handle r \<or> issued r h"
    and issued_del: "issued (del k r) h \<longleftrightarrow> issued r h"
begin

definition apply_op :: "('a, 'h) table_op \<Rightarrow> 'r \<Rightarrow> 'r" where
  "apply_op x r = (case x of Add a \<Rightarrow> add a r | Delete k \<Rightarrow> del k r)"

definition spent :: "'r \<Rightarrow> 'h \<Rightarrow> bool" where
  "spent r h \<longleftrightarrow> issued r h \<and> find r h = None"

lemma spent_apply: "spent r h \<Longrightarrow> spent (apply_op x r) h"
  using new_not_issued [of r]
  by (cases x) (auto simp: spent_def apply_op_def find_add find_del issued_add issued_del)

lemma spent_forever: "spent r h \<Longrightarrow> spent (fold apply_op xs r) h"
  by (induction xs arbitrary: r) (simp_all add: spent_apply)

lemma spent_del: "issued r h \<Longrightarrow> spent (del h r) h"
  by (simp add: spent_def find_del issued_del)

lemma deleted_never_found: "issued r h \<Longrightarrow> find (fold apply_op xs (del h r)) h = None"
  using spent_forever [OF spent_del] by (simp add: spent_def)

lemma found_until_deleted:
  "issued r h \<Longrightarrow> find r h = Some a \<Longrightarrow> Delete h \<notin> set xs \<Longrightarrow>
     find (fold apply_op xs r) h = Some a"
proof (induction xs arbitrary: r)
  case Nil
  then show ?case by simp
next
  case (Cons x xs)
  then have "h \<noteq> new_handle r" using new_not_issued by blast
  with Cons.prems have "issued (apply_op x r) h" and "find (apply_op x r) h = Some a"
    by (cases x; auto simp: apply_op_def issued_add issued_del find_add find_del)+
  then show ?case using Cons by simp
qed

end

text \<open>A number below the counter has been handed out.\<close>

definition reg_issued :: "'z registry_scheme \<Rightarrow> int \<Rightarrow> bool" where
  "reg_issued r i \<longleftrightarrow> i < id_counter r"

interpretation reg: handle_table reg_add reg_erase id_map id_counter reg_issued
  by unfold_locales (auto simp: reg_add_def reg_erase_def reg_issued_def)

end
