(* ===== verification/Conn.thy ===== *)
theory Conn
  imports External RObject
begin

text \<open>
  \<^verbatim>\<open>conn.h\<close>, \<^verbatim>\<open>conn.cpp\<close> and the abstract class of \<^verbatim>\<open>PurpleAsyncConnHandler.h\<close>: one
  non-blocking connection, its transmit queue, and the callbacks the event loop makes
  into it.  The virtual functions of the handler are a record of calls passed as an
  argument, so this theory does not depend on the class that implements them.
\<close>

section \<open>State\<close>

text \<open>
  A null \<^verbatim>\<open>txbuf\<close> is \<open>None\<close>; an \<^verbatim>\<open>fd\<close> the constructor has not set is \<open>None\<close>; a
  null \<^verbatim>\<open>connection_attempt_data\<close> and an unset input handle are \<open>0\<close>.
\<close>

record 'b conn = robject +
  c_attempt :: int
  c_txbuf :: "'b option"
  c_awaiting :: msgbuf
  c_tx :: int
  c_rx :: int
  c_fd :: "int option"
  c_parse_mode :: int
  c_handler_id :: int

record 'b net = registry +
  next_addr :: nat
  conns :: "nat \<Rightarrow> 'b conn option"
  history :: "event list"

text \<open>\<^verbatim>\<open>PurpleAsyncConnHandler\<close>; the first argument of each call is the object's address.\<close>

record 's handler =
  h_gotConnected :: "nat \<Rightarrow> ('s, unit) M"
  h_readCallback :: "nat \<Rightarrow> nat \<Rightarrow> ('s, unit) M"
  h_connectionError :: "nat \<Rightarrow> string \<Rightarrow> nat \<Rightarrow> ('s, unit) M"
  h_readError :: "nat \<Rightarrow> nat \<Rightarrow> ('s, unit) M"
  h_closeCallback :: "nat \<Rightarrow> nat \<Rightarrow> ('s, unit) M"
  h_getProxyAccount :: "nat \<Rightarrow> ('s, nat) M"

section \<open>Access to objects and the outside\<close>

definition emit :: "event \<Rightarrow> ('b, 'z) net_scheme \<Rightarrow> ('b, 'z) net_scheme" where
  "emit e s = s\<lparr>history := e # history s\<rparr>"

definition out :: "event \<Rightarrow> (('b, 'z) net_scheme, unit) M" where
  "out e = modM (emit e)"

definition ask :: "(event list \<Rightarrow> 'a) \<Rightarrow> (('b, 'z) net_scheme, 'a) M" where
  "ask f = getM (\<lambda>s. f (history s))"

definition set_conn :: "nat \<Rightarrow> 'b conn option \<Rightarrow> ('b, 'z) net_scheme \<Rightarrow> ('b, 'z) net_scheme" where
  "set_conn a c s = s\<lparr>conns := (conns s)(a := c)\<rparr>"

text \<open>Dereferencing a pointer to a connection.\<close>

definition get_conn :: "nat \<Rightarrow> (('b, 'z) net_scheme, 'b conn) M" where
  "get_conn a = (\<lambda>s. case conns s a of
      None \<Rightarrow> Some (Throw (Undef UseAfterFree), s)
    | Some c \<Rightarrow> Some (Ok c, s))"

definition upd_conn :: "nat \<Rightarrow> ('b conn \<Rightarrow> 'b conn) \<Rightarrow> (('b, 'z) net_scheme, unit) M" where
  "upd_conn a g = bindM (get_conn a) (\<lambda>c. modM (set_conn a (Some (g c))))"

text \<open>The expression \<^verbatim>\<open>HANDLER\<close>, and \<^verbatim>\<open>if (HANDLER) HANDLER->...\<close>.\<close>

definition HANDLER :: "nat \<Rightarrow> (('b, 'z) net_scheme, nat option) M" where
  "HANDLER a = bindM (get_conn a) (\<lambda>c. getObjectById (c_handler_id c))"

definition if_HANDLER ::
  "nat \<Rightarrow> (nat \<Rightarrow> (('b, 'z) net_scheme, unit) M) \<Rightarrow> (('b, 'z) net_scheme, unit) M" where
  "if_HANDLER a m =
     bindM (HANDLER a) (\<lambda>h. case h of None \<Rightarrow> ret () | Some p \<Rightarrow> m p)"

definition fd_of :: "'b conn \<Rightarrow> ('s, int) M" where
  "fd_of c = (case c_fd c of None \<Rightarrow> raise (Undef Uninitialised) | Some fd \<Rightarrow> ret fd)"

section \<open>Construction, closing, destruction\<close>

definition new_conn ::
  "('b, 'e) net_env_scheme \<Rightarrow> int \<Rightarrow> int \<Rightarrow> (('b, 'z) net_scheme, nat) M" where
  "new_conn E conn_id pm =
     bindM (getM next_addr) (\<lambda>a.
     thenM (modM (\<lambda>s. s\<lparr>next_addr := Suc a\<rparr>)) (
     bindM (RObject a) (\<lambda>r.
     thenM (modM (set_conn a (Some
       \<lparr>invalid = invalid r, obj_id = obj_id r, c_attempt = 0, c_txbuf = Some (cb_new E),
        c_awaiting = MessageBuffer [], c_tx = 0, c_rx = 0, c_fd = None,
        c_parse_mode = pm, c_handler_id = conn_id\<rparr>)))
     (ret a))))"

text \<open>The steps of \<^verbatim>\<open>close()\<close>, each an \<^verbatim>\<open>if\<close> statement of the source.\<close>

definition close_attempt :: "nat \<Rightarrow> (('b, 'z) net_scheme, unit) M" where
  "close_attempt a =
     bindM (get_conn a) (\<lambda>c.
     whenM (c_attempt c \<noteq> 0) (
       thenM (out (ProxyCancel (c_attempt c)))
       (upd_conn a (\<lambda>c. c\<lparr>c_attempt := 0\<rparr>))))"

definition close_fd :: "('b, 'e) net_env_scheme \<Rightarrow> nat \<Rightarrow> (('b, 'z) net_scheme, unit) M" where
  "close_fd E a =
     bindM (get_conn a) (\<lambda>c.
     bindM (fd_of c) (\<lambda>fd.
     bindM (ask (\<lambda>tr. ne_input_error E tr fd)) (\<lambda>err.
     whenM (0 < fd \<and> err = 0) (
       thenM (out (SysClose (obj_id c) fd))
       (upd_conn a (\<lambda>c. c\<lparr>c_fd := Some 0\<rparr>))))))"

definition close_tx :: "nat \<Rightarrow> (('b, 'z) net_scheme, unit) M" where
  "close_tx a =
     bindM (get_conn a) (\<lambda>c.
     whenM (c_tx c \<noteq> 0) (
       thenM (out (InputRemove (c_tx c)))
       (upd_conn a (\<lambda>c. c\<lparr>c_tx := 0\<rparr>))))"

definition close_rx :: "nat \<Rightarrow> (('b, 'z) net_scheme, unit) M" where
  "close_rx a =
     bindM (get_conn a) (\<lambda>c.
     whenM (c_rx c \<noteq> 0) (
       thenM (out (InputRemove (c_rx c)))
       (upd_conn a (\<lambda>c. c\<lparr>c_rx := 0\<rparr>))))"

definition conn_close :: "('b, 'e) net_env_scheme \<Rightarrow> nat \<Rightarrow> (('b, 'z) net_scheme, unit) M" where
  "conn_close E a =
     thenM (upd_conn a setInvalid) (
     thenM (close_attempt a) (
     thenM (close_fd E a) (
     thenM (upd_conn a (\<lambda>c. c\<lparr>c_txbuf := None\<rparr>)) (
     thenM (close_tx a)
     (close_rx a)))))"

text \<open>\<^verbatim>\<open>delete\<close> through a pointer, which may be null: the two destructors, then the memory.\<close>

definition delete_conn ::
  "('b, 'e) net_env_scheme \<Rightarrow> nat option \<Rightarrow> (('b, 'z) net_scheme, unit) M" where
  "delete_conn E p =
     (case p of
        None \<Rightarrow> ret ()
      | Some a \<Rightarrow>
          thenM (conn_close E a) (
          bindM (get_conn a) (\<lambda>c.
          thenM (destroy_RObject (obj_id c))
          (modM (set_conn a None)))))"

section \<open>Connecting\<close>

definition establish_connection ::
  "('b, 'e) net_env_scheme \<Rightarrow> (nat \<Rightarrow> (('b, 'z) net_scheme, nat) M) \<Rightarrow> nat \<Rightarrow> string \<Rightarrow> int \<Rightarrow>
     (('b, 'z) net_scheme, bool) M" where
  "establish_connection E getProxyAccount a ip port =
     bindM (HANDLER a) (\<lambda>h. case h of
       None \<Rightarrow> raise AssertFail
     | Some p \<Rightarrow>
       bindM (get_conn a) (\<lambda>c.
       thenM (ensure (c_rx c = 0 \<and> c_tx c = 0 \<and> c_attempt c = 0) AssertFail) (
       thenM (upd_conn a (\<lambda>c. c\<lparr>c_fd := Some (-1)\<rparr>)) (
       bindM (getProxyAccount p) (\<lambda>acct.
       bindM (ask (ne_proxy_connect E)) (\<lambda>k.
       thenM (out (ProxyConnect acct (c_str ip) port k (obj_id c))) (
       thenM (upd_conn a (\<lambda>c. c\<lparr>c_attempt := k\<rparr>))
       (ret (k \<noteq> 0)))))))))"

definition got_connected_cb ::
  "('b, 'e) net_env_scheme \<Rightarrow> ('b, 'z) net_scheme handler \<Rightarrow> nat \<Rightarrow> int \<Rightarrow> string option \<Rightarrow>
     (('b, 'z) net_scheme, unit) M" where
  "got_connected_cb E H a source error =
     thenM (upd_conn a (\<lambda>c. c\<lparr>c_attempt := 0\<rparr>)) (
     bindM (get_conn a) (\<lambda>c.
     if isInvalid c then ret ()
     else if source < 0 then
       thenM (conn_close E a)
       (if_HANDLER a (\<lambda>p. case error of
          None \<Rightarrow> raise (Undef NullDeref)
        | Some msg \<Rightarrow> h_connectionError H p msg a))
     else
       thenM (upd_conn a (\<lambda>c. c\<lparr>c_fd := Some source\<rparr>)) (
       thenM (ensure (c_rx c = 0) AssertFail) (
       bindM (ask (ne_input_add E)) (\<lambda>k.
       thenM (out (InputAdd k source CondRead (obj_id c))) (
       thenM (upd_conn a (\<lambda>c. c\<lparr>c_rx := k\<rparr>))
       (if_HANDLER a (h_gotConnected H))))))))"

text \<open>The C callback: the number it was given may no longer name an object.\<close>

definition conn_got_connected ::
  "('b, 'e) net_env_scheme \<Rightarrow> ('b, 'z) net_scheme handler \<Rightarrow> int \<Rightarrow> int \<Rightarrow> string option \<Rightarrow>
     (('b, 'z) net_scheme, unit) M" where
  "conn_got_connected E H data source error =
     bindM (getObjectById data) (\<lambda>p. case p of
       None \<Rightarrow> ret ()
     | Some a \<Rightarrow> got_connected_cb E H a source error)"

section \<open>Writing\<close>

text \<open>The bytes are queued, and the write input is registered if it is not yet.\<close>

definition enqueue ::
  "('b, 'e) net_env_scheme \<Rightarrow> nat \<Rightarrow> string \<Rightarrow> (('b, 'z) net_scheme, unit) M" where
  "enqueue E a d =
     bindM (get_conn a) (\<lambda>c. case c_txbuf c of
       None \<Rightarrow> raise (Undef NullDeref)
     | Some q \<Rightarrow>
       thenM (upd_conn a (\<lambda>c. c\<lparr>c_txbuf := Some (cb_append E q d)\<rparr>)) (
       whenM (c_tx c = 0) (
         bindM (fd_of c) (\<lambda>fd.
         bindM (ask (ne_input_add E)) (\<lambda>k.
         thenM (out (InputAdd k fd CondWrite (obj_id c)))
         (upd_conn a (\<lambda>c. c\<lparr>c_tx := k\<rparr>)))))))"

text \<open>\<^verbatim>\<open>::write\<close> on the connection's descriptor: the result, and whether \<^verbatim>\<open>EAGAIN\<close>.\<close>

definition sys_write ::
  "('b, 'e) net_env_scheme \<Rightarrow> 'b conn \<Rightarrow> string \<Rightarrow> (('b, 'z) net_scheme, int \<times> bool) M" where
  "sys_write E c d =
     bindM (fd_of c) (\<lambda>fd.
     bindM (ask (\<lambda>tr. ne_write E tr fd d)) (\<lambda>r.
     thenM (out (SysWrite (obj_id c) fd d (fst r)))
     (ret r)))"

text \<open>
  \<^verbatim>\<open>write(const void*, int)\<close>.  A result of \<open>-1\<close> with \<^verbatim>\<open>EAGAIN\<close> counts as nothing
  written; \<open>0\<close> and every other error close the connection.  The handler's
  \<^verbatim>\<open>writeCallback\<close> does nothing and is not overridden.  \<open>rdErr\<close> is the handler's
  \<^verbatim>\<open>readError\<close>.
\<close>

definition conn_write ::
  "('b, 'e) net_env_scheme \<Rightarrow> (nat \<Rightarrow> nat \<Rightarrow> (('b, 'z) net_scheme, unit) M) \<Rightarrow> nat \<Rightarrow> string \<Rightarrow>
     (('b, 'z) net_scheme, unit) M" where
  "conn_write E rdErr a data =
     bindM (get_conn a) (\<lambda>c.
     if isInvalid c then ret ()
     else
       bindM (if c_tx c = 0 then sys_write E c data else ret (-1, True)) (\<lambda>r.
       if fst r \<le> 0 \<and> \<not> (fst r < 0 \<and> snd r) then
         thenM (conn_close E a)
         (if_HANDLER a (\<lambda>p. rdErr p a))
       else
         let written = (if fst r < 0 then 0 else fst r) in
         whenM (written < int (length data)) (enqueue E a (drop (nat written) data))))"

definition write_cb ::
  "('b, 'e) net_env_scheme \<Rightarrow> (nat \<Rightarrow> nat \<Rightarrow> (('b, 'z) net_scheme, unit) M) \<Rightarrow> nat \<Rightarrow>
     (('b, 'z) net_scheme, unit) M" where
  "write_cb E rdErr a =
     bindM (get_conn a) (\<lambda>c. case c_txbuf c of
       None \<Rightarrow> raise (Undef NullDeref)
     | Some q \<Rightarrow>
       if cb_max_read E q = 0 then
         thenM (out (InputRemove (c_tx c)))
         (upd_conn a (\<lambda>c. c\<lparr>c_tx := 0\<rparr>))
       else
         bindM (sys_write E c (cb_out E q (cb_max_read E q))) (\<lambda>r.
         if fst r < 0 \<and> snd r then ret ()
         else if fst r \<le> 0 then
           thenM (conn_close E a)
           (if_HANDLER a (\<lambda>p. rdErr p a))
         else
           upd_conn a (\<lambda>c. c\<lparr>c_txbuf := Some (cb_mark_read E q (nat (fst r)))\<rparr>)))"

definition conn_write_cb ::
  "('b, 'e) net_env_scheme \<Rightarrow> (nat \<Rightarrow> nat \<Rightarrow> (('b, 'z) net_scheme, unit) M) \<Rightarrow> int \<Rightarrow>
     (('b, 'z) net_scheme, unit) M" where
  "conn_write_cb E rdErr data =
     bindM (getObjectById data) (\<lambda>p. case p of
       None \<Rightarrow> ret ()
     | Some a \<Rightarrow> write_cb E rdErr a)"

section \<open>Reading\<close>

text \<open>\<^verbatim>\<open>read\<close> is called before the validity check; an invalid connection drops the bytes.\<close>

definition read_cb ::
  "('b, 'e) net_env_scheme \<Rightarrow> ('b, 'z) net_scheme handler \<Rightarrow> nat \<Rightarrow> int \<Rightarrow>
     (('b, 'z) net_scheme, unit) M" where
  "read_cb E H a source =
     bindM (get_conn a) (\<lambda>c.
     bindM (ask (\<lambda>tr. ne_read E tr source)) (\<lambda>r.
     thenM (out (SysRead (obj_id c) source)) (
     if isInvalid c then ret ()
     else case r of
       ReadError eagain \<Rightarrow>
         if eagain then ret ()
         else thenM (conn_close E a) (if_HANDLER a (\<lambda>p. h_readError H p a))
     | ReadData d \<Rightarrow>
         if d = [] then thenM (conn_close E a) (if_HANDLER a (\<lambda>p. h_closeCallback H p a))
         else
           thenM (upd_conn a (\<lambda>c. c\<lparr>c_awaiting := push_str d (c_awaiting c)\<rparr>))
           (if_HANDLER a (\<lambda>p. h_readCallback H p a)))))"

definition conn_read_cb ::
  "('b, 'e) net_env_scheme \<Rightarrow> ('b, 'z) net_scheme handler \<Rightarrow> int \<Rightarrow> int \<Rightarrow>
     (('b, 'z) net_scheme, unit) M" where
  "conn_read_cb E H data source =
     bindM (getObjectById data) (\<lambda>p. case p of
       None \<Rightarrow> ret ()
     | Some a \<Rightarrow>
       bindM (ask (\<lambda>tr. ne_input_error E tr source)) (\<lambda>err.
       if source < 0 \<or> err \<noteq> 0 then ret () else read_cb E H a source))"

section \<open>Running the calls\<close>

lemma get_conn_run [exec, prim]:
  "get_conn a s = (case conns s a of
      None \<Rightarrow> Some (Throw (Undef UseAfterFree), s) | Some c \<Rightarrow> Some (Ok c, s))"
  by (simp add: get_conn_def)

lemma upd_conn_run [exec, prim]:
  "upd_conn a g s = (case conns s a of
      None \<Rightarrow> Some (Throw (Undef UseAfterFree), s)
    | Some c \<Rightarrow> Some (Ok (), set_conn a (Some (g c)) s))"
  by (simp add: upd_conn_def exec split: option.split)

lemma out_run [exec, prim]: "out e s = Some (Ok (), emit e s)"
  by (simp add: out_def exec)

lemma ask_run [exec, prim]: "ask f s = Some (Ok (f (history s)), s)"
  by (simp add: ask_def exec)

lemma HANDLER_run [exec, prim]:
  "conns s a = Some c \<Longrightarrow> HANDLER a s = Some (Ok (id_map s (c_handler_id c)), s)"
  by (simp add: HANDLER_def exec)

lemma if_HANDLER_run:
  "conns s a = Some c \<Longrightarrow> if_HANDLER a m s =
     (case id_map s (c_handler_id c) of None \<Rightarrow> Some (Ok (), s) | Some p \<Rightarrow> m p s)"
  by (simp add: if_HANDLER_def exec split: option.split)

lemma fd_of_run [exec, prim]:
  "fd_of c s = (case c_fd c of
      None \<Rightarrow> Some (Throw (Undef Uninitialised), s) | Some fd \<Rightarrow> Some (Ok fd, s))"
  by (simp add: fd_of_def exec split: option.split)

lemma set_conn_simps [simp]:
  "conns (set_conn a x s) = (conns s)(a := x)" "history (set_conn a x s) = history s"
  "id_map (set_conn a x s) = id_map s" "id_counter (set_conn a x s) = id_counter s"
  "next_addr (set_conn a x s) = next_addr s"
  "set_conn a x (set_conn a y s) = set_conn a x s"
  by (simp_all add: set_conn_def)

lemma emit_simps [simp]:
  "conns (emit e s) = conns s" "history (emit e s) = e # history s"
  "id_map (emit e s) = id_map s" "id_counter (emit e s) = id_counter s"
  "next_addr (emit e s) = next_addr s"
  by (simp_all add: emit_def)

lemma set_conn_emit: "set_conn a x (emit e s) = emit e (set_conn a x s)"
  by (simp add: set_conn_def emit_def)

lemma reg_simps [simp]:
  "conns (reg_add a s) = conns s" "history (reg_add a s) = history s"
  "next_addr (reg_add a s) = next_addr s"
  "conns (reg_erase i s) = conns s" "history (reg_erase i s) = history s"
  "next_addr (reg_erase i s) = next_addr s"
  "id_counter (reg_add a s) = id_counter s + 1"
  "id_map (reg_add a s) = (id_map s)(id_counter s \<mapsto> a)"
  "id_counter (reg_erase i s) = id_counter s" "id_map (reg_erase i s) = (id_map s)(i := None)"
  by (simp_all add: reg_add_def reg_erase_def)

lemma total_access [total_intro]:
  "total (get_conn a)" "total (upd_conn a g)" "total (out e)" "total (ask f)" "total (fd_of c)"
  by (simp_all add: total_def exec split: option.split)

lemma total_HANDLER [total_intro]: "total (HANDLER a)"
  by (simp add: HANDLER_def total_intro)

lemma total_new_conn [total_intro]: "total (new_conn E i pm)"
  by (simp add: new_conn_def total_intro)

lemma total_conn_close [total_intro]: "total (conn_close E a)"
  by (simp add: conn_close_def close_attempt_def close_fd_def close_tx_def close_rx_def total_intro)

lemma total_delete_conn [total_intro]: "total (delete_conn E p)"
  by (simp add: delete_conn_def total_intro)

lemma total_sys_write [total_intro]: "total (sys_write E c d)"
  by (simp add: sys_write_def total_intro)

lemma total_enqueue [total_intro]: "total (enqueue E a d)"
  by (simp add: enqueue_def total_intro)

lemma total_if_HANDLER [total_intro]: "(\<And>p. total (m p)) \<Longrightarrow> total (if_HANDLER a m)"
  by (simp add: if_HANDLER_def total_intro)

lemma quiet_access [quiet_intro]:
  "quiet (get_conn a)" "quiet (upd_conn a g)" "quiet (out e)" "quiet (ask f)" "quiet (fd_of c)"
  "quiet (HANDLER a)" "quiet (RObject p)" "quiet (destroy_RObject i)" "quiet (getObjectById i)"
  by (auto simp: quiet_def exec fd_of_def HANDLER_def split: option.splits if_splits)

lemma quiet_conn_close [quiet_intro]: "quiet (conn_close E a)"
  unfolding conn_close_def close_attempt_def close_fd_def close_tx_def close_rx_def
  by (intro quiet_intro)

lemma quiet_delete_conn [quiet_intro]: "quiet (delete_conn E p)"
  unfolding delete_conn_def by (intro quiet_intro)

lemma quiet_new_conn [quiet_intro]: "quiet (new_conn E i pm)"
  unfolding new_conn_def by (intro quiet_intro)

lemma quiet_establish_connection [quiet_intro]:
  "(\<And>p. quiet (acct p)) \<Longrightarrow> quiet (establish_connection E acct a ip port)"
  unfolding establish_connection_def by (intro quiet_intro) simp_all

lemma quiet_if_HANDLER [quiet_intro]: "(\<And>p. quiet (m p)) \<Longrightarrow> quiet (if_HANDLER a m)"
  unfolding if_HANDLER_def by (intro quiet_intro)

lemma quiet_conn_write [quiet_intro]:
  "(\<And>p. quiet (rdErr p a)) \<Longrightarrow> quiet (conn_write E rdErr a d)"
  unfolding conn_write_def sys_write_def enqueue_def Let_def by (intro quiet_intro) simp_all

section \<open>What closing does\<close>

text \<open>
  The whole effect of \<^verbatim>\<open>close()\<close>: the calls it makes, whether it closed the
  descriptor, and the connection it leaves.
\<close>

definition shuts_fd :: "('b, 'e) net_env_scheme \<Rightarrow> 'b conn \<Rightarrow> int \<Rightarrow> event list \<Rightarrow> bool" where
  "shuts_fd E c fd tr \<longleftrightarrow> 0 < fd \<and> ne_input_error E
     (if c_attempt c \<noteq> 0 then ProxyCancel (c_attempt c) # tr else tr) fd = 0"

definition closing_history ::
  "('b, 'e) net_env_scheme \<Rightarrow> 'b conn \<Rightarrow> int \<Rightarrow> event list \<Rightarrow> event list" where
  "closing_history E c fd tr =
     (if c_rx c \<noteq> 0 then [InputRemove (c_rx c)] else []) @
     (if c_tx c \<noteq> 0 then [InputRemove (c_tx c)] else []) @
     (if shuts_fd E c fd tr then [SysClose (obj_id c) fd] else []) @
     (if c_attempt c \<noteq> 0 then [ProxyCancel (c_attempt c)] else []) @ tr"

definition closed :: "('b, 'e) net_env_scheme \<Rightarrow> 'b conn \<Rightarrow> int \<Rightarrow> event list \<Rightarrow> 'b conn" where
  "closed E c fd tr =
     c\<lparr>invalid := True, c_attempt := 0, c_txbuf := None, c_tx := 0, c_rx := 0,
       c_fd := Some (if shuts_fd E c fd tr then 0 else fd)\<rparr>"

lemma conn_close_run:
  assumes "conns s a = Some c" and "c_fd c = Some fd"
  shows "conn_close E a s = Some (Ok (),
    s\<lparr>conns := (conns s)(a \<mapsto> closed E c fd (history s)),
      history := closing_history E c fd (history s)\<rparr>)"
  using assms
  by (cases s; cases c)
    (simp add: conn_close_def close_attempt_def close_fd_def close_tx_def close_rx_def exec
      setInvalid_def set_conn_def emit_def closed_def closing_history_def shuts_fd_def)

lemma conn_close_OkD:
  assumes "conn_close E a s = Some (Ok u, s')"
  obtains c fd where "conns s a = Some c" and "c_fd c = Some fd"
    and "s' = s\<lparr>conns := (conns s)(a \<mapsto> closed E c fd (history s)),
      history := closing_history E c fd (history s)\<rparr>"
proof (cases "conns s a")
  case None
  then show ?thesis using assms by (simp add: conn_close_def exec)
next
  case (Some c)
  show ?thesis
  proof (cases "c_fd c")
    case None
    with Some assms show ?thesis
      by (simp add: conn_close_def close_attempt_def close_fd_def exec setInvalid_def set_conn_def
          emit_def split: if_splits)
  next
    case (Some fd)
    show ?thesis
      using that [OF \<open>conns s a = Some c\<close> Some] assms
        conn_close_run [OF \<open>conns s a = Some c\<close> Some, of E]
      by simp
  qed
qed

lemma watches_closing:
  "watches (closing_history E c fd tr) h =
     (if h \<noteq> 0 \<and> (h = c_rx c \<or> h = c_tx c) then None else watches tr h)"
  by (auto simp: closing_history_def)

lemma sent_closing: "sent (closing_history E c fd tr) i = sent tr i"
  by (simp add: closing_history_def)

end
