(* ===== verification/Session.thy ===== *)
theory Session
  imports Requests Conn
begin

text \<open>
  The class \<^verbatim>\<open>RediffBolConn\<close> (\<^verbatim>\<open>rediffbol.h\<close>, \<^verbatim>\<open>rediffbol.cpp\<close>): the state of a
  session, its construction and destruction, the login sequence, error handling, and
  the functions that send a packet.  The parsers are in other theories.
\<close>

section \<open>State\<close>

text \<open>
  The constructor does not set \<^verbatim>\<open>roomlist\<close>, so it has a third kind of value.  The
  members \<^verbatim>\<open>roster\<close>, \<^verbatim>\<open>group\<close> and \<^verbatim>\<open>iplist\<close> are never used by the source.
\<close>

datatype roomlist_ptr = RoomlistUnset | RoomlistNull | Roomlist int

record sess = robject +
  s_account :: nat
  s_connection :: "nat option"
  s_userAgent :: string
  s_keep_alive_counter :: int
  s_keep_alive_timer :: int
  s_connection_state :: int
  s_nickname :: "string \<rightharpoonup> string"
  s_status_text :: "string \<rightharpoonup> string"
  s_groups :: "string set"
  s_session :: string
  s_visibleIP :: string
  s_server_userId :: string
  s_server_displayname :: string
  s_server_nickname :: string
  s_roomlist :: roomlist_ptr

text \<open>
  Accounts are numbers, and each has the one \<^verbatim>\<open>PurpleConnection\<close> libpurple gave it;
  \<open>proto_data\<close> is that object's field of the same name.
\<close>

record 'b world = "'b net" +
  sessions :: "nat \<Rightarrow> sess option"
  proto_data :: "nat \<Rightarrow> nat option"

definition set_sess :: "nat \<Rightarrow> sess option \<Rightarrow> 'b world \<Rightarrow> 'b world" where
  "set_sess p x w = w\<lparr>sessions := (sessions w)(p := x)\<rparr>"

definition set_proto :: "nat \<Rightarrow> nat option \<Rightarrow> 'b world \<Rightarrow> 'b world" where
  "set_proto acct x w = w\<lparr>proto_data := (proto_data w)(acct := x)\<rparr>"

definition get_sess :: "nat \<Rightarrow> ('b world, sess) M" where
  "get_sess p = (\<lambda>w. case sessions w p of
      None \<Rightarrow> Some (Throw (Undef UseAfterFree), w)
    | Some s \<Rightarrow> Some (Ok s, w))"

definition upd_sess :: "nat \<Rightarrow> (sess \<Rightarrow> sess) \<Rightarrow> ('b world, unit) M" where
  "upd_sess p g = bindM (get_sess p) (\<lambda>s. modM (set_sess p (Some (g s))))"

text \<open>\<^verbatim>\<open>assert(!isInvalid())\<close>.\<close>

definition assert_valid :: "nat \<Rightarrow> ('b world, unit) M" where
  "assert_valid p = bindM (get_sess p) (\<lambda>s. ensure (\<not> isInvalid s) AssertFail)"

text \<open>The pointer \<^verbatim>\<open>connection\<close>, dereferenced.\<close>

definition the_connection :: "nat \<Rightarrow> ('b world, nat) M" where
  "the_connection p =
     bindM (get_sess p) (\<lambda>s. case s_connection s of
       None \<Rightarrow> raise (Undef NullDeref)
     | Some a \<Rightarrow> ret a)"

text \<open>\<^verbatim>\<open>string x = p\<close> for a C string that may be null, and \<^verbatim>\<open>SAFE(p)\<close>.\<close>

definition string_of_ptr :: "string option \<Rightarrow> ('s, string) M" where
  "string_of_ptr x = (case x of None \<Rightarrow> raise (Undef NullDeref) | Some s \<Rightarrow> ret s)"

definition SAFE :: "string option \<Rightarrow> string" where
  "SAFE x = (case x of None \<Rightarrow> [] | Some s \<Rightarrow> s)"

section \<open>Construction, errors, destruction\<close>

definition new_session :: "nat \<Rightarrow> ('b world, nat) M" where
  "new_session acct =
     bindM (getM next_addr) (\<lambda>p.
     thenM (modM (\<lambda>w. w\<lparr>next_addr := Suc p\<rparr>)) (
     bindM (RObject p) (\<lambda>r.
     thenM (modM (set_sess p (Some
       \<lparr>invalid = invalid r, obj_id = obj_id r, s_account = acct, s_connection = None,
        s_userAgent = DEFAULT_USERAGENT, s_keep_alive_counter = 0, s_keep_alive_timer = 0,
        s_connection_state = 0, s_nickname = Map.empty, s_status_text = Map.empty,
        s_groups = {}, s_session = [], s_visibleIP = [], s_server_userId = [],
        s_server_displayname = [], s_server_nickname = [], s_roomlist = RoomlistUnset\<rparr>))) (
     thenM (modM (set_proto acct (Some p)))
     (ret p)))))"

definition softDestroy :: "'b env \<Rightarrow> nat \<Rightarrow> ('b world, unit) M" where
  "softDestroy E p =
     bindM (get_sess p) (\<lambda>s.
     if isInvalid s then ret ()
     else
       thenM (whenM (s_keep_alive_timer s \<noteq> 0) (
         thenM (out (TimeoutRemove (s_keep_alive_timer s)))
         (upd_sess p (\<lambda>s. s\<lparr>s_keep_alive_timer := 0\<rparr>)))) (
       thenM (upd_sess p setInvalid) (
       thenM (delete_conn E (s_connection s))
       (upd_sess p (\<lambda>s. s\<lparr>s_connection := None\<rparr>)))))"

definition setStateNetworkError :: "'b env \<Rightarrow> nat \<Rightarrow> reason \<Rightarrow> string \<Rightarrow> ('b world, unit) M" where
  "setStateNetworkError E p reason msg =
     thenM (assert_valid p) (
     thenM (softDestroy E p) (
     bindM (get_sess p) (\<lambda>s.
     out (ConnectionError (s_account s) reason (c_str (msg @ [CHR 0x0A]))))))"

definition destroy_session :: "'b env \<Rightarrow> nat \<Rightarrow> ('b world, unit) M" where
  "destroy_session E p =
     thenM (softDestroy E p) (
     bindM (get_sess p) (\<lambda>s.
     thenM (delete_conn E (s_connection s)) (
     thenM (upd_sess p (\<lambda>s. s\<lparr>s_connection := None\<rparr>)) (
     thenM (destroy_RObject (obj_id s))
     (modM (set_sess p None))))))"

definition shutdown :: "'b env \<Rightarrow> nat \<Rightarrow> ('b world, bool) M" where
  "shutdown E p = thenM (softDestroy E p) (ret True)"

definition getProxyAccount :: "nat \<Rightarrow> ('b world, nat) M" where
  "getProxyAccount p = bindM (get_sess p) (\<lambda>s. ret (s_account s))"

section \<open>The virtual functions that report a failure\<close>

definition readError :: "'b env \<Rightarrow> nat \<Rightarrow> nat \<Rightarrow> ('b world, unit) M" where
  "readError E p conn =
     thenM (assert_valid p)
     (setStateNetworkError E p NetworkError ''Failed reading through socket'')"

definition connectionError :: "'b env \<Rightarrow> nat \<Rightarrow> string \<Rightarrow> nat \<Rightarrow> ('b world, unit) M" where
  "connectionError E p error conn =
     thenM (assert_valid p)
     (setStateNetworkError E p NetworkError ''Failed to connect to server'')"

section \<open>Login\<close>

definition GATEKEEPER :: string where
  "GATEKEEPER = ''gatekeeper.rediff.com''"

definition startLogin :: "'b env \<Rightarrow> nat \<Rightarrow> ('b world, unit) M" where
  "startLogin E p =
     bindM (get_sess p) (\<lambda>s.
     bindM (new_conn E (obj_id s) 1) (\<lambda>a.
     thenM (upd_sess p (\<lambda>s. s\<lparr>s_connection := Some a\<rparr>)) (
     bindM (establish_connection E getProxyAccount a GATEKEEPER 1863) (\<lambda>ok.
     whenM (\<not> ok) (
       thenM (setStateNetworkError E p NetworkError
         (''Unable to initiate connection to GK'' @ [CHR 0x0A])) (
       bindM (get_sess p) (\<lambda>s.
       thenM (delete_conn E (s_connection s))
       (upd_sess p (\<lambda>s. s\<lparr>s_connection := None\<rparr>)))))))))"

definition startLoginOver80 :: "'b env \<Rightarrow> nat \<Rightarrow> ('b world, unit) M" where
  "startLoginOver80 E p =
     bindM (get_sess p) (\<lambda>s.
     bindM (new_conn E (obj_id s) 2) (\<lambda>a.
     thenM (upd_sess p (\<lambda>s. s\<lparr>s_connection := Some a\<rparr>)) (
     bindM (establish_connection E getProxyAccount a GATEKEEPER 80) (\<lambda>ok.
     whenM (\<not> ok) (
       thenM (setStateNetworkError E p NetworkError
         (''Unable to initiate port 80 connection to GK'' @ [CHR 0x0A]))
       (upd_sess p (\<lambda>s. s\<lparr>s_connection := None\<rparr>)))))))"

definition closeCallback :: "'b env \<Rightarrow> nat \<Rightarrow> nat \<Rightarrow> ('b world, unit) M" where
  "closeCallback E p conn =
     bindM (get_conn conn) (\<lambda>c.
     thenM (whenM (c_parse_mode c = 1) (startLoginOver80 E p)) (
     thenM (assert_valid p)
     (setStateNetworkError E p NetworkError ''The server has closed the connection'')))"

text \<open>
  The end of \<^verbatim>\<open>parseGkResponse\<close>: a connection to the chat server takes the place of
  the one to the gatekeeper.
\<close>

definition switch_server :: "'b env \<Rightarrow> nat \<Rightarrow> string \<Rightarrow> int \<Rightarrow> ('b world, unit) M" where
  "switch_server E p ip port =
     bindM (get_sess p) (\<lambda>s.
     bindM (new_conn E (obj_id s) 0) (\<lambda>n.
     bindM (establish_connection E getProxyAccount n ip port) (\<lambda>ok.
     bindM (if ok then ret (Some n)
            else thenM (setStateNetworkError E p NetworkError
                   (''Failed to initiate connection to CS'' @ [CHR 0x0A])) (
                 thenM (delete_conn E (Some n)) (ret None))) (\<lambda>newconn.
     bindM (the_connection p) (\<lambda>a.
     thenM (conn_close E a) (
     bindM (the_connection p) (\<lambda>a.
     thenM (delete_conn E (Some a))
     (upd_sess p (\<lambda>s. s\<lparr>s_connection := newconn\<rparr>)))))))))"

section \<open>Sending\<close>

text \<open>\<^verbatim>\<open>connection->write(...)\<close>.\<close>

definition sess_write :: "'b env \<Rightarrow> nat \<Rightarrow> string \<Rightarrow> ('b world, unit) M" where
  "sess_write E p data = bindM (the_connection p) (\<lambda>a. conn_write E (readError E) a data)"

definition connectToGK :: "'b env \<Rightarrow> nat \<Rightarrow> ('b world, unit) M" where
  "connectToGK E p =
     bindM (get_sess p) (\<lambda>s. sess_write E p (connectToGK_packet (s_userAgent s)))"

definition connectToCS :: "'b env \<Rightarrow> nat \<Rightarrow> ('b world, unit) M" where
  "connectToCS E p =
     bindM (get_sess p) (\<lambda>s.
     bindM (string_of_ptr (ev_username E (s_account s))) (\<lambda>name.
     bindM (string_of_ptr (ev_password E (s_account s))) (\<lambda>pass.
     sess_write E p (connectToCS_packet (fixEmail name) pass))))"

definition gotConnected :: "'b env \<Rightarrow> nat \<Rightarrow> ('b world, unit) M" where
  "gotConnected E p =
     bindM (the_connection p) (\<lambda>a.
     bindM (get_conn a) (\<lambda>c.
     if c_parse_mode c = 1 then connectToGK E p
     else if c_parse_mode c = 2 then sess_write E p http_gk_request
     else connectToCS E p))"

definition sendMessage :: "'b env \<Rightarrow> nat \<Rightarrow> string \<Rightarrow> string \<Rightarrow> ('b world, unit) M" where
  "sendMessage E p to message =
     thenM (assert_valid p) (
     bindM (get_sess p) (\<lambda>s.
     let message = c_str (tx_unescape E (c_str message)) in
     bindM (string_of_ptr (ev_username E (s_account s))) (\<lambda>sender.
     bindM (encode_from_iso E ''Dialog'' ''UTF-16BE'') (\<lambda>fonttype.
     bindM (encode_from_iso E message ''UTF-16BE'') (\<lambda>message.
     sess_write E p (sendMessage_packet (fixEmail sender) to fonttype message))))))"

definition sendKeepAlive :: "'b env \<Rightarrow> nat \<Rightarrow> ('b world, unit) M" where
  "sendKeepAlive E p =
     thenM (assert_valid p) (
     bindM (get_sess p) (\<lambda>s.
     thenM (ensure (s_keep_alive_counter s < int_max) (Undef SignedOverflow)) (
     thenM (upd_sess p (\<lambda>s. s\<lparr>s_keep_alive_counter := s_keep_alive_counter s + 1\<rparr>))
     (sess_write E p (sendKeepAlive_packet (s_keep_alive_counter s))))))"

text \<open>The timer's callback; the result tells the event loop to call again.\<close>

definition keep_alive_timer :: "'b env \<Rightarrow> int \<Rightarrow> ('b world, bool) M" where
  "keep_alive_timer E data =
     bindM (getObjectById data) (\<lambda>x. case x of
       None \<Rightarrow> ret False
     | Some p \<Rightarrow> thenM (sendKeepAlive E p) (ret True))"

definition sendOfflineMessagesRequest :: "'b env \<Rightarrow> nat \<Rightarrow> ('b world, unit) M" where
  "sendOfflineMessagesRequest E p =
     thenM (assert_valid p) (sess_write E p sendOfflineMessagesRequest_packet)"

definition deleteOfflineMessage :: "'b env \<Rightarrow> nat \<Rightarrow> string \<Rightarrow> ('b world, unit) M" where
  "deleteOfflineMessage E p msgid =
     thenM (assert_valid p) (sess_write E p (deleteOfflineMessage_packet msgid))"

definition setStatus :: "'b env \<Rightarrow> nat \<Rightarrow> string \<Rightarrow> string \<Rightarrow> ('b world, unit) M" where
  "setStatus E p status message =
     thenM (assert_valid p) (
     let message = (if message = [] then status else message) in
     case status_code status of
       None \<Rightarrow> ret ()
     | Some code \<Rightarrow> sess_write E p (setStatus_packet code message))"

definition sendGetAddRequest :: "'b env \<Rightarrow> nat \<Rightarrow> ('b world, unit) M" where
  "sendGetAddRequest E p =
     thenM (assert_valid p) (sess_write E p sendGetAddRequest_packet)"

definition sendDenyAddRequest ::
  "'b env \<Rightarrow> nat \<Rightarrow> string \<Rightarrow> string \<Rightarrow> string \<Rightarrow> string \<Rightarrow> string \<Rightarrow> ('b world, unit) M" where
  "sendDenyAddRequest E p localid reqId sfrom from2 grp =
     sess_write E p (sendDenyAddRequest_packet reqId)"

definition sendAcceptAddRequest ::
  "'b env \<Rightarrow> nat \<Rightarrow> string \<Rightarrow> string \<Rightarrow> string \<Rightarrow> string \<Rightarrow> string \<Rightarrow> ('b world, unit) M" where
  "sendAcceptAddRequest E p localid reqId sfrom from2 grp =
     thenM (assert_valid p)
     (sess_write E p (sendAcceptAddRequest_packet localid reqId sfrom grp))"

text \<open>The two callbacks of an authorization request; \<open>ar\<close> holds a raw pointer.\<close>

definition contact_add_request_authorize_cb :: "'b env \<Rightarrow> add_request \<Rightarrow> ('b world, unit) M" where
  "contact_add_request_authorize_cb E ar =
     sendAcceptAddRequest E (ar_conn ar) (ar_localid ar) (ar_reqId ar) (ar_from ar) (ar_from2 ar)
       ''Friends''"

definition contact_add_request_deny_cb :: "'b env \<Rightarrow> add_request \<Rightarrow> ('b world, unit) M" where
  "contact_add_request_deny_cb E ar =
     sendDenyAddRequest E (ar_conn ar) (ar_localid ar) (ar_reqId ar) (ar_from ar) (ar_from2 ar)
       ''Friends''"

definition sendDelContactRequest :: "'b env \<Rightarrow> nat \<Rightarrow> string \<Rightarrow> string \<Rightarrow> ('b world, unit) M" where
  "sendDelContactRequest E p idToDel grp =
     sess_write E p (sendDelContactRequest_packet (fixEmail idToDel) grp)"

definition sendAddRemoveGroupRequest :: "'b env \<Rightarrow> nat \<Rightarrow> string \<Rightarrow> bool \<Rightarrow> ('b world, unit) M" where
  "sendAddRemoveGroupRequest E p groupname Remove =
     bindM (get_sess p) (\<lambda>s.
     let username = fixEmail (SAFE (ev_username E (s_account s))) in
     sess_write E p (sendAddRemoveGroupRequest_packet Remove username groupname))"

definition sendAddContactRequest :: "'b env \<Rightarrow> nat \<Rightarrow> string \<Rightarrow> string \<Rightarrow> ('b world, unit) M" where
  "sendAddContactRequest E p remoteid grp =
     bindM (get_sess p) (\<lambda>s.
     thenM (whenM (grp \<notin> s_groups s) (sendAddRemoveGroupRequest E p grp False)) (
     let localid = fixEmail (SAFE (ev_username E (s_account s))) in
     sess_write E p (sendAddContactRequest_packet localid grp (fixEmail remoteid))))"

definition sendTypingNotification :: "'b env \<Rightarrow> nat \<Rightarrow> string \<Rightarrow> ('b world, unit) M" where
  "sendTypingNotification E p to =
     bindM (get_sess p) (\<lambda>s.
     bindM (string_of_ptr (ev_username E (s_account s))) (\<lambda>username.
     let name = fixEmail username; packet = sendTypingNotification_packet name to in
     thenM (ensure (len packet = to_size (to_int32 (sendTypingNotification_size name to)))
       AssertFail)
     (sess_write E p packet)))"

definition sendChangeBuddyGroupRequest ::
  "'b env \<Rightarrow> nat \<Rightarrow> string \<Rightarrow> string \<Rightarrow> string \<Rightarrow> ('b world, unit) M" where
  "sendChangeBuddyGroupRequest E p buddy from_group to_group =
     bindM (get_sess p) (\<lambda>s.
     thenM (whenM (to_group \<notin> s_groups s) (sendAddRemoveGroupRequest E p to_group False)) (
     let username = fixEmail (SAFE (ev_username E (s_account s))) in
     sess_write E p (sendChangeBuddyGroupRequest_packet username buddy from_group to_group)))"

section \<open>Queries\<close>

text \<open>\<^verbatim>\<open>map[key]\<close> adds an empty string where the key is missing.\<close>

definition map_index :: "(string \<rightharpoonup> string) \<Rightarrow> string \<Rightarrow> string" where
  "map_index m k = (case m k of None \<Rightarrow> [] | Some v \<Rightarrow> v)"

definition getBuddyNickname :: "nat \<Rightarrow> string \<Rightarrow> ('b world, string) M" where
  "getBuddyNickname p buddy =
     bindM (get_sess p) (\<lambda>s.
     let v = map_index (s_nickname s) buddy in
     thenM (upd_sess p (\<lambda>s. s\<lparr>s_nickname := (s_nickname s)(buddy \<mapsto> v)\<rparr>))
     (ret v))"

definition getBuddyStatusMessage :: "nat \<Rightarrow> string \<Rightarrow> ('b world, string) M" where
  "getBuddyStatusMessage p buddy =
     bindM (get_sess p) (\<lambda>s.
     let v = map_index (s_status_text s) buddy in
     thenM (upd_sess p (\<lambda>s. s\<lparr>s_status_text := (s_status_text s)(buddy \<mapsto> v)\<rparr>))
     (ret v))"

text \<open>What the server said of the account; \<^verbatim>\<open>const\<close> member functions.\<close>

definition getServerUserId :: "sess \<Rightarrow> string" where
  "getServerUserId s = s_server_userId s"

definition getServerDisplayName :: "sess \<Rightarrow> string" where
  "getServerDisplayName s = s_server_displayname s"

definition getServerNickname :: "sess \<Rightarrow> string" where
  "getServerNickname s = s_server_nickname s"

definition getSessionString :: "sess \<Rightarrow> string" where
  "getSessionString s = s_session s"

definition getVisibleIP :: "sess \<Rightarrow> string" where
  "getVisibleIP s = s_visibleIP s"

lemmas getters [simp] = getServerUserId_def getServerDisplayName_def getServerNickname_def
  getSessionString_def getVisibleIP_def

section \<open>Running the calls\<close>

lemma get_sess_run [exec, prim]:
  "get_sess p w = (case sessions w p of
      None \<Rightarrow> Some (Throw (Undef UseAfterFree), w) | Some s \<Rightarrow> Some (Ok s, w))"
  by (simp add: get_sess_def)

lemma upd_sess_run [exec, prim]:
  "upd_sess p g w = (case sessions w p of
      None \<Rightarrow> Some (Throw (Undef UseAfterFree), w)
    | Some s \<Rightarrow> Some (Ok (), set_sess p (Some (g s)) w))"
  by (simp add: upd_sess_def exec split: option.split)

lemma assert_valid_run [exec, prim]:
  "assert_valid p w = (case sessions w p of
      None \<Rightarrow> Some (Throw (Undef UseAfterFree), w)
    | Some s \<Rightarrow> Some (if invalid s then Throw AssertFail else Ok (), w))"
  by (simp add: assert_valid_def isInvalid_def exec split: option.split)

lemma the_connection_run [exec, prim]:
  "the_connection p w = (case sessions w p of
      None \<Rightarrow> Some (Throw (Undef UseAfterFree), w)
    | Some s \<Rightarrow> (case s_connection s of
        None \<Rightarrow> Some (Throw (Undef NullDeref), w) | Some a \<Rightarrow> Some (Ok a, w)))"
  by (simp add: the_connection_def exec split: option.split)

lemma get_sess_then: "sessions w p = Some s \<Longrightarrow> bindM (get_sess p) f w = f s w"
  by (simp add: exec)

lemma upd_sess_then:
  "sessions w p = Some s \<Longrightarrow> thenM (upd_sess p g) k w = k (set_sess p (Some (g s)) w)"
  by (simp add: exec)

lemma set_sess_simps [simp]:
  "sessions (set_sess p x w) = (sessions w)(p := x)" "conns (set_sess p x w) = conns w"
  "history (set_sess p x w) = history w" "id_map (set_sess p x w) = id_map w"
  "id_counter (set_sess p x w) = id_counter w" "next_addr (set_sess p x w) = next_addr w"
  "proto_data (set_sess p x w) = proto_data w"
  "set_sess p x (set_sess p y w) = set_sess p x w"
  by (simp_all add: set_sess_def)

lemma set_proto_simps [simp]:
  "proto_data (set_proto a x w) = (proto_data w)(a := x)" "conns (set_proto a x w) = conns w"
  "history (set_proto a x w) = history w" "id_map (set_proto a x w) = id_map w"
  "id_counter (set_proto a x w) = id_counter w" "next_addr (set_proto a x w) = next_addr w"
  "sessions (set_proto a x w) = sessions w"
  by (simp_all add: set_proto_def)

lemma sessions_net_simps [simp]:
  "sessions (set_conn a c w) = sessions w" "sessions (emit e w) = sessions w"
  "sessions (reg_add p w) = sessions w" "sessions (reg_erase i w) = sessions w"
  "proto_data (set_conn a c w) = proto_data w" "proto_data (emit e w) = proto_data w"
  "proto_data (reg_add p w) = proto_data w" "proto_data (reg_erase i w) = proto_data w"
  by (simp_all add: set_conn_def emit_def reg_add_def reg_erase_def)

lemma string_of_ptr_run [exec, prim]:
  "string_of_ptr x w = (case x of
      None \<Rightarrow> Some (Throw (Undef NullDeref), w) | Some s \<Rightarrow> Some (Ok s, w))"
  by (simp add: string_of_ptr_def exec split: option.split)

lemma getProxyAccount_run [exec, prim]:
  "getProxyAccount p w = (case sessions w p of
      None \<Rightarrow> Some (Throw (Undef UseAfterFree), w) | Some s \<Rightarrow> Some (Ok (s_account s), w))"
  by (simp add: getProxyAccount_def exec split: option.split)

lemma total_sess_access [total_intro]:
  "total (get_sess p)" "total (upd_sess p g)" "total (assert_valid p)" "total (the_connection p)"
  "total (string_of_ptr x)"
  by (auto simp: total_def exec string_of_ptr_def split: option.split)

lemma quiet_sess_access [quiet_intro]:
  "quiet (get_sess p)" "quiet (upd_sess p g)" "quiet (assert_valid p)" "quiet (the_connection p)"
  "quiet (string_of_ptr x)" "quiet (getProxyAccount p)"
  by (auto simp: quiet_def exec split: option.splits if_splits)

lemma quiet_softDestroy [quiet_intro]: "quiet (softDestroy E p)"
  unfolding softDestroy_def by (intro quiet_intro)

lemma quiet_setStateNetworkError [quiet_intro]: "quiet (setStateNetworkError E p r m)"
  unfolding setStateNetworkError_def by (intro quiet_intro)

lemma quiet_login [quiet_intro]:
  "quiet (startLogin E p)" "quiet (startLoginOver80 E p)" "quiet (switch_server E p ip port)"
  "quiet (readError E p a)" "quiet (connectionError E p e a)" "quiet (closeCallback E p a)"
  unfolding startLogin_def startLoginOver80_def switch_server_def readError_def
    connectionError_def closeCallback_def
  by (intro quiet_intro)+

end
