(* ===== verification/ChatRoom.thy ===== *)
theory ChatRoom
  imports Session
begin

text \<open>
  \<^verbatim>\<open>rediffbol_chatroom.cpp\<close>: asking for the list of chat rooms and reading the
  answer.  The parsers of the protocol run on a packet and the world; \<open>onL\<close> is a read
  from the packet, \<open>onR\<close> anything else.
\<close>

section \<open>The request\<close>

text \<open>
  \<^verbatim>\<open>sendGetChatRoomsRequest\<close> reads \<^verbatim>\<open>roomlist\<close> after it has written.
\<close>

definition sendGetChatRoomsRequest :: "'b env \<Rightarrow> nat \<Rightarrow> ('b world, int) M" where
  "sendGetChatRoomsRequest E p =
     thenM (sess_write E p sendGetChatRoomsRequest_packet) (
     bindM (get_sess p) (\<lambda>s.
     thenM (case s_roomlist s of
         RoomlistUnset \<Rightarrow> raise (Undef Uninitialised)
       | RoomlistNull \<Rightarrow> ret ()
       | Roomlist rl \<Rightarrow>
           thenM (out (RoomlistUnref rl))
           (upd_sess p (\<lambda>s. s\<lparr>s_roomlist := RoomlistNull\<rparr>))) (
     bindM (ask (ev_roomlist_new E)) (\<lambda>rl.
     thenM (out (RoomlistNew (s_account s) rl)) (
     thenM (out (RoomlistSetFields rl [''room'', ''id''])) (
     thenM (out (RoomlistInProgress rl True)) (
     thenM (upd_sess p (\<lambda>s. s\<lparr>s_roomlist := Roomlist rl\<rparr>))
     (ret rl))))))))"

section \<open>The response\<close>

text \<open>\<^verbatim>\<open>struct ChatRoom\<close> and \<^verbatim>\<open>struct Lobby\<close>.\<close>

record chat_room =
  cr_number :: int
  cr_occupants :: int
  cr_name :: string

record lobby = chat_room +
  lb_subrooms :: "chat_room list"

text \<open>The pointer \<^verbatim>\<open>roomlist\<close> as libpurple is given it; \<open>0\<close> is null.\<close>

definition roomlist_handle :: "nat \<Rightarrow> ('b world, int) M" where
  "roomlist_handle p =
     bindM (get_sess p) (\<lambda>s. case s_roomlist s of
       RoomlistUnset \<Rightarrow> raise (Undef Uninitialised)
     | RoomlistNull \<Rightarrow> ret 0
     | Roomlist rl \<Rightarrow> ret rl)"

definition add_room :: "nat \<Rightarrow> string \<Rightarrow> ('b world, unit) M" where
  "add_room p roomname =
     bindM (roomlist_handle p) (\<lambda>rl.
     out (RoomlistAddRoom rl (c_str roomname) [c_str roomname, c_str roomname]))"

definition read_room :: "nat \<Rightarrow> string \<Rightarrow> lobby \<Rightarrow> (msgbuf \<times> 'b world, lobby) M" where
  "read_room p roomname lobby =
     bindM (onL readInt) (\<lambda>number.
     bindM (onL readInt) (\<lambda>occupants.
     thenM (ensure (cint (cr_occupants lobby + occupants)) (Undef SignedOverflow)) (
     thenM (onR (add_room p roomname))
     (ret (lobby\<lparr>cr_occupants := cr_occupants lobby + occupants,
        lb_subrooms := lb_subrooms lobby
          @ [\<lparr>cr_number = number, cr_occupants = occupants, cr_name = roomname\<rparr>]\<rparr>)))))"

definition read_lobby ::
  "nat \<Rightarrow> lobby list \<times> int \<Rightarrow> (msgbuf \<times> 'b world, lobby list \<times> int) M" where
  "read_lobby p acc =
     bindM (onL readString) (\<lambda>lobbyname.
     bindM (onL readInt) (\<lambda>code.
     bindM (onL readString) (\<lambda>roomname.
     bindM (onL readInt) (\<lambda>numrooms.
     thenM (onR (add_room p roomname)) (
     bindM (forM numrooms (read_room p roomname)
         \<lparr>cr_number = 0, cr_occupants = 0, cr_name = lobbyname, lb_subrooms = []\<rparr>) (\<lambda>lobby.
     thenM (ensure (cint (snd acc + cr_occupants lobby)) (Undef SignedOverflow))
     (ret (fst acc @ [lobby], snd acc + cr_occupants lobby))))))))"

definition parseChatRoomsResponse :: "nat \<Rightarrow> (msgbuf \<times> 'b world, unit) M" where
  "parseChatRoomsResponse p =
     bindM (onL readInt) (\<lambda>payloadsize.
     thenM (onL (narrow payloadsize)) (
     bindM (onL readInt) (\<lambda>numlobbies.
     bindM (forM numlobbies (read_lobby p) ([], 0)) (\<lambda>_.
     onR (bindM (roomlist_handle p) (\<lambda>rl. out (RoomlistInProgress rl False)))))))"

end
