(* ===== verification/Avatar.thy ===== *)
theory Avatar
  imports Session
begin

text \<open>
  \<^verbatim>\<open>avatar.cpp\<close>: a buddy's picture is fetched in two steps, a key and then the image.
  The callbacks get the session's number, not a pointer.  A null \<^verbatim>\<open>url_text\<close> is
  \<open>None\<close>.
\<close>

definition loadAvatar :: "nat \<Rightarrow> string \<Rightarrow> ('b world, unit) M" where
  "loadAvatar p name =
     bindM (get_sess p) (\<lambda>s.
     let url = ''http://avatars.rediff.com/avatars/getkey.asp?username='' @ name
       @ ''&secret=rediffbol&login='' @ getServerUserId s @ ''&session_id='' @ getSessionString s
     in out (FetchUrl (c_str url) AvatarKey (obj_id s) name))"

definition loadAvatarCompleted :: "nat \<Rightarrow> string \<Rightarrow> string \<Rightarrow> ('b world, unit) M" where
  "loadAvatarCompleted p name avatar_data =
     bindM (get_sess p) (\<lambda>s.
     if isInvalid s then ret ()
     else out (SetBuddyIcon (s_account s) (c_str name) avatar_data))"

definition load_avatar_callback :: "int \<Rightarrow> string \<Rightarrow> string option \<Rightarrow> ('b world, unit) M" where
  "load_avatar_callback i name url_text =
     bindM (getObjectById i) (\<lambda>x. case x of
       None \<Rightarrow> ret ()
     | Some p \<Rightarrow>
       (case url_text of
          None \<Rightarrow> ret ()
        | Some d \<Rightarrow>
          bindM (get_sess p) (\<lambda>s.
          if isInvalid s then ret () else loadAvatarCompleted p name d)))"

definition load_avatar_key_callback :: "int \<Rightarrow> string \<Rightarrow> string option \<Rightarrow> ('b world, unit) M" where
  "load_avatar_key_callback i name url_text =
     (case url_text of
        None \<Rightarrow> ret ()
      | Some r_key \<Rightarrow>
        if length r_key < 6 then ret ()
        else
          let r_key = takeWhile (\<lambda>c. c \<noteq> CHR ''<'') (drop 5 r_key);
              url = ''http://imavatars.rediff.com/avatars/getmasque_new.asp?type=image&username=''
                @ name @ ''&key='' @ r_key
          in out (FetchUrl (c_str url) AvatarImage i name))"

end
