(* ===== verification/Responses.thy ===== *)
theory Responses
  imports ChatRoom Avatar
begin

text \<open>
  The parsers of \<^verbatim>\<open>rediffbol.cpp\<close>, from \<^verbatim>\<open>readCallback\<close> down: the framing loop, the
  gatekeeper's answer, the answer to the login, and every packet of the chat server.
  A parser runs on a packet and the world; the connection's own buffer is reached
  through the connection, which a parser may delete.
\<close>

section \<open>The gatekeeper's answer\<close>

text \<open>\<^verbatim>\<open>while (iss >> s) res.push_back(s)\<close>: the words between white space.\<close>

function words :: "string \<Rightarrow> string list" where
  "words s =
     (let t = dropWhile is_space s in
      if t = [] then []
      else takeWhile (\<lambda>c. \<not> is_space c) t # words (dropWhile (\<lambda>c. \<not> is_space c) t))"
  by pat_completeness auto

termination words
proof (relation "measure length")
  fix s t :: string
  assume t: "t = dropWhile is_space s" and ne: "t \<noteq> []"
  then obtain c u where cu: "t = c # u" by (meson neq_Nil_conv)
  then have "\<not> is_space c" using t by (metis hd_dropWhile list.discI list.sel(1))
  then have "length (dropWhile (\<lambda>c. \<not> is_space c) t) < length t"
    using length_dropWhile_le [of "\<lambda>c. \<not> is_space c" u] by (simp add: cu)
  also have "\<dots> \<le> length s" using length_dropWhile_le t by blast
  finally show "(dropWhile (\<lambda>c. \<not> is_space c) t, s) \<in> measure length" by simp
qed simp

declare words.simps [simp del]

definition chat_servers :: "string \<Rightarrow> string list" where
  "chat_servers dirs = words (map (\<lambda>c. if c = CHR '','' then CHR '' '' else c) dirs)"

text \<open>\<^verbatim>\<open>cap[cp] += val\<close>.\<close>

definition read_capability :: "(string \<rightharpoonup> string) \<Rightarrow> (msgbuf \<times> 'b world, string \<rightharpoonup> string) M" where
  "read_capability cap =
     bindM (onL readString) (\<lambda>cp.
     bindM (onL readString) (\<lambda>val.
     ret (cap(cp \<mapsto> map_index cap cp @ val))))"

definition parseGkResponse :: "'b env \<Rightarrow> nat \<Rightarrow> (msgbuf \<times> 'b world, unit) M" where
  "parseGkResponse E p =
     bindM (onL readInt32) (\<lambda>type.
     bindM (onL readInt32) (\<lambda>subtype.
     bindM (onL readInt32) (\<lambda>payloadsize.
     bindM (onL readInt32) (\<lambda>numentries.
     bindM (forM numentries (\<lambda>cap.
       bindM (onL readInt32) (\<lambda>subentries. forM subentries read_capability cap)) Map.empty) (\<lambda>cap.
     let res = chat_servers (map_index cap CAP_DIR) in
     thenM (ensure (res \<noteq> []) (Undef DivByZero)) (
     bindM (onR (ask (ev_rand E))) (\<lambda>r.
     let ip = res ! nat (to_size r mod int (length res));
         f = str_find (CHR '':'') ip in
     case substr ip (to_size (f + 1)) (2 ^ 64 - 1) of
       None \<Rightarrow> raise OutOfRange
     | Some port_str \<Rightarrow>
       (case atoi port_str of
          None \<Rightarrow> raise (Undef SignedOverflow)
        | Some port \<Rightarrow>
          onR (switch_server E p (take (nat (to_size f)) ip) port)))))))))"

section \<open>The answer to the login\<close>

definition read_pair :: "unit \<Rightarrow> (msgbuf \<times> 'b world, unit) M" where
  "read_pair u = bindM (onL readString) (\<lambda>_. bindM (onL readString) (\<lambda>_. ret ()))"

definition read_string_int :: "string list \<Rightarrow> (msgbuf \<times> 'b world, string list) M" where
  "read_string_int acc =
     bindM (onL readString) (\<lambda>name. bindM (onL readInt) (\<lambda>_. ret (acc @ [name])))"

text \<open>A buddy the client does not know yet is added, with its group.\<close>

definition add_member :: "'b env \<Rightarrow> nat \<Rightarrow> string \<Rightarrow> unit \<Rightarrow> (msgbuf \<times> 'b world, unit) M" where
  "add_member E p groupname2 u =
     bindM (onL readString) (\<lambda>membername.
     onR (
       bindM (get_sess p) (\<lambda>s.
       bindM (ask (\<lambda>tr. ev_find_buddy E tr (s_account s) (c_str membername))) (\<lambda>buddy.
       whenM (\<not> buddy) (
         bindM (ask (\<lambda>tr. ev_find_group E tr (c_str groupname2))) (\<lambda>g.
         thenM (whenM (\<not> g) (out (NewGroup (c_str groupname2))))
         (out (AddBuddy (s_account s) (c_str membername) (c_str groupname2)))))))))"

definition read_group :: "'b env \<Rightarrow> nat \<Rightarrow> unit \<Rightarrow> (msgbuf \<times> 'b world, unit) M" where
  "read_group E p u =
     bindM (onL readString) (\<lambda>groupname1.
     bindM (onL readString) (\<lambda>groupname2.
     bindM (onL readInt) (\<lambda>groupentries.
     thenM (onR (upd_sess p (\<lambda>s. s\<lparr>s_groups := insert groupname1 (s_groups s)\<rparr>)))
     (forM groupentries (add_member E p groupname2) ()))))"

text \<open>What the client does once it is logged in.\<close>

definition login_complete :: "'b env \<Rightarrow> nat \<Rightarrow> string list \<Rightarrow> ('b world, unit) M" where
  "login_complete E p roster =
     bindM (get_sess p) (\<lambda>s.
     bindM (ask (\<lambda>tr. ev_status_message E tr (s_account s))) (\<lambda>msg.
     bindM (ask (\<lambda>tr. ev_status_id E tr (s_account s))) (\<lambda>status_id.
     thenM (setStatus E p (SAFE status_id) (SAFE msg)) (
     thenM (sendKeepAlive E p) (
     thenM (sendOfflineMessagesRequest E p) (
     thenM (sendGetAddRequest E p) (
     thenM (eachM roster (loadAvatar p)) (
     bindM (get_sess p) (\<lambda>s.
     bindM (ask (ev_timeout_add E)) (\<lambda>h.
     thenM (out (TimeoutAdd h 30 (obj_id s)))
     (upd_sess p (\<lambda>s. s\<lparr>s_keep_alive_timer := h\<rparr>))))))))))))"

definition login_failed :: "'b env \<Rightarrow> nat \<Rightarrow> int \<Rightarrow> ('b world, unit) M" where
  "login_failed E p errorcode =
     (if errorcode = 1
      then setStateNetworkError E p AuthenticationFailed ''Authentication failed''
      else setStateNetworkError E p NetworkError
        (''CS Login error '' @ dec_of_int errorcode @ [CHR 0x0A]))"

text \<open>
  The roster, telephone numbers, and the lists of blocked and allowed contacts; only
  the roster is used later.
\<close>

definition read_contact_lists :: "(msgbuf \<times> 'b world, string list) M" where
  "read_contact_lists =
     bindM (onL readInt) (\<lambda>rosternum.
     bindM (forM rosternum read_string_int []) (\<lambda>roster.
     bindM (onL readInt) (\<lambda>telnums.
     thenM (forM telnums read_pair ()) (
     bindM (onL readInt) (\<lambda>blockednum.
     bindM (forM blockednum read_string_int []) (\<lambda>blocked.
     bindM (onL readInt) (\<lambda>allowednum.
     bindM (forM allowednum read_string_int []) (\<lambda>allowed.
     ret roster))))))))"

definition login_accepted :: "'b env \<Rightarrow> nat \<Rightarrow> (msgbuf \<times> 'b world, unit) M" where
  "login_accepted E p =
     thenM (onR (upd_sess p (\<lambda>s. s\<lparr>s_connection_state := 2\<rparr>))) (
     bindM (onL readString) (\<lambda>name0.
     bindM (onL readString) (\<lambda>name1.
     bindM (onL readString) (\<lambda>name2.
     thenM (onR (upd_sess p (\<lambda>s. s\<lparr>s_server_userId := name0, s_server_displayname := name1,
       s_server_nickname := name2\<rparr>))) (
     bindM (onL readInt) (\<lambda>code1.
     bindM (onL readInt) (\<lambda>code2.
     bindM (onL readInt) (\<lambda>numprops.
     thenM (forM numprops read_pair ()) (
     bindM read_contact_lists (\<lambda>roster.
     thenM (onL (seek 6)) (
     bindM (onL readString) (\<lambda>sess.
     thenM (onR (upd_sess p (\<lambda>s. s\<lparr>s_session := sess\<rparr>))) (
     bindM (onL readString) (\<lambda>ip.
     thenM (onR (upd_sess p (\<lambda>s. s\<lparr>s_visibleIP := ip\<rparr>))) (
     bindM (onL readInt) (\<lambda>code3.
     bindM (onL readByte) (\<lambda>code4.
     bindM (onL readString) (\<lambda>unknown.
     bindM (onL readString) (\<lambda>code6.
     bindM (onL readString) (\<lambda>code7.
     bindM (onL readInt) (\<lambda>numgroups.
     bindM (onR (get_sess p)) (\<lambda>s.
     thenM (onR (out (UpdateProgress (s_account s) ''Connected'' 1 2))) (
     thenM (onR (out (SetConnected (s_account s)))) (
     thenM (forM numgroups (read_group E p) ()) (
     bindM (onL readString) (\<lambda>last.
     onR (login_complete E p roster)))))))))))))))))))))))))))"

definition parseCSLoginResponse :: "'b env \<Rightarrow> nat \<Rightarrow> (msgbuf \<times> 'b world, unit) M" where
  "parseCSLoginResponse E p =
     bindM (onR (get_sess p)) (\<lambda>s.
     if 2 \<le> s_connection_state s then ret ()
     else
       bindM (onL readInt) (\<lambda>payloadsize.
       bindM (onL left) (\<lambda>l.
       thenM (ensure (l = payloadsize) AssertFail) (
       bindM (onL readInt) (\<lambda>errorcode.
       if errorcode \<noteq> 0 then onR (login_failed E p errorcode)
       else login_accepted E p)))))"

section \<open>Contacts and messages\<close>

definition getStatusFromID :: "int \<Rightarrow> string" where
  "getStatusFromID status =
     (if status = 2 then ''away''
      else if status = 3 then ''busy''
      else if status = 1 then ''online''
      else ''offline'')"

definition read_contact :: "nat \<Rightarrow> unit \<Rightarrow> (msgbuf \<times> 'b world, unit) M" where
  "read_contact p u =
     bindM (onL readString) (\<lambda>name1.
     bindM (onL readString) (\<lambda>name2.
     bindM (onL readString) (\<lambda>name3.
     bindM (onL readInt) (\<lambda>code1.
     bindM (onL readInt) (\<lambda>status.
     bindM (onL readString) (\<lambda>msg.
     bindM (onL readInt) (\<lambda>code3.
     bindM (onL readString) (\<lambda>version.
     onR (bindM (get_sess p) (\<lambda>s.
       out (GotUserStatus (s_account s) (c_str name1) (getStatusFromID status) None)))))))))))"

definition parseCSContacts :: "nat \<Rightarrow> (msgbuf \<times> 'b world, unit) M" where
  "parseCSContacts p =
     thenM (onR (assert_valid p)) (
     bindM (onL readInt) (\<lambda>payloadsize.
     bindM (onL readInt) (\<lambda>numcontacts.
     thenM (forM numcontacts (read_contact p) ()) (
     bindM (onL readString) (\<lambda>last. ret ())))))"

definition parseContactStatusChange :: "'b env \<Rightarrow> nat \<Rightarrow> (msgbuf \<times> 'b world, unit) M" where
  "parseContactStatusChange E p =
     thenM (onR (assert_valid p)) (
     bindM (onL readInt) (\<lambda>payloadsize.
     thenM (onL (narrow payloadsize)) (
     bindM (onL readString) (\<lambda>name1.
     bindM (onL readInt) (\<lambda>status.
     bindM (onL readString) (\<lambda>msg.
     bindM (onL readInt) (\<lambda>code3.
     bindM (onL readString) (\<lambda>version.
     onR (
       bindM (get_sess p) (\<lambda>s.
       thenM (out (GotUserStatus (s_account s) (c_str name1) (getStatusFromID status)
         (Some (c_str msg)))) (
       thenM (upd_sess p (\<lambda>s. s\<lparr>s_status_text := (s_status_text s)(name1 \<mapsto> msg)\<rparr>)) (
       bindM (ask (\<lambda>tr. ev_find_buddy E tr (s_account s) (c_str name1))) (\<lambda>b.
       whenM b (out (UpdateBuddyStatus (s_account s) (c_str name1))))))))))))))))"

text \<open>A text handed to the user as a message.\<close>

definition serv_got_im :: "nat \<Rightarrow> string \<Rightarrow> string \<Rightarrow> int \<Rightarrow> ('b world, unit) M" where
  "serv_got_im p sender msg tm =
     bindM (get_sess p) (\<lambda>s. out (GotIm (s_account s) (c_str sender) (c_str msg) tm))"

definition read_offline_message :: "'b env \<Rightarrow> nat \<Rightarrow> unit \<Rightarrow> (msgbuf \<times> 'b world, unit) M" where
  "read_offline_message E p u =
     bindM (onL readString) (\<lambda>msgid.
     bindM (onL readString) (\<lambda>sender.
     bindM (onL readInt) (\<lambda>msgsize.
     bindM (onL (readMessageBuffer msgsize)) (\<lambda>msgbuf.
     bindM (onL readInt) (\<lambda>msgtype.
     bindM (onL readInt) (\<lambda>timestamp.
     thenM (
       if msgtype = 0 then
         bindM (onR (with_local msgbuf (onL (bindM getLength readStringn)))) (\<lambda>msg.
         bindM (onR (ask (ev_time E))) (\<lambda>now.
         onR (serv_got_im p sender msg now)))
       else
         bindM (onR (with_local msgbuf (onL (parseChatMessage E)))) (\<lambda>final_message.
         onR (serv_got_im p sender final_message timestamp)))
     (onR (deleteOfflineMessage E p msgid))))))))"

definition parseOfflineMessages :: "'b env \<Rightarrow> nat \<Rightarrow> (msgbuf \<times> 'b world, unit) M" where
  "parseOfflineMessages E p =
     bindM (onL readInt) (\<lambda>payloadsize.
     thenM (onL (narrow payloadsize)) (
     bindM (onL readInt) (\<lambda>numentries.
     forM numentries (read_offline_message E p) ())))"

definition parseTextMessage :: "'b env \<Rightarrow> nat \<Rightarrow> (msgbuf \<times> 'b world, unit) M" where
  "parseTextMessage E p =
     bindM (onL readInt) (\<lambda>payloadsize.
     thenM (onL (narrow payloadsize)) (
     bindM (onL readString) (\<lambda>senderstr.
     bindM (onL readString) (\<lambda>recipient.
     bindM (onL readInt) (\<lambda>subpayloadsize.
     thenM (onL (narrow subpayloadsize)) (
     bindM (onL (parseChatMessage E)) (\<lambda>final_message.
     bindM (onR (ask (ev_time E))) (\<lambda>now.
     onR (serv_got_im p senderstr final_message now)))))))))"

definition parseNewMailsResponse :: "'b env \<Rightarrow> nat \<Rightarrow> (msgbuf \<times> 'b world, unit) M" where
  "parseNewMailsResponse E p =
     bindM (onL readInt) (\<lambda>payloadsize.
     thenM (onL (narrow payloadsize)) (
     bindM (onL readString) (\<lambda>str.
     case atoi str of
       None \<Rightarrow> raise (Undef SignedOverflow)
     | Some num \<Rightarrow>
       onR (bindM (get_sess p) (\<lambda>s.
         out (NotifyEmails (s_account s) num (SAFE (ev_username E (s_account s)))))))))"

definition request_authorization :: "nat \<Rightarrow> add_request \<Rightarrow> ('b world, unit) M" where
  "request_authorization p ar =
     bindM (get_sess p) (\<lambda>s. out (RequestAuthorization (s_account s) ar))"

definition parseContactAddRequest :: "nat \<Rightarrow> (msgbuf \<times> 'b world, unit) M" where
  "parseContactAddRequest p =
     bindM (onL readInt) (\<lambda>size.
     thenM (onL (narrow size)) (
     bindM (onL readString) (\<lambda>localid.
     bindM (onL readString) (\<lambda>reqId.
     bindM (onL readString) (\<lambda>sfrom.
     bindM (onL readString) (\<lambda>from2.
     onR (request_authorization p \<lparr>ar_conn = p, ar_localid = localid, ar_from = sfrom,
       ar_from2 = from2, ar_reqId = reqId\<rparr>)))))))"

definition read_add_request :: "nat \<Rightarrow> unit \<Rightarrow> (msgbuf \<times> 'b world, unit) M" where
  "read_add_request p u =
     bindM (onL readString) (\<lambda>reqId.
     bindM (onL readString) (\<lambda>sfrom.
     bindM (onL readInt) (\<lambda>code.
     bindM (onL readString) (\<lambda>addreqto.
     onR (request_authorization p \<lparr>ar_conn = p, ar_localid = addreqto, ar_from = sfrom,
       ar_from2 = [], ar_reqId = reqId\<rparr>)))))"

definition parseOfflineAddContactResponse :: "nat \<Rightarrow> (msgbuf \<times> 'b world, unit) M" where
  "parseOfflineAddContactResponse p =
     bindM (onL readInt) (\<lambda>size.
     thenM (onL (narrow size)) (
     bindM (onL readInt) (\<lambda>numentries.
     if numentries = 0 then ret ()
     else forM numentries (read_add_request p) ())))"

definition parseGetContactIdResponse :: "(msgbuf \<times> 'b world, unit) M" where
  "parseGetContactIdResponse =
     bindM (onL readInt) (\<lambda>size.
     thenM (onL (narrow size)) (
     bindM (onL readString) (\<lambda>contactid. ret ())))"

definition parseMessageFromMobileUser :: "'b env \<Rightarrow> nat \<Rightarrow> (msgbuf \<times> 'b world, unit) M" where
  "parseMessageFromMobileUser E p =
     bindM (onL readInt) (\<lambda>size.
     thenM (onL (narrow size)) (
     bindM (onL readString) (\<lambda>to.
     bindM (onL readString) (\<lambda>sfrom.
     bindM (onL readString) (\<lambda>message.
     bindM (onR (ask (ev_time E))) (\<lambda>now.
     onR (serv_got_im p sfrom message now)))))))"

definition parseTypingNoficiationResponse :: "nat \<Rightarrow> (msgbuf \<times> 'b world, unit) M" where
  "parseTypingNoficiationResponse p =
     bindM (onL readInt) (\<lambda>size.
     thenM (onL (narrow size)) (
     bindM (onL readString) (\<lambda>sfrom.
     bindM (onL readString) (\<lambda>to.
     onR (bindM (get_sess p) (\<lambda>s. out (GotTyping (s_account s) (c_str sfrom) 60)))))))"

section \<open>One packet of the chat server\<close>

definition skip_payload :: "(msgbuf \<times> 'b world, unit) M" where
  "skip_payload =
     bindM (onL readInt) (\<lambda>size.
     bindM (onL (readStringn size)) (\<lambda>packet. ret ()))"

definition parse_type1 :: "'b env \<Rightarrow> nat \<Rightarrow> (msgbuf \<times> 'b world, unit) M" where
  "parse_type1 E p =
     bindM (onL getLength) (\<lambda>n.
     if n = 12 then bindM (onL mb_peek) (\<lambda>_. ret ())
     else
       bindM (onL readInt) (\<lambda>subtype.
       bindM (onR (get_sess p)) (\<lambda>s.
       if subtype = 0 \<and> s_connection_state s < 2 then on_copy (parseCSLoginResponse E p)
       else if subtype = 1 \<or> subtype = 0 then parseOfflineMessages E p
       else if subtype = 2 then parseOfflineAddContactResponse p
       else if subtype = 7 then parseChatRoomsResponse p
       else if subtype = 14 then parseGetContactIdResponse
       else skip_payload)))"

definition logged_in_elsewhere :: string where
  "logged_in_elsewhere = ''It seems like you'' @ [CHR 0x27] @ ''ve logged in elsewhere :(''"

definition parse_type3 :: "'b env \<Rightarrow> nat \<Rightarrow> (msgbuf \<times> 'b world, unit) M" where
  "parse_type3 E p =
     bindM (onL readString) (\<lambda>header.
     bindM (onL readString) (\<lambda>cmd.
     if cmd = ''Contacts'' then parseCSContacts p
     else if cmd = ''NewMailCount'' then parseNewMailsResponse E p
     else if cmd = ''ContactStatusChange'' then skip_payload
     else if cmd = ''ContactStatusChange2'' then parseContactStatusChange E p
     else if cmd = ''ContactAddRequest'' then parseContactAddRequest p
     else if cmd = ''TextMessage'' then parseTextMessage E p
     else if cmd = ''MessageFromMobileUser'' then parseMessageFromMobileUser E p
     else if cmd = ''TypingNotify'' then parseTypingNoficiationResponse p
     else if cmd = ''Disconnect'' then onR (setStateNetworkError E p NameInUse logged_in_elsewhere)
     else skip_payload))"

definition parse_type2 :: "(msgbuf \<times> 'b world, unit) M" where
  "parse_type2 =
     bindM (onL readInt32) (\<lambda>code.
     bindM (onL readInt32) (\<lambda>size.
     bindM (onL readString) (\<lambda>message.
     bindM (onL readString) (\<lambda>reason.
     bindM (onL readInt) (\<lambda>code2. ret ())))))"

definition parseCSResponse :: "'b env \<Rightarrow> nat \<Rightarrow> (msgbuf \<times> 'b world, unit) M" where
  "parseCSResponse E p =
     thenM (onR (assert_valid p)) (
     bindM (onL readInt) (\<lambda>type.
     if type = 1 then parse_type1 E p
     else if type = 3 then parse_type3 E p
     else if type = 2 then parse_type2
     else ret ()))"

section \<open>The framing loop\<close>

text \<open>An operation on the buffer of a connection, reached through a reference.\<close>

definition on_awaiting :: "nat \<Rightarrow> (msgbuf, 'a) M \<Rightarrow> ('b world, 'a) M" where
  "on_awaiting a m =
     bindM (get_conn a) (\<lambda>c. \<lambda>w. case m (c_awaiting c) of
       None \<Rightarrow> None
     | Some (r, b') \<Rightarrow> Some (r, set_conn a (Some (c\<lparr>c_awaiting := b'\<rparr>)) w))"

text \<open>
  One turn of the loop; the result tells whether there is another.  \<open>p\<close> is \<^verbatim>\<open>this\<close>,
  \<open>a\<close> the connection whose buffer is read.
\<close>

definition read_frame :: "nat \<Rightarrow> ('b world, msgbuf option) M" where
  "read_frame a =
     bindM (on_awaiting a peekInt32) (\<lambda>n.
     thenM (ensure (cint (n + 4)) (Undef SignedOverflow)) (
     bindM (on_awaiting a left) (\<lambda>l.
     if l < n + 4 then ret None
     else
       bindM (on_awaiting a readInt32) (\<lambda>size.
       bindM (on_awaiting a (readMessageBuffer size)) (\<lambda>buf.
       thenM (on_awaiting a (bindM mb_tail (\<lambda>t. modM (\<lambda>_. t))))
       (ret (Some buf)))))))"

definition dispatch :: "'b env \<Rightarrow> nat \<Rightarrow> msgbuf \<Rightarrow> ('b world, bool) M" where
  "dispatch E p buf =
     bindM (the_connection p) (\<lambda>k.
     bindM (get_conn k) (\<lambda>c.
     if c_parse_mode c \<noteq> 0
     then thenM (with_local buf (parseGkResponse E p)) (ret False)
     else thenM (with_local buf (parseCSResponse E p)) (ret True)))"

definition loop_turn :: "'b env \<Rightarrow> nat \<Rightarrow> nat \<Rightarrow> ('b world, bool) M" where
  "loop_turn E p a =
     bindM (get_sess p) (\<lambda>s.
     if s_connection s = None then ret False
     else
       bindM (on_awaiting a left) (\<lambda>l.
       if l < 4 then ret False
       else
         bindM (read_frame a) (\<lambda>f. case f of
           None \<Rightarrow> ret False
         | Some buf \<Rightarrow> dispatch E p buf)))"

partial_function (option) read_loop ::
  "'b env \<Rightarrow> nat \<Rightarrow> nat \<Rightarrow> 'b world \<Rightarrow> (unit outcome \<times> 'b world) option" where
  "read_loop E p a w =
     bindM (loop_turn E p a) (\<lambda>more. (\<lambda>w'. if more then read_loop E p a w' else ret () w')) w"

definition goodreply :: string where
  "goodreply = ''HTTP/1.1 200 OK''"

text \<open>The answer of the gatekeeper's HTTP server.\<close>

definition http_reply :: "'b env \<Rightarrow> nat \<Rightarrow> nat \<Rightarrow> ('b world, unit) M" where
  "http_reply E p a =
     bindM (get_conn a) (\<lambda>c.
     let resp = getRawBuffer (c_awaiting c) in
     thenM (upd_conn a (\<lambda>c. c\<lparr>c_awaiting := MessageBuffer []\<rparr>)) (
     thenM (if take (length goodreply) resp = goodreply then connectToGK E p
            else setStateNetworkError E p NetworkError
              (''Problem with Gatekeeper HTTP'' @ [CHR 0x0A]))
     (upd_conn a (\<lambda>c. c\<lparr>c_parse_mode := 1\<rparr>))))"

definition readCallback :: "'b env \<Rightarrow> nat \<Rightarrow> nat \<Rightarrow> ('b world, unit) M" where
  "readCallback E p a =
     catch_Overflow
       (bindM (get_sess p) (\<lambda>s.
        thenM (ensure (s_connection s = Some a) AssertFail) (
        bindM (get_conn a) (\<lambda>c.
        thenM (whenM (c_parse_mode c = 2) (http_reply E p a))
        (read_loop E p a)))))
       (bindM (on_awaiting a getLength) (\<lambda>_.
        on_awaiting a mb_reset))"

section \<open>The handler\<close>

definition RediffBolConn_handler :: "'b env \<Rightarrow> ('b world) handler" where
  "RediffBolConn_handler E =
     \<lparr>h_gotConnected = gotConnected E, h_readCallback = readCallback E,
      h_connectionError = connectionError E, h_readError = readError E,
      h_closeCallback = closeCallback E, h_getProxyAccount = getProxyAccount\<rparr>"

end
