(* ===== verification/Packets.thy ===== *)
theory Packets
  imports Responses
begin

text \<open>
  What the parsers make of well-formed packets.  A packet is built with the writers of
  \<open>MessageBuffer\<close>; the lemmas read it back through the contract \<open>codec\<close> and give the
  parser's whole effect on the world.
\<close>

section \<open>Reading from a packet\<close>

definition yields :: "'s \<Rightarrow> ('s, 'a) M \<Rightarrow> 'a \<Rightarrow> 's \<Rightarrow> bool" where
  "yields b m x b' \<longleftrightarrow> m b = Some (Ok x, b')"

text \<open>The buffer whose remaining bytes are \<open>r\<close>, as the parsers leave it.\<close>

definition at :: "msgbuf \<Rightarrow> string \<Rightarrow> bool" where
  "at b r \<longleftrightarrow> mb_wf b \<and> rest b = r"

lemma at_new: "length s < 2 ^ 31 \<Longrightarrow> at (MessageBuffer s) s"
  by (simp add: at_def mb_wf_new)

lemma readInt_at:
  assumes "at b (intToDWord i @ r)" and "cint i"
  obtains b' where "yields b readInt i b'" and "at b' r"
proof -
  let ?b = "mb_adv (int (length (intToDWord i))) b"
  have b: "mb_wf b" "rest b = intToDWord i @ r" using assms(1) by (simp_all add: at_def)
  have "readInt b = Some (Ok i, ?b)"
    using int_codec.get_put [OF b(1) assms(2) b(2)] by (simp add: readInt_def)
  then have "yields b readInt i ?b" by (simp add: yields_def)
  moreover have "at ?b r" using int_codec.get_then(2,3) [OF b(1) assms(2) b(2)] by (simp add: at_def)
  ultimately show ?thesis by (rule that)
qed

lemma mb_wf_length_rest: "mb_wf b \<Longrightarrow> length (rest b) < 2 ^ 31"
  by (auto simp: mb_wf_def rest_def)

text \<open>A length-prefixed body, entered with \<^verbatim>\<open>buffer = buffer.readMessageBuffer(readInt())\<close>.\<close>

lemma enter_at:
  assumes b: "at b (put_string body @ r)"
  shows "bindM (onL readInt) (\<lambda>n. thenM (onL (narrow n)) k) (b, w) = k (MessageBuffer body, w)"
    and "at (MessageBuffer body) body"
proof -
  have len: "length body < 2 ^ 31" using mb_wf_length_rest [of b] b by (simp add: at_def)
  then have c: "cint (len body)" by (simp add: cint_def)
  have "at b (intToDWord (len body) @ (body @ r))" using b by (simp add: put_string_def)
  then obtain b1 where b1: "yields b readInt (len body) b1"
    "at b1 (body @ r)"
    using readInt_at [OF _ c] by blast
  have n: "yields b1 (narrow (len body)) () (MessageBuffer body)"
    using b1(2) by (simp add: at_def narrow_run c yields_def)
  then show "bindM (onL readInt) (\<lambda>n. thenM (onL (narrow n)) k) (b, w) = k (MessageBuffer body, w)"
    using b1(1) by (simp add: yields_def bindM_run thenM_run onL_run)
  show "at (MessageBuffer body) body" by (rule at_new [OF len])
qed

lemma at_str_ok: "at b (put_string s @ r) \<Longrightarrow> str_ok s"
  using mb_wf_length_rest [of b] by (simp add: at_def str_ok_def)

text \<open>So a string at the front of a buffer is always short enough to be read back.\<close>

lemma string_at:
  assumes "at b (put_string s @ r)"
  obtains b' where "yields b readString s b'" and "at b' r"
proof -
  let ?b = "mb_adv (int (length (put_string s))) b"
  have b: "mb_wf b" "rest b = put_string s @ r" using assms by (simp_all add: at_def)
  note ok = at_str_ok [OF assms]
  have "readString b = Some (Ok s, ?b)" by (rule str_codec.get_put [OF b(1) ok b(2)])
  then have "yields b readString s ?b" by (simp add: yields_def)
  moreover have "at ?b r" using str_codec.get_then(2,3) [OF b(1) ok b(2)] by (simp add: at_def)
  ultimately show ?thesis by (rule that)
qed

text \<open>At the end of a buffer nothing need follow.\<close>

lemma string_at_end:
  assumes "at b (put_string s)"
  obtains b' where "yields b readString s b'" and "at b' []"
  using string_at [of b s "[]"] assms by auto

section \<open>Parsers that consume a prefix\<close>

text \<open>
  \<open>eats r w m a r' w'\<close>: on any buffer whose remaining bytes are \<open>r\<close>, in the world \<open>w\<close>, the
  parser \<open>m\<close> returns \<open>a\<close>, and then \<open>r'\<close> remains and the world is \<open>w'\<close>.  The rules follow the
  text of a parser, so that applying them one after the other reads a packet built with
  the writers and computes the effect.
\<close>

named_theorems yields_rules "calls whose result is known"
named_theorems eats_rules "parsers that consume a known prefix"

definition eats ::
  "string \<Rightarrow> 'w \<Rightarrow> (msgbuf \<times> 'w, 'a) M \<Rightarrow> 'a \<Rightarrow> string \<Rightarrow> 'w \<Rightarrow> bool" where
  "eats r w m a r' w' \<longleftrightarrow>
     (\<forall>b. at b r \<longrightarrow> (\<exists>b'. m (b, w) = Some (Ok a, (b', w')) \<and> at b' r'))"

lemma eatsD:
  assumes "eats r w m a r' w'" and "at b r"
  obtains b' where "m (b, w) = Some (Ok a, (b', w'))" and "at b' r'"
  using assms by (auto simp: eats_def)

lemma eats_result: "eats r w m a r' w' \<Longrightarrow> w' = w'' \<Longrightarrow> eats r w m a r' w''"
  by simp

text \<open>A packet handed to a parser by value.\<close>

lemma eats_packet:
  "eats r w m a r' w' \<Longrightarrow> length r < 2 ^ 31 \<Longrightarrow> with_local (MessageBuffer r) m w = Some (Ok a, w')"
  by (erule eatsD [OF _ at_new]) (simp_all add: with_local_run)

subsection \<open>Calls on the world\<close>

lemma yields_bindM [yields_rules]:
  "yields w m a w1 \<Longrightarrow> yields w1 (f a) x w2 \<Longrightarrow> yields w (bindM m f) x w2"
  by (simp add: yields_def bindM_run)

lemma yields_thenM [yields_rules]:
  "yields w m a w1 \<Longrightarrow> yields w1 k x w2 \<Longrightarrow> yields w (thenM m k) x w2"
  unfolding thenM_def by (rule yields_bindM)

lemma yields_whenM [yields_rules]:
  "(c \<Longrightarrow> yields w m () w') \<Longrightarrow> yields w (whenM c m) () (if c then w' else w)"
  by (simp add: yields_def whenM_run)

lemma yields_basic [yields_rules]:
  "yields w (ret a) a w"
  "c \<Longrightarrow> yields w (ensure c ex) () w"
  "yields w (ask f) (f (history w)) w"
  "yields w (out ev) () (emit ev w)"
  "sessions w p = Some s \<Longrightarrow> yields w (get_sess p) s w"
  "sessions w p = Some s \<Longrightarrow> yields w (upd_sess p g) () (set_sess p (Some (g s)) w)"
  "sessions w p = Some s \<Longrightarrow> \<not> invalid s \<Longrightarrow> yields w (assert_valid p) () w"
  by (simp_all add: yields_def ret_run ensure_run ask_run out_run get_sess_run upd_sess_run
      assert_valid_run)

subsection \<open>Control\<close>

lemma eats_ret [eats_rules]: "eats r w (ret a) a r w"
  by (auto simp: eats_def ret_run)

lemma eats_ensure [eats_rules]: "c \<Longrightarrow> eats r w (ensure c e) () r w"
  by (auto simp: eats_def ensure_run)

lemma eats_bindM [eats_rules]:
  assumes "eats r w m a r1 w1" and "eats r1 w1 (f a) x r2 w2"
  shows "eats r w (bindM m f) x r2 w2"
  unfolding eats_def
proof (intro allI impI)
  fix b assume "at b r"
  then obtain b1 where b1: "m (b, w) = Some (Ok a, (b1, w1))" "at b1 r1" by (rule eatsD [OF assms(1)])
  obtain b2 where "f a (b1, w1) = Some (Ok x, (b2, w2))" "at b2 r2" by (rule eatsD [OF assms(2) b1(2)])
  then show "\<exists>b'. bindM m f (b, w) = Some (Ok x, (b', w2)) \<and> at b' r2" by (simp add: bindM_run b1)
qed

lemma eats_thenM [eats_rules]:
  "eats r w m a r1 w1 \<Longrightarrow> eats r1 w1 k x r2 w2 \<Longrightarrow> eats r w (thenM m k) x r2 w2"
  unfolding thenM_def by (rule eats_bindM)

lemma eats_onR [eats_rules]: "yields w m a w' \<Longrightarrow> eats r w (onR m) a r w'"
  by (auto simp: eats_def yields_def onR_run)

lemma eats_onL: "(\<And>b. at b r \<Longrightarrow> \<exists>b'. yields b m a b' \<and> at b' r') \<Longrightarrow> eats r w (onL m) a r' w"
  unfolding eats_def yields_def by (auto simp: onL_run) (metis option.simps(5) case_prod_conv)

subsection \<open>How a parser ends\<close>

text \<open>
  The outcome of a parser and its effect, where the rest of the buffer does not matter:
  parsing proceeds with \<open>eats\<close> up to the last call, which may throw.
\<close>

definition ends :: "string \<Rightarrow> 'w \<Rightarrow> (msgbuf \<times> 'w, 'a) M \<Rightarrow> 'a outcome \<Rightarrow> 'w \<Rightarrow> bool" where
  "ends r w m x w' \<longleftrightarrow> (\<forall>b. at b r \<longrightarrow> (\<exists>b'. m (b, w) = Some (x, (b', w'))))"

lemma ends_eats: "eats r w m a r' w' \<Longrightarrow> ends r w m (Ok a) w'"
  unfolding eats_def ends_def by blast

lemma ends_bindM:
  assumes "eats r w m a r1 w1" and "ends r1 w1 (f a) x w'"
  shows "ends r w (bindM m f) x w'"
  unfolding ends_def
proof (intro allI impI)
  fix b assume "at b r"
  then obtain b1 where b1: "m (b, w) = Some (Ok a, (b1, w1))" "at b1 r1" by (rule eatsD [OF assms(1)])
  then show "\<exists>b'. bindM m f (b, w) = Some (x, (b', w'))"
    using assms(2) by (simp add: ends_def bindM_run)
qed

lemma ends_thenM: "eats r w m a r1 w1 \<Longrightarrow> ends r1 w1 k x w' \<Longrightarrow> ends r w (thenM m k) x w'"
  unfolding thenM_def by (rule ends_bindM)

lemma ends_onR: "m w = Some (x, w') \<Longrightarrow> ends r w (onR m) x w'"
  by (simp add: ends_def onR_run)

lemma ends_on_copy: "ends r w m x w' \<Longrightarrow> ends r w (on_copy m) x w'"
  by (fastforce simp: ends_def on_copy_def)

lemma ends_packet: "ends r w m x w' \<Longrightarrow> length r < 2 ^ 31 \<Longrightarrow> with_local (MessageBuffer r) m w = Some (x, w')"
  using at_new [of r] by (fastforce simp: ends_def with_local_run)

subsection \<open>Reading\<close>

lemma eats_string [eats_rules]:
  "eats (put_string s @ r) w (onL readString) s r w" "eats (put_string s) w (onL readString) s [] w"
  by (rule eats_onL, (erule string_at | erule string_at_end), blast)+

lemma eats_int [eats_rules]:
  "cint i \<Longrightarrow> eats (intToDWord i @ r) w (onL readInt) i r w"
  "cint i \<Longrightarrow> eats (intToDWord i) w (onL readInt) i [] w"
  "cint i \<Longrightarrow> eats (intToDWord i @ r) w (onL readInt32) i r w"
proof -
  assume i: "cint i"
  show *: "eats (intToDWord i @ r) w (onL readInt) i r w" for r
    by (rule eats_onL) (erule readInt_at [OF _ i], blast)
  then show "eats (intToDWord i @ r) w (onL readInt32) i r w" by (simp add: readInt_def)
  show "eats (intToDWord i) w (onL readInt) i [] w" using * [of "[]"] by simp
qed

text \<open>The other ways to read, and a parser that works on a copy.\<close>

lemma eats_on_copy [eats_rules]: "eats r w m a r1 w1 \<Longrightarrow> eats r w (on_copy m) a r w1"
  by (fastforce simp: eats_def on_copy_def)

lemma eats_left [eats_rules]: "eats r w (onL left) (len r) r w"
  by (rule eats_onL) (auto simp: at_def yields_def left_run)

lemma eats_readByte [eats_rules]: "eats (c # r) w (onL readByte) c r w"
  by (rule eats_onL) (auto simp: at_def yields_def readByte_run mb_wf_adv rest_adv)

lemma eats_seek:
  assumes "r \<noteq> []"
  shows "eats (s @ r) w (onL (seek (len s))) () r w"
proof (rule eats_onL)
  fix b assume b: "at b (s @ r)"
  obtain c t where r: "r = c # t" using assms by (cases r) simp_all
  have wf: "mb_wf b" "rest b = s @ r" using b by (simp_all add: at_def)
  have "\<not> to_size (to_size (mb_offset b) + to_size (len s)) \<ge> int (length (mb_str b))"
    using wf length_rest [of b] r by (auto simp: mb_wf_size to_size_nonneg mb_wf_def)
  then have "yields b (seek (len s)) () (mb_adv (len s) b)"
    by (simp add: seek_def yields_def exec)
  moreover have "at (mb_adv (len s) b) r"
    using b by (simp add: at_def mb_wf_adv_append rest_adv_append)
  ultimately show "\<exists>b'. yields b (seek (len s)) () b' \<and> at b' r" by blast
qed

text \<open>A length-prefixed body, entered with \<^verbatim>\<open>buffer = buffer.readMessageBuffer(readInt())\<close>.\<close>

lemma eats_enter:
  assumes "eats body w k x r' w'"
  shows "eats (put_string body @ r) w (bindM (onL readInt) (\<lambda>n. thenM (onL (narrow n)) k)) x r' w'"
    and "eats (put_string body) w (bindM (onL readInt) (\<lambda>n. thenM (onL (narrow n)) k)) x r' w'"
proof -
  show *: "eats (put_string body @ r) w (bindM (onL readInt) (\<lambda>n. thenM (onL (narrow n)) k)) x r' w'" for r
    unfolding eats_def
  proof (intro allI impI)
    fix b assume b: "at b (put_string body @ r)"
    show "\<exists>b'. bindM (onL readInt) (\<lambda>n. thenM (onL (narrow n)) k) (b, w) = Some (Ok x, (b', w')) \<and> at b' r'"
      using eatsD [OF assms enter_at(2) [OF b]] unfolding enter_at(1) [OF b] by blast
  qed
  show "eats (put_string body) w (bindM (onL readInt) (\<lambda>n. thenM (onL (narrow n)) k)) x r' w'"
    using * [of "[]"] by simp
qed

section \<open>Loops over a packet\<close>

text \<open>
  A counted loop over the items of a packet does to the accumulator and the world what
  its body does for one item after the other.  What the body needs may depend on the
  items before (\<open>eats_forM_at\<close>) or be an invariant \<open>P\<close>.
\<close>

lemma eats_forM_at:
  fixes G :: "'x \<Rightarrow> 'c \<times> 'w \<Rightarrow> 'c \<times> 'w"
  assumes "\<And>ys x zs r. xs = ys @ x # zs \<Longrightarrow>
      eats (put x @ r) (snd (fold G ys (acc, w))) (f (fst (fold G ys (acc, w))))
        (fst (fold G (ys @ [x]) (acc, w))) r (snd (fold G (ys @ [x]) (acc, w)))"
  shows "eats (concat (map put xs) @ r) w (forM (int (length xs)) f acc)
    (fst (fold G xs (acc, w))) r (snd (fold G xs (acc, w)))"
  using assms
proof (induction xs arbitrary: acc w)
  case Nil
  show ?case by (simp add: forM_def eats_ret)
next
  case (Cons x xs)
  let ?a = "fst (G x (acc, w))" and ?w = "snd (G x (acc, w))"
  have x: "eats (put x @ (concat (map put xs) @ r)) w (f acc) ?a (concat (map put xs) @ r) ?w"
    using Cons.prems [of "[]" x xs] by simp
  have "eats (concat (map put xs) @ r) ?w (forM (int (length xs)) f ?a)
      (fst (fold G xs (?a, ?w))) r (snd (fold G xs (?a, ?w)))"
  proof (rule Cons.IH)
    fix ys y zs r assume "xs = ys @ y # zs"
    then show "eats (put y @ r) (snd (fold G ys (?a, ?w))) (f (fst (fold G ys (?a, ?w))))
        (fst (fold G (ys @ [y]) (?a, ?w))) r (snd (fold G (ys @ [y]) (?a, ?w)))"
      using Cons.prems [of "x # ys" y zs] by simp
  qed
  moreover have "forM (int (length xs)) f = loopM (length xs) f"
    by (rule ext) (simp add: forM_def)
  then have "forM (int (length (x # xs))) f acc = bindM (f acc) (forM (int (length xs)) f)"
    by (simp add: forM_def nat_add_distrib del: of_nat_Suc)
  ultimately show ?case using eats_bindM [OF x] by simp
qed

lemma eats_forM:
  fixes G :: "'x \<Rightarrow> 'c \<times> 'w \<Rightarrow> 'c \<times> 'w"
  assumes body: "\<And>x acc w r. x \<in> set xs \<Longrightarrow> P acc w \<Longrightarrow>
      eats (put x @ r) w (f acc) (fst (G x (acc, w))) r (snd (G x (acc, w)))
      \<and> P (fst (G x (acc, w))) (snd (G x (acc, w)))"
    and "P acc w"
  shows "eats (concat (map put xs) @ r) w (forM (int (length xs)) f acc)
    (fst (fold G xs (acc, w))) r (snd (fold G xs (acc, w)))"
proof (rule eats_forM_at)
  fix ys x zs r assume xs: "xs = ys @ x # zs"
  have "P (fst (fold G us (acc, w))) (snd (fold G us (acc, w)))" if "set us \<subseteq> set xs" for us
    using that by (induction us rule: rev_induct) (auto simp: assms(2) dest: body)
  from body [OF _ this [of ys], of x r] xs
  show "eats (put x @ r) (snd (fold G ys (acc, w))) (f (fst (fold G ys (acc, w))))
      (fst (fold G (ys @ [x]) (acc, w))) r (snd (fold G (ys @ [x]) (acc, w)))"
    by (simp add: subset_iff)
qed

text \<open>Loops that only read, and loops whose accumulator is not used.\<close>

lemma eats_forM_read:
  assumes "\<And>x acc w r. x \<in> set xs \<Longrightarrow> eats (put x @ r) w (f acc) (h x acc) r w"
  shows "eats (concat (map put xs) @ r) w (forM (int (length xs)) f acc) (fold h xs acc) r w"
proof -
  have "fold (\<lambda>x (acc, w). (h x acc, w)) xs (acc, w) = (fold h xs acc, w)"
    by (induction xs arbitrary: acc) simp_all
  then show ?thesis
    using eats_forM [where P = "\<lambda>_ _. True" and G = "\<lambda>x (acc, w). (h x acc, w)"
      and xs = xs and put = put and f = f and acc = acc and w = w and r = r] assms
    by simp
qed

lemma eats_forM_do:
  assumes "\<And>x w r. x \<in> set xs \<Longrightarrow> P w \<Longrightarrow> eats (put x @ r) w (f ()) () r (g x w) \<and> P (g x w)"
    and "P w"
  shows "eats (concat (map put xs) @ r) w (forM (int (length xs)) f ()) () r (fold g xs w)"
proof -
  have "fold (\<lambda>x (u, w). ((), g x w)) xs ((), w) = ((), fold g xs w)"
    by (induction xs arbitrary: w) simp_all
  then show ?thesis
    using eats_forM [where P = "\<lambda>_. P" and G = "\<lambda>x (u, w). ((), g x w)"
      and xs = xs and put = put and f = f and acc = "()" and w = w and r = r] assms
    by simp
qed

text \<open>The items preceded by their number.\<close>

definition put_items :: "('x \<Rightarrow> string) \<Rightarrow> 'x list \<Rightarrow> string" where
  "put_items put xs = intToDWord (int (length xs)) @ concat (map put xs)"

lemma eats_count:
  assumes ne: "\<And>x. put x \<noteq> []"
  shows "eats (put_items put xs @ r) w (onL readInt) (int (length xs)) (concat (map put xs) @ r) w"
    and "eats (put_items put xs @ r) w (onL readInt32) (int (length xs)) (concat (map put xs) @ r) w"
proof -
  show *: "eats (put_items put xs @ r) w (onL readInt) (int (length xs)) (concat (map put xs) @ r) w"
  proof (rule eats_onL)
    fix b assume b: "at b (put_items put xs @ r)"
    have "length xs \<le> length (concat (map put xs))"
    proof (induction xs)
      case (Cons x xs)
      have "1 \<le> length (put x)" using ne [of x] by (simp add: Suc_le_eq)
      with Cons show ?case by simp
    qed simp
    then have "cint (int (length xs))"
      using mb_wf_length_rest [of b] b by (simp add: at_def put_items_def cint_def)
    then show "\<exists>b'. yields b readInt (int (length xs)) b' \<and> at b' (concat (map put xs) @ r)"
      using readInt_at [of b "int (length xs)" "concat (map put xs) @ r"] b
      by (simp add: put_items_def) blast
  qed
  then show "eats (put_items put xs @ r) w (onL readInt32) (int (length xs)) (concat (map put xs) @ r) w"
    by (simp add: readInt_def)
qed

lemma put_not_Nil [simp]: "put_string s \<noteq> []" "intToDWord i \<noteq> []" "put_items put xs \<noteq> []"
  by (simp_all add: put_items_def put_string_def intToDWord_def)

section \<open>Messages\<close>

lemma yields_got_im [yields_rules]:
  "sessions w p = Some s \<Longrightarrow> yields w (serv_got_im p sender msg tm) ()
     (emit (GotIm (s_account s) (c_str sender) (c_str msg) tm) w)"
  by (simp add: yields_def serv_got_im_def exec)

lemma eats_parseChatMessage [eats_rules]:
  assumes "list_all (part_ok E) ps"
  shows "eats (concat (map put_part ps)) w (onL (parseChatMessage E)) (concat (map (render E) ps)) [] w"
proof (rule eats_onL)
  fix b assume b: "at b (concat (map put_part ps))"
  show "\<exists>b'. yields b (parseChatMessage E) (concat (map (render E) ps)) b' \<and> at b' []"
    using chat_loop_parts [of b E ps "[]"] assms b
    by (auto simp: parseChatMessage_def at_def yields_def mb_wf_adv_append rest_adv_append)
qed

lemma eats_parseTextMessage [eats_rules]:
  assumes "sessions w p = Some s" and "list_all (part_ok E) ps"
  shows "eats (put_string (put_string sender @ put_string recipient
      @ put_string (concat (map put_part ps)))) w (parseTextMessage E p) () []
    (emit (GotIm (s_account s) (c_str sender) (c_str (concat (map (render E) ps)))
      (ev_time E (history w))) w)"
  unfolding parseTextMessage_def
  by (rule eats_enter eats_rules yields_rules assms)+

lemma eats_parseTypingNoficiationResponse [eats_rules]:
  assumes "sessions w p = Some s"
  shows "eats (put_string (put_string sfrom @ put_string to)) w (parseTypingNoficiationResponse p) () []
    (emit (GotTyping (s_account s) (c_str sfrom) 60) w)"
  unfolding parseTypingNoficiationResponse_def
  by (rule eats_enter eats_rules yields_rules assms)+

section \<open>Dispatch\<close>

lemma eats_type3:
  assumes "sessions w p = Some s" and "\<not> invalid s"
    and "eats (put_string header @ put_string cmd @ r) w (parse_type3 E p) () r' w'"
  shows "eats (intToDWord 3 @ put_string header @ put_string cmd @ r) w (parseCSResponse E p) () r' w'"
  unfolding parseCSResponse_def
  by (rule eats_rules yields_rules assms(1,2) | simp add: cint_def)+ (rule assms(3))

end
