(* ===== verification/Plugin.thy ===== *)
theory Plugin
  imports Responses
begin

text \<open>
  \<^verbatim>\<open>rediffbol_init.cpp\<close>: the functions libpurple calls.  A \<^verbatim>\<open>PurpleConnection\<close> is
  given by its account; a C string that the code guards with \<^verbatim>\<open>SAFE\<close> is an option.
  The tables \<^verbatim>\<open>prpl_info\<close> and \<^verbatim>\<open>info\<close> and the functions that only log are in
  \<open>PluginInfo\<close>.
\<close>

section \<open>Access to the session\<close>

text \<open>\<^verbatim>\<open>gc->proto_data\<close> used without a check, and with one.\<close>

definition the_session :: "nat \<Rightarrow> ('b world, nat) M" where
  "the_session acct =
     bindM (getM (\<lambda>w. proto_data w acct)) (\<lambda>x. case x of
       None \<Rightarrow> raise (Undef NullDeref)
     | Some p \<Rightarrow> ret p)"

definition if_session :: "nat \<Rightarrow> (nat \<Rightarrow> ('b world, unit) M) \<Rightarrow> ('b world, unit) M" where
  "if_session acct f =
     bindM (getM (\<lambda>w. proto_data w acct)) (\<lambda>x. case x of
       None \<Rightarrow> ret ()
     | Some p \<Rightarrow> f p)"

section \<open>Login and logout\<close>

definition rediffbol_login :: "'b env \<Rightarrow> nat \<Rightarrow> ('b world, unit) M" where
  "rediffbol_login E acct =
     thenM (out (UpdateProgress acct ''Connecting'' 0 2)) (
     bindM (new_session acct) (\<lambda>p.
     startLogin E p))"

definition rediffbol_close :: "'b env \<Rightarrow> nat \<Rightarrow> ('b world, unit) M" where
  "rediffbol_close E acct =
     if_session acct (\<lambda>p.
       thenM (shutdown E p) (
       thenM (destroy_session E p)
       (modM (set_proto acct None))))"

section \<open>Messages and status\<close>

definition rediffbol_send_im :: "'b env \<Rightarrow> nat \<Rightarrow> string \<Rightarrow> string \<Rightarrow> ('b world, int) M" where
  "rediffbol_send_im E acct who message =
     bindM (the_session acct) (\<lambda>p.
     thenM (sendMessage E p who message)
     (ret 1))"

text \<open>\<^verbatim>\<open>PurpleStatusPrimitive\<close>, as far as the code distinguishes it.\<close>

datatype status_primitive =
  StatusAvailable | StatusMobile | StatusAway | StatusUnavailable | StatusInvisible
  | StatusOffline | StatusOther

definition rediffbol_set_status ::
  "'b env \<Rightarrow> nat \<Rightarrow> status_primitive \<Rightarrow> string option \<Rightarrow> ('b world, unit) M" where
  "rediffbol_set_status E acct primitive message =
     (let msg = SAFE message in
      if_session acct (\<lambda>p.
        if primitive = StatusAvailable \<or> primitive = StatusMobile then setStatus E p ''Online'' msg
        else if primitive = StatusAway then setStatus E p ''Away'' msg
        else if primitive = StatusUnavailable then setStatus E p ''Busy'' msg
        else if primitive = StatusInvisible then setStatus E p ''Invisible'' msg
        else ret ()))"

text \<open>The statuses offered to the user: primitive, id, and a default message.\<close>

definition rediffbol_status_types :: "(status_primitive \<times> string \<times> string option) list" where
  "rediffbol_status_types =
     [(StatusAvailable, ''online'', Some ''Online''),
      (StatusAway, ''away'', Some ''Away''),
      (StatusOffline, ''offline'', Some ''Offline''),
      (StatusInvisible, ''invisible'', None),
      (StatusUnavailable, ''busy'', Some ''Busy'')]"

datatype typing_state = NotTyping | Typing | Typed

definition rediffbol_send_typing ::
  "'b env \<Rightarrow> nat \<Rightarrow> string option \<Rightarrow> typing_state \<Rightarrow> ('b world, int) M" where
  "rediffbol_send_typing E acct name typing =
     (if typing = Typing \<or> typing = Typed
      then bindM (the_session acct) (\<lambda>p.
        thenM (sendTypingNotification E p (SAFE name)) (ret 0))
      else ret 0)"

section \<open>Buddies and groups\<close>

definition rediffbol_add_buddy ::
  "'b env \<Rightarrow> nat \<Rightarrow> string option \<Rightarrow> string option \<Rightarrow> ('b world, unit) M" where
  "rediffbol_add_buddy E acct buddy grp =
     if_session acct (\<lambda>p. sendAddContactRequest E p (SAFE buddy) (SAFE grp))"

definition rediffbol_remove_buddy ::
  "'b env \<Rightarrow> nat \<Rightarrow> string option \<Rightarrow> string option \<Rightarrow> ('b world, unit) M" where
  "rediffbol_remove_buddy E acct buddy grp =
     if_session acct (\<lambda>p. sendDelContactRequest E p (SAFE buddy) (SAFE grp))"

definition rediffbol_group_buddy ::
  "'b env \<Rightarrow> nat \<Rightarrow> string option \<Rightarrow> string option \<Rightarrow> string option \<Rightarrow> ('b world, unit) M" where
  "rediffbol_group_buddy E acct who old_group new_group =
     bindM (the_session acct) (\<lambda>p.
     sendChangeBuddyGroupRequest E p (SAFE who) (SAFE old_group) (SAFE new_group))"

definition rediffbol_remove_group :: "'b env \<Rightarrow> nat \<Rightarrow> string option \<Rightarrow> ('b world, unit) M" where
  "rediffbol_remove_group E acct grp =
     bindM (the_session acct) (\<lambda>p. sendAddRemoveGroupRequest E p (SAFE grp) True)"

definition rediffbol_normalize :: "string option \<Rightarrow> string" where
  "rediffbol_normalize input = c_str (fixEmail (SAFE input))"

definition rediffbol_status_text :: "nat \<Rightarrow> string \<Rightarrow> ('b world, string option) M" where
  "rediffbol_status_text acct buddy =
     bindM (getM (\<lambda>w. proto_data w acct)) (\<lambda>x. case x of
       None \<Rightarrow> ret None
     | Some p \<Rightarrow>
       bindM (getBuddyStatusMessage p buddy) (\<lambda>message.
       ret (if message \<noteq> [] then Some (c_str message) else None)))"

definition rediffbol_offline_message :: bool where
  "rediffbol_offline_message = True"

section \<open>Chat rooms and the avatar page\<close>

definition rediffbol_roomlist_get_list :: "'b env \<Rightarrow> nat \<Rightarrow> ('b world, unit) M" where
  "rediffbol_roomlist_get_list E acct =
     bindM (the_session acct) (\<lambda>p. thenM (sendGetChatRoomsRequest E p) (ret ()))"

definition rediffbol_set_avatar :: "nat \<Rightarrow> ('b world, unit) M" where
  "rediffbol_set_avatar acct =
     if_session acct (\<lambda>p.
       bindM (get_sess p) (\<lambda>s.
       let uri = ''http://avatars.rediff.com/avatars/login.asp?username='' @ getServerUserId s
         @ ''&session_id='' @ getSessionString s @ ''&from=bol&display='' @ getServerDisplayName s
         @ ''&user_ip='' @ getVisibleIP s
       in out (NotifyUri (c_str uri))))"

end
