(* ===== verification/ConnInvariant.thy ===== *)
theory ConnInvariant
  imports Conn
begin

text \<open>
  What holds of the connections, the object table and the event loop's registrations
  between any two callbacks: every object is found under its number, a closed
  connection holds no resource, and the registered inputs are exactly those the live
  connections remember.  Then the contract a handler has to meet (a locale), under
  which every callback of \<^verbatim>\<open>conn.cpp\<close> keeps all of that.
\<close>

section \<open>The invariant\<close>

definition conn_ok :: "'b conn \<Rightarrow> bool" where
  "conn_ok c \<longleftrightarrow>
     (if invalid c then c_attempt c = 0 \<and> c_txbuf c = None \<and> c_tx c = 0 \<and> c_rx c = 0
      else c_txbuf c \<noteq> None)"

text \<open>\<open>watched W c\<close>: the event loop has the inputs the connection remembers.\<close>

definition watched :: "(int \<Rightarrow> (int \<times> cond \<times> int) option) \<Rightarrow> 'b conn \<Rightarrow> bool" where
  "watched W c \<longleftrightarrow>
     (c_rx c \<noteq> 0 \<longrightarrow> (\<exists>fd. W (c_rx c) = Some (fd, CondRead, obj_id c)))
   \<and> (c_tx c \<noteq> 0 \<longrightarrow> (\<exists>fd. W (c_tx c) = Some (fd, CondWrite, obj_id c)))"

fun holds_input :: "cond \<Rightarrow> int \<Rightarrow> 'b conn \<Rightarrow> bool" where
  "holds_input CondRead h c \<longleftrightarrow> c_rx c = h"
| "holds_input CondWrite h c \<longleftrightarrow> c_tx c = h"

definition inv_on ::
  "(nat \<Rightarrow> 'b conn option) \<Rightarrow> (int \<Rightarrow> nat option) \<Rightarrow> int \<Rightarrow> nat \<Rightarrow>
     (int \<Rightarrow> (int \<times> cond \<times> int) option) \<Rightarrow> bool" where
  "inv_on C M k n W \<longleftrightarrow>
     (\<forall>a c. C a = Some c \<longrightarrow> M (obj_id c) = Some a \<and> a < n \<and> conn_ok c \<and> watched W c)
   \<and> (\<forall>i a. M i = Some a \<longrightarrow> i < k \<and> a < n)
   \<and> (\<forall>h fd d i. W h = Some (fd, d, i) \<longrightarrow>
        h \<noteq> 0 \<and> (\<exists>a c. C a = Some c \<and> obj_id c = i \<and> holds_input d h c))"

definition net_inv :: "('b, 'z) net_scheme \<Rightarrow> bool" where
  "net_inv s \<longleftrightarrow>
     inv_on (conns s) (id_map s) (id_counter s) (next_addr s) (watches (history s))"

lemma net_inv_conn:
  assumes "net_inv s" and "conns s a = Some c"
  shows "id_map s (obj_id c) = Some a" and "a < next_addr s" and "conn_ok c"
    and "watched (watches (history s)) c" and "obj_id c < id_counter s"
  using assms unfolding net_inv_def inv_on_def by blast+

lemma net_inv_watch:
  assumes "net_inv s" and "watches (history s) h = Some (fd, d, i)"
  obtains a c where "conns s a = Some c" and "obj_id c = i" and "holds_input d h c"
  using assms unfolding net_inv_def inv_on_def by blast

subsection \<open>Changes that keep it\<close>

lemma inv_on_update:
  assumes "inv_on C M k n W" and "C a = Some c" and "obj_id c' = obj_id c" and "conn_ok c'"
    and "c_tx c' = c_tx c" and "c_rx c' = c_rx c"
  shows "inv_on (C(a \<mapsto> c')) M k n W"
proof -
  have keep: "\<exists>a' e'. (C(a \<mapsto> c')) a' = Some e' \<and> obj_id e' = i \<and> holds_input d h e'"
    if w: "W h = Some (fd, d, i)" for h fd d i
  proof -
    obtain b e where "C b = Some e" "obj_id e = i" "holds_input d h e"
      using assms(1) w unfolding inv_on_def by blast
    then show ?thesis
      using assms by (cases "b = a"; cases d) (auto intro!: exI [of _ b])
  qed
  have "watched W c" using assms(1,2) unfolding inv_on_def by blast
  then have "watched W c'" using assms by (simp add: watched_def)
  with assms keep show ?thesis
    unfolding inv_on_def by (auto split: if_splits)
qed

text \<open>A handle that is not in use is registered for connection \<open>a\<close>.\<close>

lemma inv_on_add_rx:
  assumes inv: "inv_on C M k n W" and c: "C a = Some c" and "\<not> invalid c" and "c_rx c = 0"
    and new: "W h = None" "0 < h"
  shows "inv_on (C(a \<mapsto> c\<lparr>c_rx := h\<rparr>)) M k n (W(h \<mapsto> (fd, CondRead, obj_id c)))"
proof -
  have keep: "\<exists>a' c'. (C(a \<mapsto> c\<lparr>c_rx := h\<rparr>)) a' = Some c' \<and> obj_id c' = i \<and> holds_input d h' c'"
    if "W h' = Some (fd', d, i)" for h' fd' d i
  proof -
    obtain b e where "C b = Some e" "obj_id e = i" "holds_input d h' e" "h' \<noteq> 0"
      using inv \<open>W h' = _\<close> unfolding inv_on_def by blast
    then show ?thesis
      using c \<open>c_rx c = 0\<close> by (cases "b = a"; cases d) (auto intro!: exI [of _ b])
  qed
  have w: "watched (W(h \<mapsto> (fd, CondRead, obj_id c))) e" if "C b = Some e" for b e
    using inv that new unfolding inv_on_def watched_def by fastforce
  have "watched (W(h \<mapsto> (fd, CondRead, obj_id c))) (c\<lparr>c_rx := h\<rparr>)"
    using w [OF c] by (simp add: watched_def)
  moreover have "conn_ok (c\<lparr>c_rx := h\<rparr>)"
    using inv c \<open>\<not> invalid c\<close> unfolding inv_on_def by (auto simp: conn_ok_def)
  ultimately show ?thesis
    using inv c new w keep unfolding inv_on_def
    by (auto split: if_splits intro!: exI [of _ a])
qed

lemma inv_on_add_tx:
  assumes inv: "inv_on C M k n W" and c: "C a = Some c" and "\<not> invalid c" and "c_tx c = 0"
    and new: "W h = None" "0 < h"
  shows "inv_on (C(a \<mapsto> c\<lparr>c_tx := h\<rparr>)) M k n (W(h \<mapsto> (fd, CondWrite, obj_id c)))"
proof -
  have keep: "\<exists>a' c'. (C(a \<mapsto> c\<lparr>c_tx := h\<rparr>)) a' = Some c' \<and> obj_id c' = i \<and> holds_input d h' c'"
    if "W h' = Some (fd', d, i)" for h' fd' d i
  proof -
    obtain b e where "C b = Some e" "obj_id e = i" "holds_input d h' e" "h' \<noteq> 0"
      using inv \<open>W h' = _\<close> unfolding inv_on_def by blast
    then show ?thesis
      using c \<open>c_tx c = 0\<close> by (cases "b = a"; cases d) (auto intro!: exI [of _ b])
  qed
  have w: "watched (W(h \<mapsto> (fd, CondWrite, obj_id c))) e" if "C b = Some e" for b e
    using inv that new unfolding inv_on_def watched_def by fastforce
  have "watched (W(h \<mapsto> (fd, CondWrite, obj_id c))) (c\<lparr>c_tx := h\<rparr>)"
    using w [OF c] by (simp add: watched_def)
  moreover have "conn_ok (c\<lparr>c_tx := h\<rparr>)"
    using inv c \<open>\<not> invalid c\<close> unfolding inv_on_def by (auto simp: conn_ok_def)
  ultimately show ?thesis
    using inv c new w keep unfolding inv_on_def
    by (auto split: if_splits intro!: exI [of _ a])
qed

text \<open>
  The inputs of \<open>a\<close> among \<open>hs\<close> are removed from the event loop and from the
  connection.  Two connections never remember the same handle.
\<close>

lemma inv_on_remove:
  assumes inv: "inv_on C M k n W" and c: "C a = Some c"
    and W': "\<And>h. W' h = (if h \<noteq> 0 \<and> (h = c_tx c \<or> rx \<and> h = c_rx c) then None else W h)"
    and c': "obj_id c' = obj_id c" "conn_ok c'" "c_tx c' = 0"
      "c_rx c' = (if rx then 0 else c_rx c)"
  shows "inv_on (C(a \<mapsto> c')) M k n W'"
proof -
  have own: "b = a" if "C b = Some e" "obj_id e = obj_id c" for b e
    using inv that c unfolding inv_on_def by (metis option.inject)
  have diff: "c_rx c \<noteq> c_tx c \<or> c_tx c = 0"
    using inv c unfolding inv_on_def watched_def by fastforce
  have w: "watched W' e" if e: "C b = Some e" "b \<noteq> a" for b e
  proof -
    have "watched W e" and "watched W c" using inv e c unfolding inv_on_def by blast+
    moreover have "obj_id e \<noteq> obj_id c" using own e by blast
    ultimately show ?thesis unfolding watched_def W' by fastforce
  qed
  have "watched W' c'"
  proof -
    have "watched W c" using inv c unfolding inv_on_def by blast
    then show ?thesis using c' diff unfolding watched_def W' by auto
  qed
  moreover have "\<exists>a' e'. (C(a \<mapsto> c')) a' = Some e' \<and> obj_id e' = i \<and> holds_input d h e'"
    if "W' h = Some (fd, d, i)" for h fd d i
  proof -
    have "W h = Some (fd, d, i)" and nh: "h \<noteq> c_tx c \<or> h = 0" "rx \<longrightarrow> h \<noteq> c_rx c \<or> h = 0"
      using that by (auto simp: W' split: if_splits)
    then obtain b e where "C b = Some e" "obj_id e = i" "holds_input d h e" "h \<noteq> 0"
      using inv unfolding inv_on_def by blast
    then show ?thesis
      using nh c c' by (cases "b = a"; cases d) (auto intro!: exI [of _ b])
  qed
  moreover have "W' h = Some v \<Longrightarrow> W h = Some v" for h v
    by (simp add: W' split: if_splits)
  ultimately show ?thesis
    using inv c c'(1,2) w unfolding inv_on_def by (auto split: if_splits)
qed

text \<open>A new object, which need not be a connection, gets the next number and address.\<close>

lemma inv_on_register:
  assumes inv: "inv_on C M k n W"
  shows "inv_on C (M(k \<mapsto> n)) (k + 1) (Suc n) W"
proof -
  have "obj_id c < k" if "C a = Some c" for a c
    using inv that unfolding inv_on_def by blast
  then have "(M(k \<mapsto> n)) (obj_id c) = M (obj_id c)" if "C a = Some c" for a c
    using that by fastforce
  then show ?thesis
    using inv unfolding inv_on_def by (auto split: if_splits simp: less_Suc_eq) fastforce+
qed

lemma inv_on_new:
  assumes inv: "inv_on C M k n W" and c: "obj_id c = k" "conn_ok c" "c_rx c = 0" "c_tx c = 0"
  shows "inv_on (C(n \<mapsto> c)) (M(k \<mapsto> n)) (k + 1) (Suc n) W"
proof -
  have fresh: "C n = None"
    using inv unfolding inv_on_def by (metis less_irrefl not_None_eq)
  have keep: "\<exists>a' e'. (C(n \<mapsto> c)) a' = Some e' \<and> obj_id e' = i \<and> holds_input d h e'"
    if w: "W h = Some (fd, d, i)" for h fd d i
  proof -
    obtain b e where "C b = Some e" "obj_id e = i" "holds_input d h e"
      using inv w unfolding inv_on_def by blast
    moreover from this have "b \<noteq> n" using fresh by auto
    ultimately show ?thesis by (auto intro!: exI [of _ b])
  qed
  have "watched W c" using c by (simp add: watched_def)
  then show ?thesis
    using inv_on_register [OF inv] c keep unfolding inv_on_def by (auto split: if_splits)
qed

text \<open>An object that is not a connection leaves the table.\<close>

lemma inv_on_unregister:
  assumes inv: "inv_on C M k n W" and "\<And>a c. C a = Some c \<Longrightarrow> obj_id c \<noteq> i"
  shows "inv_on C (M(i := None)) k n W"
  using assms unfolding inv_on_def by (auto split: if_splits)

lemma net_inv_emit:
  "net_inv s \<Longrightarrow> watches (e # history s) = watches (history s) \<Longrightarrow> net_inv (emit e s)"
  by (simp add: net_inv_def)

lemma net_inv_set_conn:
  "net_inv s \<Longrightarrow> conns s a = Some c \<Longrightarrow> obj_id c' = obj_id c \<Longrightarrow> conn_ok c' \<Longrightarrow>
     c_tx c' = c_tx c \<Longrightarrow> c_rx c' = c_rx c \<Longrightarrow> net_inv (set_conn a (Some c') s)"
  unfolding net_inv_def by (simp add: inv_on_update)

lemma watches_add: "watches (InputAdd h fd d i # tr) = (watches tr)(h \<mapsto> (fd, d, i))"
  by (rule ext) simp

lemma watches_remove: "watches (InputRemove h # tr) = (watches tr)(h := None)"
  by (rule ext) simp

lemma net_inv_add_rx:
  assumes "net_inv s" and "fresh_handles E" and "conns s a = Some c" and "\<not> invalid c"
    and "c_rx c = 0" and h: "h = ne_input_add E (history s)"
  shows "net_inv (set_conn a (Some (c\<lparr>c_rx := h\<rparr>)) (emit (InputAdd h fd CondRead (obj_id c)) s))"
  using assms unfolding net_inv_def
  by (simp add: watches_add inv_on_add_rx fresh_handles_def)

lemma net_inv_add_tx:
  assumes "net_inv s" and "fresh_handles E" and "conns s a = Some c" and "\<not> invalid c"
    and "c_tx c = 0" and h: "h = ne_input_add E (history s)"
  shows "net_inv (set_conn a (Some (c\<lparr>c_tx := h\<rparr>)) (emit (InputAdd h fd CondWrite (obj_id c)) s))"
  using assms unfolding net_inv_def
  by (simp add: watches_add inv_on_add_tx fresh_handles_def)

lemma net_inv_close:
  assumes inv: "net_inv s" and run: "conn_close E a s = Some (Ok u, s')"
  shows "net_inv s'"
proof -
  obtain c fd where c: "conns s a = Some c" and s': "s' = s\<lparr>conns := (conns s)(a \<mapsto>
      closed E c fd (history s)), history := closing_history E c fd (history s)\<rparr>"
    using run by (rule conn_close_OkD)
  have "inv_on ((conns s)(a \<mapsto> closed E c fd (history s))) (id_map s) (id_counter s) (next_addr s)
      (watches (closing_history E c fd (history s)))"
    by (rule inv_on_remove [where rx = True, OF inv [unfolded net_inv_def] c])
      (auto simp: watches_closing closed_def conn_ok_def)
  then show ?thesis by (simp add: net_inv_def s')
qed

lemma delete_conn_OkD:
  assumes run: "delete_conn E (Some a) s = Some (Ok u, s')"
  obtains c tr where "conns s a = Some c"
    and "s' = s\<lparr>conns := (conns s)(a := None), history := tr, id_map := (id_map s)(obj_id c := None)\<rparr>"
proof -
  obtain c fd where c: "conns s a = Some c" and fd: "c_fd c = Some fd"
    using run by (auto simp: delete_conn_def thenM_def elim!: bindM_SomeE conn_close_OkD)
  have "s' = s\<lparr>conns := (conns s)(a := None), history := closing_history E c fd (history s),
      id_map := (id_map s)(obj_id c := None)\<rparr>"
    using run c fd
    by (cases s) (auto simp: delete_conn_def exec conn_close_run closed_def set_conn_def reg_erase_def)
  then show ?thesis using that c by blast
qed

lemma net_inv_delete:
  assumes inv: "net_inv s" and run: "delete_conn E (Some a) s = Some (Ok u, s')"
  shows "net_inv s'"
proof -
  obtain c fd where c: "conns s a = Some c" and fd: "c_fd c = Some fd"
    using run by (auto simp: delete_conn_def thenM_def elim!: bindM_SomeE conn_close_OkD)
  define t where "t = s\<lparr>conns := (conns s)(a \<mapsto> closed E c fd (history s)),
    history := closing_history E c fd (history s)\<rparr>"
  have close: "conn_close E a s = Some (Ok (), t)"
    unfolding t_def by (rule conn_close_run [OF c fd])
  have ct: "conns t a = Some (closed E c fd (history s))"
    and it: "obj_id (closed E c fd (history s)) = obj_id c"
    by (simp_all add: t_def closed_def)
  have s': "s' = set_conn a None (reg_erase (obj_id c) t)"
    using run by (simp add: delete_conn_def exec close ct it)
  have inv_t: "net_inv t" by (rule net_inv_close [OF inv close])
  have other: "obj_id e \<noteq> obj_id c" if "conns t b = Some e" "b \<noteq> a" for b e
    using net_inv_conn(1) [OF inv_t that(1)] net_inv_conn(1) [OF inv_t ct] that(2) it by auto
  have gone: "\<not> holds_input d h (closed E c fd (history s))" if "h \<noteq> 0" for d h
    using that by (cases d) (auto simp: closed_def)
  show ?thesis
    using inv_t ct other gone unfolding net_inv_def inv_on_def s'
    by (auto split: if_splits) (metis option.inject)+
qed

definition fresh_conn :: "('b, 'e) net_env_scheme \<Rightarrow> int \<Rightarrow> int \<Rightarrow> int \<Rightarrow> 'b conn" where
  "fresh_conn E k i pm =
     \<lparr>invalid = False, obj_id = k, c_attempt = 0, c_txbuf = Some (cb_new E),
      c_awaiting = MessageBuffer [], c_tx = 0, c_rx = 0, c_fd = None, c_parse_mode = pm,
      c_handler_id = i\<rparr>"

lemma new_conn_OkD:
  assumes "new_conn E i pm s = Some (Ok a, s')"
  shows "a = next_addr s"
    and "s' = s\<lparr>id_counter := id_counter s + 1, id_map := (id_map s)(id_counter s \<mapsto> a),
      next_addr := Suc a, conns := (conns s)(a \<mapsto> fresh_conn E (id_counter s) i pm)\<rparr>"
  using assms
  by (cases s; auto simp: new_conn_def exec fresh_conn_def set_conn_def reg_add_def split: if_splits)+

lemma net_inv_new:
  assumes inv: "net_inv s" and run: "new_conn E i pm s = Some (Ok a, s')"
  shows "net_inv s'"
proof -
  have "inv_on ((conns s)(next_addr s \<mapsto> fresh_conn E (id_counter s) i pm))
      ((id_map s)(id_counter s \<mapsto> next_addr s))
      (id_counter s + 1) (Suc (next_addr s)) (watches (history s))"
    by (rule inv_on_new [OF inv [unfolded net_inv_def]]) (simp_all add: conn_ok_def fresh_conn_def)
  then show "net_inv s'" by (simp add: net_inv_def new_conn_OkD [OF run])
qed

lemma net_inv_fresh_addr: "net_inv s \<Longrightarrow> conns s (next_addr s) = None"
  using net_inv_conn(2) by fastforce

section \<open>The contract of a handler\<close>

text \<open>
  What a handler's own invariant \<open>J\<close> may depend on: which connections there are, and
  of each its validity, its number and its handler, but not its buffers, its inputs or
  the history.
\<close>

definition shape :: "'b conn \<Rightarrow> bool \<times> int \<times> int" where
  "shape c = (invalid c, obj_id c, c_handler_id c)"

definition same_objs :: "('b, 'z) net_scheme \<Rightarrow> ('b, 'z) net_scheme \<Rightarrow> bool" where
  "same_objs s s' \<longleftrightarrow>
     (\<exists>C tr. s' = s\<lparr>conns := C, history := tr\<rparr>
        \<and> (\<forall>a. map_option shape (C a) = map_option shape (conns s a)))"

lemma same_objs_emit: "same_objs s (emit e s)"
  unfolding same_objs_def emit_def
  by (rule exI [of _ "conns s"], rule exI [of _ "e # history s"]) simp

lemma same_objs_set:
  "conns s a = Some c \<Longrightarrow> shape c' = shape c \<Longrightarrow> same_objs s (set_conn a (Some c') s)"
  unfolding same_objs_def set_conn_def
  by (rule exI [of _ "(conns s)(a \<mapsto> c')"], rule exI [of _ "history s"]) simp

text \<open>
  The handler as \<^verbatim>\<open>write\<close> needs it.  A valid connection has a handler, and after
  closing a valid connection of a good state \<^verbatim>\<open>readError\<close> leads back to a good state.
\<close>

locale conn_client =
  fixes E :: "('b, 'e) net_env_scheme"
    and rdErr :: "nat \<Rightarrow> nat \<Rightarrow> (('b, 'z) net_scheme, unit) M"
    and J :: "('b, 'z) net_scheme \<Rightarrow> bool"
  assumes J_fresh: "J s \<Longrightarrow> fresh_handles E"
    and J_stable: "J s \<Longrightarrow> same_objs s s' \<Longrightarrow> J s'"
    and J_handler: "J s \<Longrightarrow> net_inv s \<Longrightarrow> conns s a = Some c \<Longrightarrow> \<not> invalid c \<Longrightarrow>
      \<exists>p. id_map s (c_handler_id c) = Some p"
    and readError_law: "J s \<Longrightarrow> net_inv s \<Longrightarrow> conns s a = Some c \<Longrightarrow> \<not> invalid c \<Longrightarrow>
      id_map s (c_handler_id c) = Some p \<Longrightarrow> conn_close E a s = Some (Ok (), t) \<Longrightarrow>
      valid (\<lambda>x. x = t) (rdErr p a) (\<lambda>_ x. net_inv x \<and> J x) (\<lambda>x. net_inv x \<and> J x)"
begin

lemma I_emit:
  "net_inv s \<and> J s \<Longrightarrow> watches (e # history s) = watches (history s) \<Longrightarrow>
     net_inv (emit e s) \<and> J (emit e s)"
  using J_stable same_objs_emit net_inv_emit by blast

lemma I_set_conn:
  "net_inv s \<and> J s \<Longrightarrow> conns s a = Some c \<Longrightarrow> shape c' = shape c \<Longrightarrow> conn_ok c' \<Longrightarrow>
     c_tx c' = c_tx c \<Longrightarrow> c_rx c' = c_rx c \<Longrightarrow>
     net_inv (set_conn a (Some c') s) \<and> J (set_conn a (Some c') s)"
  using J_stable [OF _ same_objs_set] net_inv_set_conn by (fastforce simp: shape_def)

lemma I_add_tx:
  assumes "net_inv s \<and> J s" and "conns s a = Some c" and "\<not> invalid c" and "c_tx c = 0"
  shows "net_inv (set_conn a (Some (c\<lparr>c_tx := ne_input_add E (history s)\<rparr>))
      (emit (InputAdd (ne_input_add E (history s)) fd CondWrite (obj_id c)) s))
    \<and> J (set_conn a (Some (c\<lparr>c_tx := ne_input_add E (history s)\<rparr>))
      (emit (InputAdd (ne_input_add E (history s)) fd CondWrite (obj_id c)) s))"
  using assms
  by (intro conjI net_inv_add_tx [OF _ J_fresh]
      J_stable [OF J_stable [OF _ same_objs_emit] same_objs_set]) (auto simp: shape_def)

lemma I_add_rx:
  assumes "net_inv s \<and> J s" and "conns s a = Some c" and "\<not> invalid c" and "c_rx c = 0"
  shows "net_inv (set_conn a (Some (c\<lparr>c_rx := ne_input_add E (history s)\<rparr>))
      (emit (InputAdd (ne_input_add E (history s)) fd CondRead (obj_id c)) s))
    \<and> J (set_conn a (Some (c\<lparr>c_rx := ne_input_add E (history s)\<rparr>))
      (emit (InputAdd (ne_input_add E (history s)) fd CondRead (obj_id c)) s))"
  using assms
  by (intro conjI net_inv_add_rx [OF _ J_fresh]
      J_stable [OF J_stable [OF _ same_objs_emit] same_objs_set]) (auto simp: shape_def)

lemma I_remove_tx:
  assumes "net_inv s \<and> J s" and c: "conns s a = Some c" and "\<not> invalid c" and "c_txbuf c \<noteq> None"
  shows "net_inv (set_conn a (Some (c\<lparr>c_tx := 0\<rparr>)) (emit (InputRemove (c_tx c)) s))
    \<and> J (set_conn a (Some (c\<lparr>c_tx := 0\<rparr>)) (emit (InputRemove (c_tx c)) s))"
proof -
  have w0: "watches (history s) 0 = None"
    using assms(1) unfolding net_inv_def inv_on_def
    by (metis (no_types) not_None_eq prod_cases3)
  have "inv_on ((conns s)(a \<mapsto> c\<lparr>c_tx := 0\<rparr>)) (id_map s) (id_counter s) (next_addr s)
      (watches (InputRemove (c_tx c) # history s))"
    by (rule inv_on_remove [where rx = False and W = "watches (history s)" and c = c])
      (use assms w0 in \<open>auto simp: net_inv_def conn_ok_def\<close>)
  moreover have "J (set_conn a (Some (c\<lparr>c_tx := 0\<rparr>)) (emit (InputRemove (c_tx c)) s))"
    using assms by (intro J_stable [OF J_stable [OF _ same_objs_emit] same_objs_set])
      (auto simp: shape_def)
  ultimately show ?thesis by (simp add: net_inv_def)
qed

lemma valid_get_conn:
  "valid (\<lambda>s. net_inv s \<and> J s) (get_conn a)
     (\<lambda>c s. (net_inv s \<and> J s) \<and> conns s a = Some c) X"
  by (auto simp: valid_def exec split: option.splits)

lemma close_then:
  assumes law: "\<And>s c p t. J s \<Longrightarrow> net_inv s \<Longrightarrow> conns s a = Some c \<Longrightarrow> \<not> invalid c \<Longrightarrow>
      id_map s (c_handler_id c) = Some p \<Longrightarrow> conn_close E a s = Some (Ok (), t) \<Longrightarrow>
      valid (\<lambda>x. x = t) (f p) (\<lambda>_ x. net_inv x \<and> J x) (\<lambda>x. net_inv x \<and> J x)"
    and c: "\<not> invalid c"
  shows "valid (\<lambda>s. (net_inv s \<and> J s) \<and> conns s a = Some c)
    (thenM (conn_close E a) (if_HANDLER a f)) (\<lambda>_ s. net_inv s \<and> J s) (\<lambda>s. net_inv s \<and> J s)"
proof -
  have "case r of Ok u \<Rightarrow> net_inv s' \<and> J s' | Throw e \<Rightarrow> e = Overflow \<longrightarrow> net_inv s' \<and> J s'"
    if inv: "net_inv s" "J s" and c: "conns s a = Some c"
      and run: "thenM (conn_close E a) (if_HANDLER a f) s = Some (r, s')" for s r s'
  proof -
    obtain p where p: "id_map s (c_handler_id c) = Some p"
      using J_handler [OF inv(2,1) c \<open>\<not> invalid c\<close>] by blast
    show ?thesis
    proof (cases "c_fd c")
      case None
      then have "r = Throw (Undef Uninitialised)"
        using run c by (auto simp: conn_close_def close_attempt_def close_fd_def exec
            setInvalid_def split: if_splits)
      then show ?thesis by simp
    next
      case (Some fd)
      let ?t = "s\<lparr>conns := (conns s)(a \<mapsto> closed E c fd (history s)),
        history := closing_history E c fd (history s)\<rparr>"
      have close: "conn_close E a s = Some (Ok (), ?t)" by (rule conn_close_run [OF c Some])
      have "conns ?t a = Some (closed E c fd (history s))" by simp
      then have "if_HANDLER a f ?t = f p ?t"
        using p by (simp add: if_HANDLER_run closed_def)
      then have "f p ?t = Some (r, s')" using run close by (simp add: exec)
      moreover have "valid (\<lambda>x. x = ?t) (f p) (\<lambda>_ x. net_inv x \<and> J x) (\<lambda>x. net_inv x \<and> J x)"
        by (rule law [OF inv(2,1) c \<open>\<not> invalid c\<close> p close])
      ultimately show ?thesis unfolding valid_def by blast
    qed
  qed
  then show ?thesis unfolding valid_def by blast
qed

lemma valid_sys_write:
  "valid (\<lambda>s. (net_inv s \<and> J s) \<and> conns s a = Some c) (sys_write E c d)
     (\<lambda>_ s. (net_inv s \<and> J s) \<and> conns s a = Some c) X"
  by (auto simp: valid_def sys_write_def exec intro!: I_emit [THEN conjunct1] I_emit [THEN conjunct2]
      split: option.splits)

lemma valid_enqueue:
  assumes c: "\<not> invalid c"
  shows "valid (\<lambda>s. (net_inv s \<and> J s) \<and> conns s a = Some c) (enqueue E a d)
     (\<lambda>_ s. net_inv s \<and> J s) X"
proof (rule validI)
  fix s u s'
  assume pre: "(net_inv s \<and> J s) \<and> conns s a = Some c"
    and run: "enqueue E a d s = Some (Ok u, s')"
  obtain q where q: "c_txbuf c = Some q" using run pre by (auto simp: enqueue_def exec split: option.splits)
  let ?c = "c\<lparr>c_txbuf := Some (cb_append E q d)\<rparr>"
  let ?t = "set_conn a (Some ?c) s"
  have "conn_ok ?c" using c by (simp add: conn_ok_def)
  then have t: "net_inv ?t \<and> J ?t" using pre by (intro I_set_conn) (simp_all add: shape_def)
  show "net_inv s' \<and> J s'"
  proof (cases "c_tx c = 0")
    case False
    then have "s' = ?t" using run pre q by (simp add: enqueue_def exec)
    then show ?thesis using t by simp
  next
    case True
    then obtain fd where "s' = set_conn a (Some (?c\<lparr>c_tx := ne_input_add E (history ?t)\<rparr>))
        (emit (InputAdd (ne_input_add E (history ?t)) fd CondWrite (obj_id ?c)) ?t)"
      using run pre q by (auto simp: enqueue_def exec split: option.splits)
    then show ?thesis using I_add_tx [OF t, of a ?c fd] c True by simp
  qed
qed (auto simp: enqueue_def exec split: option.splits if_splits)

lemma pres_conn_write: "pres (\<lambda>s. net_inv s \<and> J s) (conn_write E rdErr a data)"
  unfolding conn_write_def Let_def
proof (rule valid_bindM [OF valid_get_conn], rule valid_if)
  fix c
  let ?I = "\<lambda>s. (net_inv s \<and> J s) \<and> conns s a = Some c"
  assume "\<not> isInvalid c"
  then have c: "\<not> invalid c" by (simp add: isInvalid_def)
  show "valid ?I (bindM (if c_tx c = 0 then sys_write E c data else ret (-1, True)) (\<lambda>r.
      if fst r \<le> 0 \<and> \<not> (fst r < 0 \<and> snd r) then
         thenM (conn_close E a) (if_HANDLER a (\<lambda>p. rdErr p a))
       else whenM ((if fst r < 0 then 0 else fst r) < int (length data))
         (enqueue E a (drop (nat (if fst r < 0 then 0 else fst r)) data))))
    (\<lambda>_ s. net_inv s \<and> J s) (\<lambda>s. net_inv s \<and> J s)"
    by (intro valid_bindM [where R = "\<lambda>_. ?I"] valid_if valid_whenM valid_sys_write valid_ret
        close_then readError_law valid_enqueue c) auto
qed (auto intro: valid_ret)

lemma pres_write_cb: "pres (\<lambda>s. net_inv s \<and> J s) (write_cb E rdErr a)"
  unfolding write_cb_def
proof (rule valid_bindM [OF valid_get_conn])
  fix c :: "'b conn"
  let ?I = "\<lambda>s. (net_inv s \<and> J s) \<and> conns s a = Some c"
  show "valid ?I
    (case c_txbuf c of None \<Rightarrow> raise (Undef NullDeref)
     | Some q \<Rightarrow>
       if cb_max_read E q = 0 then
         thenM (out (InputRemove (c_tx c))) (upd_conn a (\<lambda>c. c\<lparr>c_tx := 0\<rparr>))
       else
         bindM (sys_write E c (cb_out E q (cb_max_read E q))) (\<lambda>r.
         if fst r < 0 \<and> snd r then ret ()
         else if fst r \<le> 0 then
           thenM (conn_close E a) (if_HANDLER a (\<lambda>p. rdErr p a))
         else upd_conn a (\<lambda>c. c\<lparr>c_txbuf := Some (cb_mark_read E q (nat (fst r)))\<rparr>)))
    (\<lambda>_ s. net_inv s \<and> J s) (\<lambda>s. net_inv s \<and> J s)"
  proof (cases "c_txbuf c")
    case None
    then show ?thesis by (simp add: valid_raise)
  next
    case (Some q)
    have ok: "\<not> invalid c" if "?I s" for s
      using net_inv_conn(3) [of s a c] that Some by (auto simp: conn_ok_def)
    show ?thesis
    proof (cases "invalid c")
      case True
      then show ?thesis using ok by (auto simp: valid_def)
    next
      case False
      have rm: "valid ?I (thenM (out (InputRemove (c_tx c))) (upd_conn a (\<lambda>c. c\<lparr>c_tx := 0\<rparr>)))
        (\<lambda>_ s. net_inv s \<and> J s) (\<lambda>s. net_inv s \<and> J s)"
        using False Some by (auto simp: valid_def exec intro!: I_remove_tx [THEN conjunct1]
            I_remove_tx [THEN conjunct2])
      have mk: "valid ?I (upd_conn a (\<lambda>c. c\<lparr>c_txbuf := Some (cb_mark_read E q n)\<rparr>))
        (\<lambda>_ s. net_inv s \<and> J s) (\<lambda>s. net_inv s \<and> J s)" for n
        using False
        by (auto simp: valid_def exec shape_def conn_ok_def
            intro!: I_set_conn [THEN conjunct1] I_set_conn [THEN conjunct2])
      show ?thesis
        unfolding Some option.case
        by (intro valid_bindM [where R = "\<lambda>_. ?I"] valid_if valid_sys_write close_then
            readError_law rm mk False valid_ret) auto
    qed
  qed
qed

lemma pres_conn_write_cb: "pres (\<lambda>s. net_inv s \<and> J s) (conn_write_cb E rdErr i)"
  using pres_write_cb
  by (auto simp: conn_write_cb_def valid_def exec split: option.splits outcome.splits)

end

text \<open>
  The whole handler.  A failed connection attempt and a closed peer are reported after
  the connection has been closed; a new connection and new bytes while it is open.
\<close>

locale conn_events = conn_client E "h_readError H" J
  for E :: "('b, 'e) net_env_scheme" and H :: "('b, 'z) net_scheme handler" and J +
  assumes connectionError_law: "J s \<Longrightarrow> net_inv s \<Longrightarrow> conns s a = Some c \<Longrightarrow> \<not> invalid c \<Longrightarrow>
      id_map s (c_handler_id c) = Some p \<Longrightarrow> conn_close E a s = Some (Ok (), t) \<Longrightarrow>
      valid (\<lambda>x. x = t) (h_connectionError H p msg a) (\<lambda>_ x. net_inv x \<and> J x)
        (\<lambda>x. net_inv x \<and> J x)"
    and closeCallback_law: "J s \<Longrightarrow> net_inv s \<Longrightarrow> conns s a = Some c \<Longrightarrow> \<not> invalid c \<Longrightarrow>
      id_map s (c_handler_id c) = Some p \<Longrightarrow> conn_close E a s = Some (Ok (), t) \<Longrightarrow>
      valid (\<lambda>x. x = t) (h_closeCallback H p a) (\<lambda>_ x. net_inv x \<and> J x) (\<lambda>x. net_inv x \<and> J x)"
    and gotConnected_law: "J s \<Longrightarrow> net_inv s \<Longrightarrow> conns s a = Some c \<Longrightarrow> \<not> invalid c \<Longrightarrow>
      id_map s (c_handler_id c) = Some p \<Longrightarrow>
      valid (\<lambda>x. x = s) (h_gotConnected H p) (\<lambda>_ x. net_inv x \<and> J x) (\<lambda>x. net_inv x \<and> J x)"
    and readCallback_law: "J s \<Longrightarrow> net_inv s \<Longrightarrow> conns s a = Some c \<Longrightarrow> \<not> invalid c \<Longrightarrow>
      id_map s (c_handler_id c) = Some p \<Longrightarrow>
      valid (\<lambda>x. x = s) (h_readCallback H p a) (\<lambda>_ x. net_inv x \<and> J x) (\<lambda>x. net_inv x \<and> J x)"
begin

lemma open_then:
  assumes law: "\<And>s c p. J s \<Longrightarrow> net_inv s \<Longrightarrow> conns s a = Some c \<Longrightarrow> \<not> invalid c \<Longrightarrow>
      id_map s (c_handler_id c) = Some p \<Longrightarrow>
      valid (\<lambda>x. x = s) (f p) (\<lambda>_ x. net_inv x \<and> J x) (\<lambda>x. net_inv x \<and> J x)"
  shows "valid (\<lambda>s. (net_inv s \<and> J s) \<and> (\<exists>c. conns s a = Some c \<and> \<not> invalid c))
    (if_HANDLER a f) (\<lambda>_ s. net_inv s \<and> J s) (\<lambda>s. net_inv s \<and> J s)"
proof -
  have "case r of Ok u \<Rightarrow> net_inv s' \<and> J s' | Throw e \<Rightarrow> e = Overflow \<longrightarrow> net_inv s' \<and> J s'"
    if s: "net_inv s" "J s" and c: "conns s a = Some c" "\<not> invalid c"
      and run: "if_HANDLER a f s = Some (r, s')" for s c r s'
  proof -
    obtain p where p: "id_map s (c_handler_id c) = Some p"
      using J_handler [OF s(2,1) c] by blast
    then have "f p s = Some (r, s')" using run c by (simp add: if_HANDLER_run)
    then show ?thesis using law [OF s(2,1) c p] unfolding valid_def by blast
  qed
  then show ?thesis unfolding valid_def by blast
qed

lemma valid_upd_conn:
  assumes "\<And>c. shape (g c) = shape c" and "\<And>c. c_tx (g c) = c_tx c" "\<And>c. c_rx (g c) = c_rx c"
    and "\<And>c. conn_ok c \<Longrightarrow> conn_ok (g c)"
  shows "valid (\<lambda>s. (net_inv s \<and> J s) \<and> P (conns s a)) (upd_conn a g)
    (\<lambda>_ s. (net_inv s \<and> J s) \<and> (\<exists>c. P (Some c) \<and> conns s a = Some (g c))) X"
proof (rule valid_quiet [OF quiet_access(2)])
  fix s u s'
  assume pre: "(net_inv s \<and> J s) \<and> P (conns s a)" and run: "upd_conn a g s = Some (Ok u, s')"
  obtain c where c: "conns s a = Some c" and s': "s' = set_conn a (Some (g c)) s"
    using run by (auto simp: exec split: option.splits)
  have "conn_ok (g c)" using assms(4) net_inv_conn(3) [of s a c] pre c by blast
  then have "net_inv s' \<and> J s'" unfolding s' using pre c assms(1-3) by (intro I_set_conn) auto
  then show "(net_inv s' \<and> J s') \<and> (\<exists>c. P (Some c) \<and> conns s' a = Some (g c))"
    using pre c by (auto simp: s')
qed

lemma valid_register_rx:
  assumes c: "\<not> invalid c" "c_rx c = 0"
  shows "valid (\<lambda>s. (net_inv s \<and> J s) \<and> conns s a = Some c)
    (bindM (ask (ne_input_add E)) (\<lambda>k.
       thenM (out (InputAdd k fd CondRead (obj_id c))) (upd_conn a (\<lambda>c. c\<lparr>c_rx := k\<rparr>))))
    (\<lambda>_ s. (net_inv s \<and> J s) \<and> (\<exists>c. conns s a = Some c \<and> \<not> invalid c)) X"
  using I_add_rx [OF _ _ c] c by (auto simp: valid_def exec)

lemma pres_got_connected_cb: "pres (\<lambda>s. net_inv s \<and> J s) (got_connected_cb E H a source error)"
proof -
  let ?I = "\<lambda>s. net_inv s \<and> J s"
  have first: "valid ?I (upd_conn a (\<lambda>c. c\<lparr>c_attempt := 0\<rparr>)) (\<lambda>_. ?I) ?I"
    by (rule valid_weaken [OF valid_upd_conn [where P = "\<lambda>_. True" and g = "\<lambda>c. c\<lparr>c_attempt := 0\<rparr>"]])
      (auto simp: shape_def conn_ok_def)
  have fail: "valid (\<lambda>s. ?I s \<and> conns s a = Some c)
      (thenM (conn_close E a) (if_HANDLER a (\<lambda>p. case error of
          None \<Rightarrow> raise (Undef NullDeref) | Some msg \<Rightarrow> h_connectionError H p msg a))) (\<lambda>_. ?I) ?I"
    if "\<not> invalid c" for c
    by (intro close_then that; cases error) (auto intro: valid_raise connectionError_law)
  have fd: "valid (\<lambda>s. ?I s \<and> conns s a = Some c) (upd_conn a (\<lambda>c. c\<lparr>c_fd := Some source\<rparr>))
      (\<lambda>_ s. ?I s \<and> conns s a = Some (c\<lparr>c_fd := Some source\<rparr>)) ?I" for c
    by (rule valid_weaken [OF valid_upd_conn [where P = "\<lambda>x. x = Some c"
            and g = "\<lambda>c. c\<lparr>c_fd := Some source\<rparr>"]])
      (auto simp: shape_def conn_ok_def)
  have ok: "valid (\<lambda>s. ?I s \<and> conns s a = Some c)
      (thenM (upd_conn a (\<lambda>c. c\<lparr>c_fd := Some source\<rparr>)) (
       thenM (ensure (c_rx c = 0) AssertFail) (
       bindM (ask (ne_input_add E)) (\<lambda>k.
       thenM (out (InputAdd k source CondRead (obj_id c))) (
       thenM (upd_conn a (\<lambda>c. c\<lparr>c_rx := k\<rparr>))
       (if_HANDLER a (h_gotConnected H))))))) (\<lambda>_. ?I) ?I"
    if c: "\<not> invalid c" for c
  proof (rule valid_thenM [OF fd], cases "c_rx c = 0")
    case False
    then show "valid (\<lambda>s. ?I s \<and> conns s a = Some (c\<lparr>c_fd := Some source\<rparr>))
      (thenM (ensure (c_rx c = 0) AssertFail) (
       bindM (ask (ne_input_add E)) (\<lambda>k.
       thenM (out (InputAdd k source CondRead (obj_id c))) (
       thenM (upd_conn a (\<lambda>c. c\<lparr>c_rx := k\<rparr>))
       (if_HANDLER a (h_gotConnected H)))))) (\<lambda>_. ?I) ?I"
      by (simp add: valid_def exec)
  next
    case True
    have seq: "thenM (ensure (c_rx c = 0) AssertFail) (
       bindM (ask (ne_input_add E)) (\<lambda>k.
       thenM (out (InputAdd k source CondRead (obj_id c))) (
       thenM (upd_conn a (\<lambda>c. c\<lparr>c_rx := k\<rparr>))
       (if_HANDLER a (h_gotConnected H)))))
      = thenM (bindM (ask (ne_input_add E)) (\<lambda>k.
       thenM (out (InputAdd k source CondRead (obj_id c))) (upd_conn a (\<lambda>c. c\<lparr>c_rx := k\<rparr>))))
       (if_HANDLER a (h_gotConnected H))"
      using True by (simp add: ensure_def thenM_def bindM_assoc)
    show "valid (\<lambda>s. ?I s \<and> conns s a = Some (c\<lparr>c_fd := Some source\<rparr>))
      (thenM (ensure (c_rx c = 0) AssertFail) (
       bindM (ask (ne_input_add E)) (\<lambda>k.
       thenM (out (InputAdd k source CondRead (obj_id c))) (
       thenM (upd_conn a (\<lambda>c. c\<lparr>c_rx := k\<rparr>))
       (if_HANDLER a (h_gotConnected H)))))) (\<lambda>_. ?I) ?I"
      unfolding seq
      using valid_thenM [OF valid_register_rx [of "c\<lparr>c_fd := Some source\<rparr>" a source ?I]
          open_then [OF gotConnected_law]] c True by simp
  qed
  show ?thesis
    unfolding got_connected_cb_def
    by (rule valid_thenM [OF first], rule valid_bindM [OF valid_get_conn])
      (intro valid_if fail ok; auto simp: isInvalid_def intro: valid_ret)
qed

lemma pres_conn_got_connected:
  "pres (\<lambda>s. net_inv s \<and> J s) (conn_got_connected E H i source error)"
  unfolding conn_got_connected_def getObjectById_def
  by (intro pres_intro pres_got_connected_cb)

lemma pres_read_cb: "pres (\<lambda>s. net_inv s \<and> J s) (read_cb E H a source)"
  unfolding read_cb_def
proof (rule valid_bindM [OF valid_get_conn])
  fix c :: "'b conn"
  let ?I = "\<lambda>s. net_inv s \<and> J s"
  let ?C = "\<lambda>s. ?I s \<and> conns s a = Some c"
  have rd: "valid ?C (out (SysRead (obj_id c) source)) (\<lambda>_. ?C) ?I"
    using I_emit [of _ "SysRead (obj_id c) source"] by (auto simp: valid_def exec fun_eq_iff)
  have ask: "valid ?C (ask (\<lambda>tr. ne_read E tr source)) (\<lambda>_. ?C) ?I"
    by (auto simp: valid_def exec)
  have push: "valid ?C (thenM (upd_conn a (\<lambda>c. c\<lparr>c_awaiting := push_str d (c_awaiting c)\<rparr>))
      (if_HANDLER a (\<lambda>p. h_readCallback H p a))) (\<lambda>_. ?I) ?I" if "\<not> invalid c" for d
  proof (rule valid_thenM)
    let ?g = "\<lambda>c :: 'b conn. c\<lparr>c_awaiting := push_str d (c_awaiting c)\<rparr>"
    show "valid ?C (upd_conn a ?g)
      (\<lambda>_ s. ?I s \<and> (\<exists>c. conns s a = Some c \<and> \<not> invalid c)) ?I"
      by (rule valid_weaken [OF valid_upd_conn [where P = "\<lambda>x. x = Some c" and g = ?g]])
        (use that in \<open>auto simp: shape_def conn_ok_def\<close>)
  qed (intro open_then readCallback_law)
  show "valid ?C
    (bindM (ask (\<lambda>tr. ne_read E tr source)) (\<lambda>r.
     thenM (out (SysRead (obj_id c) source)) (
     if isInvalid c then ret ()
     else case r of
       ReadError eagain \<Rightarrow>
         if eagain then ret ()
         else thenM (conn_close E a) (if_HANDLER a (\<lambda>p. h_readError H p a))
     | ReadData d \<Rightarrow>
         if d = [] then thenM (conn_close E a) (if_HANDLER a (\<lambda>p. h_closeCallback H p a))
         else
           thenM (upd_conn a (\<lambda>c. c\<lparr>c_awaiting := push_str d (c_awaiting c)\<rparr>))
           (if_HANDLER a (\<lambda>p. h_readCallback H p a))))) (\<lambda>_. ?I) ?I"
  proof (rule valid_bindM [OF ask], rule valid_thenM [OF rd], rule valid_if)
    fix r
    assume "\<not> isInvalid c"
    then have c: "\<not> invalid c" by (simp add: isInvalid_def)
    show "valid ?C (case r of
       ReadError eagain \<Rightarrow>
         if eagain then ret ()
         else thenM (conn_close E a) (if_HANDLER a (\<lambda>p. h_readError H p a))
     | ReadData d \<Rightarrow>
         if d = [] then thenM (conn_close E a) (if_HANDLER a (\<lambda>p. h_closeCallback H p a))
         else
           thenM (upd_conn a (\<lambda>c. c\<lparr>c_awaiting := push_str d (c_awaiting c)\<rparr>))
           (if_HANDLER a (\<lambda>p. h_readCallback H p a))) (\<lambda>_. ?I) ?I"
      by (cases r; simp only: read_result.case; intro valid_if close_then [OF readError_law c]
          close_then [OF closeCallback_law c] push [OF c] valid_ret) simp_all
  qed (auto intro: valid_ret)
qed

lemma pres_conn_read_cb: "pres (\<lambda>s. net_inv s \<and> J s) (conn_read_cb E H i source)"
  unfolding conn_read_cb_def getObjectById_def ask_def
  by (intro pres_intro pres_read_cb)

end

end
