(* ===== verification/Ownership.thy ===== *)
theory Ownership
  imports Session ConnInvariant
begin

text \<open>
  Who owns what: every open connection is the \<^verbatim>\<open>connection\<close> of exactly one live
  session, a session that is invalid has none, and libpurple's pointer to a session
  leads to a session of that account.  Every operation of \<open>Session\<close> keeps this, and with
  it a session meets the contract of a connection's handler.
\<close>

section \<open>The invariant, on the shapes of the objects\<close>

text \<open>
  \<open>C\<close> gives of each connection whether it is invalid, its number and its handler's
  number; \<open>S\<close> of each session whether it is invalid, its number, its account and its
  connection; \<open>M\<close> is the object table and \<open>P\<close> libpurple's pointers.
\<close>

definition owned_on ::
  "(nat \<Rightarrow> (bool \<times> int \<times> int) option) \<Rightarrow> (nat \<Rightarrow> (bool \<times> int \<times> nat \<times> nat option) option) \<Rightarrow>
     (int \<Rightarrow> nat option) \<Rightarrow> (nat \<Rightarrow> nat option) \<Rightarrow> bool" where
  "owned_on C S M P \<longleftrightarrow>
     (\<forall>p v i acct k. S p = Some (v, i, acct, k) \<longrightarrow> M i = Some p \<and> C p = None
        \<and> (\<forall>a. k = Some a \<longrightarrow> \<not> v \<and> (\<exists>d j. C a = Some (d, j, i))))
   \<and> (\<forall>a j i. C a = Some (False, j, i) \<longrightarrow> (\<exists>p acct. S p = Some (False, i, acct, Some a)))
   \<and> (\<forall>acct p. P acct = Some p \<longrightarrow> (\<exists>v i k. S p = Some (v, i, acct, k)))"

lemma owned_on_session:
  assumes "owned_on C S M P" and "S p = Some (v, i, acct, k)"
  shows "M i = Some p" and "C p = None"
  using assms unfolding owned_on_def by blast+

lemma owned_on_connected:
  assumes "owned_on C S M P" and "S p = Some (v, i, acct, Some a)"
  shows "v = False" and "\<exists>d j. C a = Some (d, j, i)"
  using assms unfolding owned_on_def by blast+

lemma owned_on_conn:
  assumes "owned_on C S M P" and "C a = Some (False, j, i)"
  obtains p acct where "S p = Some (False, i, acct, Some a)"
  using assms unfolding owned_on_def by blast

lemma owned_on_proto:
  assumes "owned_on C S M P" and "P acct = Some p"
  obtains v i k where "S p = Some (v, i, acct, k)"
  using assms unfolding owned_on_def by blast

lemma owned_onI:
  assumes "\<And>p v i acct k. S p = Some (v, i, acct, k) \<Longrightarrow> M i = Some p \<and> C p = None"
    and "\<And>p v i acct a. S p = Some (v, i, acct, Some a) \<Longrightarrow> \<not> v \<and> (\<exists>d j. C a = Some (d, j, i))"
    and "\<And>a j i. C a = Some (False, j, i) \<Longrightarrow> \<exists>p acct. S p = Some (False, i, acct, Some a)"
    and "\<And>acct p. P acct = Some p \<Longrightarrow> \<exists>v i k. S p = Some (v, i, acct, k)"
  shows "owned_on C S M P"
  using assms unfolding owned_on_def by blast

text \<open>One connection has one owner, and a session's number is no connection's.\<close>

lemma owner_unique:
  assumes o: "owned_on C S M P" and "S p = Some (v, i, acct, Some a)"
    and "S q = Some (v', i', acct', Some a)"
  shows "p = q"
proof -
  have "i = i'" using owned_on_connected(2) [OF o assms(2)] owned_on_connected(2) [OF o assms(3)] by force
  then show ?thesis
    using owned_on_session(1) [OF o assms(2)] owned_on_session(1) [OF o assms(3)] by simp
qed

lemma owned_on_invalidate:
  assumes o: "owned_on C S M P" and p: "S p = Some (False, i, acct, None)"
  shows "owned_on C (S(p \<mapsto> (True, i, acct, None))) M P"
proof (rule owned_onI)
  fix q v i' acct' k assume "(S(p \<mapsto> (True, i, acct, None))) q = Some (v, i', acct', k)"
  then show "M i' = Some q \<and> C q = None"
    using owned_on_session [OF o] p by (auto split: if_splits)
next
  fix q v i' acct' a assume "(S(p \<mapsto> (True, i, acct, None))) q = Some (v, i', acct', Some a)"
  then have "S q = Some (v, i', acct', Some a)" by (simp split: if_splits)
  then show "\<not> v \<and> (\<exists>d j. C a = Some (d, j, i'))" using owned_on_connected [OF o] by simp
next
  fix a j h assume "C a = Some (False, j, h)"
  then obtain q acct' where "S q = Some (False, h, acct', Some a)" by (rule owned_on_conn [OF o])
  then show "\<exists>q acct'. (S(p \<mapsto> (True, i, acct, None))) q = Some (False, h, acct', Some a)"
    using p by (cases "q = p") auto
next
  fix acct' q assume "P acct' = Some q"
  then obtain v h k where "S q = Some (v, h, acct', k)" by (rule owned_on_proto [OF o])
  then show "\<exists>v h k. (S(p \<mapsto> (True, i, acct, None))) q = Some (v, h, acct', k)"
    using p by (cases "q = p") auto
qed

lemma owned_on_drop:
  assumes o: "owned_on C S M P" and p: "S p = Some (False, i, acct, Some a)"
    and a: "C a = Some (d, j, i)" "M j = Some a"
  shows "owned_on (C(a := None)) (S(p \<mapsto> (v, i, acct, None))) (M(j := None)) P"
proof (rule owned_onI)
  fix q v' i' acct' k assume q: "(S(p \<mapsto> (v, i, acct, None))) q = Some (v', i', acct', k)"
  have "M i' = Some q \<and> C q = None"
    using q p owned_on_session [OF o] by (auto split: if_splits)
  moreover have "q \<noteq> a" using calculation a(1) by auto
  ultimately show "(M(j := None)) i' = Some q \<and> (C(a := None)) q = None" using a by auto
next
  fix q v' i' acct' b assume q: "(S(p \<mapsto> (v, i, acct, None))) q = Some (v', i', acct', Some b)"
  then have "S q = Some (v', i', acct', Some b)" "q \<noteq> p" by (auto split: if_splits)
  moreover from this have "b \<noteq> a" using owner_unique [OF o p] by blast
  ultimately show "\<not> v' \<and> (\<exists>d j. (C(a := None)) b = Some (d, j, i'))"
    using owned_on_connected [OF o \<open>S q = _\<close>] by simp
next
  fix b j' h assume b: "(C(a := None)) b = Some (False, j', h)"
  then obtain q acct' where q: "S q = Some (False, h, acct', Some b)"
    using owned_on_conn [OF o] by (metis fun_upd_other fun_upd_same option.distinct(1))
  moreover have "b \<noteq> a" using b by auto
  ultimately have "q \<noteq> p" using p by auto
  then show "\<exists>q acct'. (S(p \<mapsto> (v, i, acct, None))) q = Some (False, h, acct', Some b)"
    using q by auto
next
  fix acct' q assume "P acct' = Some q"
  then obtain v' h k where "S q = Some (v', h, acct', k)" by (rule owned_on_proto [OF o])
  then show "\<exists>v' h k. (S(p \<mapsto> (v, i, acct, None))) q = Some (v', h, acct', k)"
    using p by (cases "q = p") auto
qed

lemma owned_on_adopt:
  assumes o: "owned_on C S M P" and p: "S p = Some (False, i, acct, k)"
    and k: "\<And>a d j h. k = Some a \<Longrightarrow> C a = Some (d, j, h) \<Longrightarrow> d"
    and n: "C n = None" "S n = None" "M m = None"
  shows "owned_on (C(n \<mapsto> (False, m, i))) (S(p \<mapsto> (False, i, acct, Some n))) (M(m \<mapsto> n)) P"
proof (rule owned_onI)
  fix q v i' acct' k' assume "(S(p \<mapsto> (False, i, acct, Some n))) q = Some (v, i', acct', k')"
  then have "M i' = Some q \<and> C q = None" and "q \<noteq> n"
    using p n owned_on_session [OF o] by (auto split: if_splits)
  then show "(M(m \<mapsto> n)) i' = Some q \<and> (C(n \<mapsto> (False, m, i))) q = None" using n by auto
next
  fix q v i' acct' a assume "(S(p \<mapsto> (False, i, acct, Some n))) q = Some (v, i', acct', Some a)"
  then consider "q = p" "v = False" "i' = i" "a = n" | "S q = Some (v, i', acct', Some a)"
    by (auto split: if_splits)
  then show "\<not> v \<and> (\<exists>d j. (C(n \<mapsto> (False, m, i))) a = Some (d, j, i'))"
  proof cases
    case 1
    then show ?thesis by (intro conjI exI [of _ False] exI [of _ m]) simp_all
  next
    case 2
    then show ?thesis using owned_on_connected [OF o 2] n(1) by (cases "a = n") auto
  qed
next
  fix a j h assume a: "(C(n \<mapsto> (False, m, i))) a = Some (False, j, h)"
  show "\<exists>q acct'. (S(p \<mapsto> (False, i, acct, Some n))) q = Some (False, h, acct', Some a)"
  proof (cases "a = n")
    case True
    then show ?thesis using a by (intro exI [of _ p] exI [of _ acct]) simp
  next
    case False
    then have c: "C a = Some (False, j, h)" using a by simp
    then obtain q acct' where q: "S q = Some (False, h, acct', Some a)" by (rule owned_on_conn [OF o])
    moreover have "q \<noteq> p" using q p k [OF _ c] by auto
    ultimately show ?thesis by auto
  qed
next
  fix acct' q assume "P acct' = Some q"
  then obtain v h k' where "S q = Some (v, h, acct', k')" by (rule owned_on_proto [OF o])
  then show "\<exists>v h k'. (S(p \<mapsto> (False, i, acct, Some n))) q = Some (v, h, acct', k')"
    using p by (cases "q = p") auto
qed

lemma owned_on_new:
  assumes o: "owned_on C S M P" and n: "C n = None" "S n = None" "M m = None"
  shows "owned_on C (S(n \<mapsto> (False, m, acct, None))) (M(m \<mapsto> n)) (P(acct \<mapsto> n))"
  using o n unfolding owned_on_def by (auto split: if_splits) (metis option.distinct(1))+

lemma owned_on_remove:
  assumes o: "owned_on C S M P" and p: "S p = Some (True, i, acct, None)"
  shows "owned_on C (S(p := None)) (M(i := None)) (P(acct := None))"
proof (rule owned_onI)
  fix q v i' acct' k assume "(S(p := None)) q = Some (v, i', acct', k)"
  then show "(M(i := None)) i' = Some q \<and> C q = None"
    using owned_on_session [OF o] p by (auto split: if_splits) (metis option.inject)
next
  fix acct' q assume "(P(acct := None)) acct' = Some q"
  then have "acct' \<noteq> acct" and "P acct' = Some q" by (auto split: if_splits)
  then show "\<exists>v i k. (S(p := None)) q = Some (v, i, acct', k)"
    using owned_on_proto [OF o] p by (metis Pair_inject fun_upd_other option.inject)
next
  fix a j h assume "C a = Some (False, j, h)"
  then obtain q acct' where "S q = Some (False, h, acct', Some a)" by (rule owned_on_conn [OF o])
  then show "\<exists>q acct'. (S(p := None)) q = Some (False, h, acct', Some a)"
    using p by (cases "q = p") auto
next
  fix q v i' acct' a assume "(S(p := None)) q = Some (v, i', acct', Some a)"
  then have "S q = Some (v, i', acct', Some a)" by (simp split: if_splits)
  then show "\<not> v \<and> (\<exists>d j. C a = Some (d, j, i'))" using owned_on_connected [OF o] by simp
qed

section \<open>The invariant of the world\<close>

definition sess_shape :: "sess \<Rightarrow> bool \<times> int \<times> nat \<times> nat option" where
  "sess_shape s = (invalid s, obj_id s, s_account s, s_connection s)"

definition owned :: "'b world \<Rightarrow> bool" where
  "owned w \<longleftrightarrow> owned_on (\<lambda>a. map_option shape (conns w a))
     (\<lambda>p. map_option sess_shape (sessions w p)) (id_map w) (proto_data w)"

definition own :: "('b, 'e) env_scheme \<Rightarrow> 'b world \<Rightarrow> bool" where
  "own E w \<longleftrightarrow> fresh_handles E \<and> owned w"

abbreviation good :: "('b, 'e) env_scheme \<Rightarrow> 'b world \<Rightarrow> bool" where
  "good E \<equiv> \<lambda>w. net_inv w \<and> own E w"

lemma owned_session:
  assumes "owned w" and "sessions w p = Some s"
  shows "id_map w (obj_id s) = Some p" and "conns w p = None"
  using owned_on_session [OF assms(1) [unfolded owned_def], of p "invalid s" "obj_id s"
      "s_account s" "s_connection s"] assms(2)
  by (simp_all add: sess_shape_def)

lemma owned_connected:
  assumes "owned w" and "sessions w p = Some s" and "s_connection s = Some a"
  shows "\<not> invalid s" and "\<exists>c. conns w a = Some c \<and> c_handler_id c = obj_id s"
  using owned_on_connected [OF assms(1) [unfolded owned_def], of p "invalid s" "obj_id s"
      "s_account s" a] assms(2,3)
  by (auto simp: sess_shape_def shape_def)

lemma owned_conn:
  assumes "owned w" and "conns w a = Some c" and "\<not> invalid c"
  obtains p s where "sessions w p = Some s" and "\<not> invalid s" and "s_connection s = Some a"
    and "obj_id s = c_handler_id c"
proof -
  have "map_option shape (conns w a) = Some (False, obj_id c, c_handler_id c)"
    using assms(2,3) by (simp add: shape_def)
  then obtain p acct where
    "map_option sess_shape (sessions w p) = Some (False, c_handler_id c, acct, Some a)"
    by (rule owned_on_conn [OF assms(1) [unfolded owned_def]])
  then show ?thesis using that by (auto simp: sess_shape_def)
qed

lemma owned_proto:
  assumes "owned w" and "proto_data w acct = Some p"
  obtains s where "sessions w p = Some s" and "s_account s = acct"
proof -
  obtain v i k where "map_option sess_shape (sessions w p) = Some (v, i, acct, k)"
    by (rule owned_on_proto [OF assms(1) [unfolded owned_def] assms(2)])
  then show ?thesis using that by (auto simp: sess_shape_def)
qed

lemma net_inv_set_sess [simp]: "net_inv (set_sess p x w) = net_inv w"
  by (simp add: net_inv_def)

lemma net_inv_set_proto [simp]: "net_inv (set_proto acct x w) = net_inv w"
  by (simp add: net_inv_def)

lemma same_objs_owned:
  assumes "same_objs w w'" and "owned w"
  shows "owned w'"
proof -
  obtain C tr where w': "w' = w\<lparr>conns := C, history := tr\<rparr>"
    and sh: "\<forall>a. map_option shape (C a) = map_option shape (conns w a)"
    using assms(1) unfolding same_objs_def by blast
  have "sessions w' = sessions w" "proto_data w' = proto_data w" "id_map w' = id_map w"
    by (simp_all add: w')
  then show ?thesis using assms(2) sh by (simp add: owned_def w')
qed

lemma same_objs_own: "own E w \<Longrightarrow> same_objs w w' \<Longrightarrow> own E w'"
  using same_objs_owned by (auto simp: own_def)

lemma same_objs_trans:
  assumes "same_objs s t" and "same_objs t u"
  shows "same_objs s u"
proof -
  obtain C tr D tr' where t: "t = s\<lparr>conns := C, history := tr\<rparr>"
    and u: "u = t\<lparr>conns := D, history := tr'\<rparr>"
    and "\<forall>a. map_option shape (C a) = map_option shape (conns s a)"
    and "\<forall>a. map_option shape (D a) = map_option shape (conns t a)"
    using assms unfolding same_objs_def by blast
  then show ?thesis
    unfolding same_objs_def by (intro exI [of _ D] exI [of _ tr']) simp
qed

text \<open>Events that do not concern the event loop's inputs.\<close>

definition plain :: "event \<Rightarrow> bool" where
  "plain e \<longleftrightarrow> (\<forall>tr h. watches (e # tr) h = watches tr h)"

lemma plain_events [simp]:
  "plain (ProxyConnect n x i j k)" "plain (ProxyCancel i)" "plain (TimeoutAdd i j k)"
  "plain (TimeoutRemove i)" "plain (ConnectionError n r x)" "plain (UpdateProgress n x i j)"
  "plain (SetConnected n)" "plain (GotIm n x y i)" "plain (GotTyping n x i)"
  "plain (GotUserStatus n x y m)" "plain (UpdateBuddyStatus n x)" "plain (AddBuddy n x y)"
  "plain (NewGroup x)" "plain (NotifyEmails n i x)" "plain (RequestAuthorization n ar)"
  "plain (FetchUrl x f i y)" "plain (SetBuddyIcon n x y)" "plain (NotifyUri x)"
  "plain (RoomlistUnref i)" "plain (RoomlistNew n i)" "plain (RoomlistSetFields i xs)"
  "plain (RoomlistInProgress i b)" "plain (RoomlistAddRoom i x xs)"
  by (simp_all add: plain_def)

lemma good_emit: "good E w \<Longrightarrow> plain e \<Longrightarrow> good E (emit e w)"
  using same_objs_own [OF _ same_objs_emit] net_inv_emit [of w e]
  by (auto simp: plain_def fun_eq_iff)

lemma pres_out [pres_intro]: "plain e \<Longrightarrow> pres (good E) (out e)"
  using good_emit by (auto simp: valid_def exec)

lemma pres_ask [pres_intro]: "pres I (ask f)"
  by (auto simp: valid_def exec)

lemma good_set_sess:
  assumes "good E w" and "sessions w p = Some s" and "sess_shape s' = sess_shape s"
  shows "good E (set_sess p (Some s') w)"
proof -
  have "(\<lambda>q. map_option sess_shape (((sessions w)(p \<mapsto> s')) q)) = (\<lambda>q. map_option sess_shape (sessions w q))"
    using assms(2,3) by auto
  then show ?thesis using assms(1) by (simp add: own_def owned_def)
qed

lemma pres_upd_sess [pres_intro]:
  assumes "\<And>s. sess_shape (g s) = sess_shape s"
  shows "pres (good E) (upd_sess p g)"
  by (auto simp: valid_def exec assms split: option.splits
      intro!: good_set_sess [THEN conjunct1] good_set_sess [THEN conjunct2])

lemma pres_access [pres_intro]:
  "pres I (get_sess p)" "pres I (assert_valid p)" "pres I (the_connection p)"
  "pres I (string_of_ptr x)" "pres I (getProxyAccount p)" "pres I (getObjectById i)"
  "pres I (get_conn a)"
  by (auto simp: valid_def exec split: option.splits if_splits)

section \<open>Destruction\<close>

text \<open>A session's connection is deleted and the pointer to it cleared.\<close>

lemma good_drop:
  assumes w: "good E w" and p: "sessions w p = Some s" "s_connection s = Some a"
    and net: "net_inv w'" and c: "conns w a = Some c"
    and w': "conns w' = (conns w)(a := None)" "id_map w' = (id_map w)(obj_id c := None)"
      "sessions w' = (sessions w)(p \<mapsto> s')" "proto_data w' = proto_data w"
    and s': "sess_shape s' = (v, obj_id s, s_account s, None)"
  shows "good E w'"
proof -
  have o: "owned w" using w by (simp add: own_def)
  have "\<not> invalid s" and h: "c_handler_id c = obj_id s"
    using owned_connected [OF o p] c by auto
  have "owned_on ((\<lambda>b. map_option shape (conns w b))(a := None))
      ((\<lambda>q. map_option sess_shape (sessions w q))(p \<mapsto> (v, obj_id s, s_account s, None)))
      ((id_map w)(obj_id c := None)) (proto_data w)"
    by (rule owned_on_drop [OF o [unfolded owned_def], where d = "invalid c"])
      (use p c h \<open>\<not> invalid s\<close> net_inv_conn(1) [OF conjunct1 [OF w] c]
        in \<open>simp_all add: sess_shape_def shape_def\<close>)
  moreover have "(\<lambda>b. map_option shape (conns w b))(a := None) = (\<lambda>b. map_option shape (conns w' b))"
    by (auto simp: w')
  moreover have "(\<lambda>q. map_option sess_shape (sessions w q))(p \<mapsto> (v, obj_id s, s_account s, None))
      = (\<lambda>q. map_option sess_shape (sessions w' q))"
    using s' by (auto simp: w')
  ultimately show ?thesis using net w by (simp add: own_def owned_def w')
qed

lemma softDestroy_OkD:
  fixes w :: "'b world"
  assumes w: "good E w" and run: "softDestroy E p w = Some (Ok u, w')"
  shows "good E w'"
    and "\<exists>s s'. sessions w p = Some s \<and> sessions w' = (sessions w)(p \<mapsto> s')
      \<and> sess_shape s' = (True, obj_id s, s_account s, None)"
    and "proto_data w' = proto_data w"
proof -
  obtain s where s: "sessions w p = Some s" using run by (auto simp: softDestroy_def exec split: option.splits)
  have o: "owned w" using w by (simp add: own_def)
  have "good E w' \<and> proto_data w' = proto_data w \<and> (\<exists>s'. sessions w' = (sessions w)(p \<mapsto> s')
      \<and> sess_shape s' = (True, obj_id s, s_account s, None))"
  proof (cases "invalid s")
    case True
    then have "s_connection s = None"
      using owned_connected(1) [OF o s] by (cases "s_connection s") auto
    moreover have "w' = w" using run s True by (simp add: softDestroy_def exec isInvalid_def)
    ultimately show ?thesis using w s True
      by (intro conjI exI [of _ s]) (auto simp: sess_shape_def fun_upd_idem)
  next
    case False
    define w1 where "w1 = (if s_keep_alive_timer s = 0 then w
      else set_sess p (Some (s\<lparr>s_keep_alive_timer := 0\<rparr>)) (emit (TimeoutRemove (s_keep_alive_timer s)) w))"
    let ?s = "setInvalid (s\<lparr>s_keep_alive_timer := 0\<rparr>)"
    have s1: "sessions w1 p = Some (s\<lparr>s_keep_alive_timer := 0\<rparr>)"
      using s by (auto simp: w1_def)
    have w1: "good E w1"
      using w s unfolding w1_def
      by (auto intro!: good_set_sess [THEN conjunct1] good_set_sess [THEN conjunct2]
          good_emit [THEN conjunct1] good_emit [THEN conjunct2] simp: sess_shape_def)
    have sw1: "sessions w1 = (sessions w)(p \<mapsto> s\<lparr>s_keep_alive_timer := 0\<rparr>)"
      and pw1: "proto_data w1 = proto_data w"
      using s by (auto simp: w1_def fun_eq_iff)
    let ?w2 = "set_sess p (Some ?s) w1"
    have t0: "s\<lparr>s_keep_alive_timer := 0\<rparr> = s" if "s_keep_alive_timer s = 0"
      using that by (cases s) simp
    define K :: "('b world, unit) M" where
      "K = thenM (delete_conn E (s_connection s)) (upd_sess p (\<lambda>s. s\<lparr>s_connection := None\<rparr>))"
    have "softDestroy E p w = K ?w2"
      using s False
      by (cases "s_keep_alive_timer s = 0")
        (simp_all add: softDestroy_def exec isInvalid_def w1_def t0 flip: K_def)
    then have run2: "K ?w2 = Some (Ok u, w')" using run by simp
    show ?thesis
    proof (cases "s_connection s")
      case None
      then have w': "w' = set_sess p (Some (?s\<lparr>s_connection := None\<rparr>)) w1"
        using run2 by (simp add: K_def exec delete_conn_def)
      have "owned_on (\<lambda>a. map_option shape (conns w1 a))
          ((\<lambda>q. map_option sess_shape (sessions w1 q))(p \<mapsto> (True, obj_id s, s_account s, None)))
          (id_map w1) (proto_data w1)"
        by (rule owned_on_invalidate)
          (use w1 s1 None False in \<open>simp_all add: own_def owned_def sess_shape_def\<close>)
      moreover have "(\<lambda>q. map_option sess_shape (sessions w1 q))(p \<mapsto> (True, obj_id s, s_account s, None))
          = (\<lambda>q. map_option sess_shape (sessions w' q))"
        by (auto simp: w' sess_shape_def setInvalid_def)
      ultimately have "owned w'" by (simp add: owned_def w')
      then show ?thesis
        using w1 sw1 pw1 by (auto simp: w' own_def sess_shape_def setInvalid_def)
    next
      case (Some a)
      then obtain w3 where d: "delete_conn E (Some a) ?w2 = Some (Ok (), w3)"
        and u: "upd_sess p (\<lambda>s. s\<lparr>s_connection := None\<rparr>) w3 = Some (Ok u, w')"
        using run2 by (auto simp: K_def thenM_def elim!: bindM_SomeE)
      obtain c tr where c: "conns ?w2 a = Some c" and w3: "w3 = ?w2\<lparr>conns := (conns ?w2)(a := None),
          history := tr, id_map := (id_map ?w2)(obj_id c := None)\<rparr>"
        using d by (rule delete_conn_OkD)
      have p3: "sessions w3 = (sessions w1)(p \<mapsto> ?s)" "proto_data w3 = proto_data w1"
        by (simp_all add: w3 set_sess_def)
      have w': "w' = set_sess p (Some (?s\<lparr>s_connection := None\<rparr>)) w3"
        using u by (simp add: exec p3)
      have sh: "sess_shape (?s\<lparr>s_connection := None\<rparr>) = (True, obj_id s, s_account s, None)"
        by (simp add: sess_shape_def setInvalid_def)
      have "good E w'"
      proof (rule good_drop [where v = True, OF w1 s1])
        show "net_inv w'" using net_inv_delete [OF _ d] w1 by (simp add: w')
        show "sess_shape (?s\<lparr>s_connection := None\<rparr>) = (True, obj_id (s\<lparr>s_keep_alive_timer := 0\<rparr>),
            s_account (s\<lparr>s_keep_alive_timer := 0\<rparr>), None)"
          by (simp add: sh)
      qed (use Some c in \<open>simp_all add: w' w3 set_sess_def\<close>)
      then show ?thesis
        using sw1 pw1 p3 by (auto simp: w' own_def sess_shape_def setInvalid_def)
    qed
  qed
  then show "good E w'" "proto_data w' = proto_data w"
    "\<exists>s s'. sessions w p = Some s \<and> sessions w' = (sessions w)(p \<mapsto> s')
      \<and> sess_shape s' = (True, obj_id s, s_account s, None)"
    using s by blast+
qed

lemma softDestroy_deletes:
  assumes "owned w" and run: "softDestroy E p w = Some (Ok u, w')"
    and s: "sessions w p = Some s" "s_connection s = Some a"
  shows "conns w' a = None"
proof -
  have "\<not> invalid s" by (rule owned_connected(1) [OF assms(1) s])
  then obtain w1 w2 where "delete_conn E (Some a) w1 = Some (Ok (), w2)"
    and "upd_sess p (\<lambda>s. s\<lparr>s_connection := None\<rparr>) w2 = Some (Ok u, w')"
    using run s by (auto simp: softDestroy_def get_sess_then isInvalid_def thenM_def
        elim!: bindM_SomeE)
  then show ?thesis by (auto simp: exec split: option.splits elim!: delete_conn_OkD)
qed

lemma pres_softDestroy [pres_intro]: "pres (good E) (softDestroy E p)"
  by (rule valid_quiet [OF quiet_softDestroy]) (rule softDestroy_OkD)

lemma setStateNetworkError_OkD:
  assumes "good E w" and run: "setStateNetworkError E p r m w = Some (Ok u, w')"
  shows "good E w'" and "\<exists>s'. sessions w' p = Some s' \<and> invalid s' \<and> s_connection s' = None"
proof -
  obtain w1 s1 where d: "softDestroy E p w = Some (Ok (), w1)" and s1: "sessions w1 p = Some s1"
    and w': "w' = emit (ConnectionError (s_account s1) r (c_str (m @ [CHR 0x0A]))) w1"
    using run by (auto simp: setStateNetworkError_def thenM_def prim split: option.splits if_splits
        elim!: bindM_SomeE)
  show "good E w'" unfolding w' by (rule good_emit [OF softDestroy_OkD(1) [OF assms(1) d]]) simp
  show "\<exists>s'. sessions w' p = Some s' \<and> invalid s' \<and> s_connection s' = None"
    using softDestroy_OkD(2) [OF assms(1) d] by (auto simp: w' sess_shape_def)
qed

lemma pres_setStateNetworkError [pres_intro]: "pres (good E) (setStateNetworkError E p r m)"
  by (rule valid_quiet [OF quiet_setStateNetworkError]) (rule setStateNetworkError_OkD)

lemma pres_errors [pres_intro]:
  "pres (good E) (readError E p a)" "pres (good E) (connectionError E p e a)"
  "pres (good E) (shutdown E p)"
  unfolding readError_def connectionError_def shutdown_def by (intro pres_intro)+

end
