(* ===== verification/SessionInvariant.thy ===== *)
theory SessionInvariant
  imports Ownership
begin

text \<open>
  The operations that change who owns what keep the invariant of the world: writing,
  which may close a connection, and the login functions, which replace one.
\<close>

section \<open>A session as the client of a connection\<close>

lemma own_handler:
  "own E w \<Longrightarrow> net_inv w \<Longrightarrow> conns w a = Some c \<Longrightarrow> \<not> invalid c \<Longrightarrow>
     \<exists>p. id_map w (c_handler_id c) = Some p"
  unfolding own_def by (metis owned_conn owned_session(1))

lemma same_objs_close:
  assumes "conn_close E a w = Some (Ok u, t)" and "owned w"
  shows "owned t"
proof -
  obtain c fd where c: "conns w a = Some c" and t: "t = w\<lparr>conns := (conns w)(a \<mapsto>
      closed E c fd (history w)), history := closing_history E c fd (history w)\<rparr>"
    using assms(1) by (rule conn_close_OkD)
  have st: "sessions t = sessions w" "proto_data t = proto_data w" "id_map t = id_map w"
    and ct: "conns t = (conns w)(a \<mapsto> closed E c fd (history w))"
    by (simp_all add: t)
  show ?thesis unfolding owned_def
  proof (rule owned_onI)
    fix b j i assume "map_option shape (conns t b) = Some (False, j, i)"
    then have "map_option shape (conns w b) = Some (False, j, i)"
      by (auto simp: ct shape_def closed_def split: if_splits)
    then show "\<exists>p acct. map_option sess_shape (sessions t p) = Some (False, i, acct, Some b)"
      using owned_on_conn [OF assms(2) [unfolded owned_def]] st by metis
  next
    fix p v i acct k assume "map_option sess_shape (sessions t p) = Some (v, i, acct, k)"
    then show "id_map t i = Some p \<and> map_option shape (conns t p) = None"
      using owned_on_session [OF assms(2) [unfolded owned_def], of p v i acct k] st ct c
      by (auto split: if_splits)
  next
    fix p v i acct b assume "map_option sess_shape (sessions t p) = Some (v, i, acct, Some b)"
    then show "\<not> v \<and> (\<exists>d j. map_option shape (conns t b) = Some (d, j, i))"
      using owned_on_connected [OF assms(2) [unfolded owned_def], of p v i acct b] st ct c
      by (auto simp: shape_def closed_def split: if_splits)
  next
    fix acct p assume "proto_data t acct = Some p"
    then show "\<exists>v i k. map_option sess_shape (sessions t p) = Some (v, i, acct, k)"
      using owned_on_proto [OF assms(2) [unfolded owned_def]] st by metis
  qed
qed

lemma good_close: "good E w \<Longrightarrow> conn_close E a w = Some (Ok u, t) \<Longrightarrow> good E t"
  using net_inv_close same_objs_close by (auto simp: own_def)

text \<open>A handler function that keeps the invariant may be called after closing.\<close>

lemma pres_after_close:
  "pres (good E) m \<Longrightarrow> good E w \<Longrightarrow> conn_close E a w = Some (Ok u, t) \<Longrightarrow>
     valid (\<lambda>x. x = t) m (\<lambda>_. good E) (good E)"
  by (erule valid_pre) (drule (1) good_close, simp)

interpretation writer: conn_client E "readError E" "own E" for E :: "'b env"
proof
  fix s t :: "'b world" and a c p
  assume s: "own E s" "net_inv s" "conn_close E a s = Some (Ok (), t)"
  show "valid (\<lambda>x. x = t) (readError E p a) (\<lambda>_ x. net_inv x \<and> own E x) (\<lambda>x. net_inv x \<and> own E x)"
    by (rule pres_after_close [OF pres_errors(1) conjI [OF s(2,1)] s(3)])
next
  show "own E s \<Longrightarrow> fresh_handles E" for s :: "'b world" by (simp add: own_def)
next
  show "own E s \<Longrightarrow> same_objs s s' \<Longrightarrow> own E s'" for s s' :: "'b world" by (rule same_objs_own)
next
  show "own E s \<Longrightarrow> net_inv s \<Longrightarrow> conns s a = Some c \<Longrightarrow> \<not> invalid c \<Longrightarrow>
    \<exists>p. id_map s (c_handler_id c) = Some p" for s :: "'b world" and a c by (rule own_handler)
qed

section \<open>Writing\<close>

lemma pres_sess_write [pres_intro]: "pres (good E) (sess_write E p d)"
  unfolding sess_write_def by (intro pres_intro writer.pres_conn_write)

section \<open>Login\<close>

lemma establish_connection_OkD:
  assumes inv: "net_inv w" and c: "conns w a = Some c" "\<not> invalid c"
    and run: "establish_connection E getProxyAccount a ip port w = Some (Ok ok, w')"
  shows "net_inv w'" and "same_objs w w'"
proof -
  obtain q sq where "id_map w (c_handler_id c) = Some q" "sessions w q = Some sq"
    using run c by (auto simp: establish_connection_def exec split: option.splits if_splits)
  then obtain k acct where w': "w' = set_conn a (Some (c\<lparr>c_fd := Some (-1), c_attempt := k\<rparr>))
      (emit (ProxyConnect acct (c_str ip) port k (obj_id c)) w)"
    using run c by (simp add: establish_connection_def exec set_conn_emit split: if_splits) blast
  have "conn_ok (c\<lparr>c_fd := Some (-1), c_attempt := k\<rparr>)"
    using net_inv_conn(3) [OF inv c(1)] c(2) by (simp add: conn_ok_def)
  then show "net_inv w'" unfolding w'
    using inv c by (intro net_inv_set_conn net_inv_emit) (simp_all add: fun_eq_iff)
  show "same_objs w w'" unfolding w'
    using c by (intro same_objs_trans [OF same_objs_emit same_objs_set]) (simp_all add: shape_def)
qed

text \<open>A live session whose connection, if any, is closed takes a new one.\<close>

lemma good_adopt:
  assumes w: "good E w" and p: "sessions w p = Some s" "\<not> invalid s"
    and old: "\<And>a c. s_connection s = Some a \<Longrightarrow> conns w a = Some c \<Longrightarrow> invalid c"
    and new: "new_conn E (obj_id s) pm w = Some (Ok n, w1)"
  shows "good E (set_sess p (Some (s\<lparr>s_connection := Some n\<rparr>)) w1)"
    and "sessions w1 p = Some s"
    and "conns w1 n = Some (fresh_conn E (id_counter w) (obj_id s) pm)"
proof -
  note w1 = new_conn_OkD [OF new]
  have sw1: "sessions w1 = sessions w" and pw1: "proto_data w1 = proto_data w"
    and cw1: "conns w1 = (conns w)(n \<mapsto> fresh_conn E (id_counter w) (obj_id s) pm)"
    and mw1: "id_map w1 = (id_map w)(id_counter w \<mapsto> n)"
    by (simp_all add: w1(2))
  show "sessions w1 p = Some s" using p sw1 by simp
  show "conns w1 n = Some (fresh_conn E (id_counter w) (obj_id s) pm)" by (simp add: cw1)
  have o: "owned w" and inv: "net_inv w" using w by (simp_all add: own_def)
  have n: "conns w n = None" using net_inv_fresh_addr [OF inv] w1(1) by simp
  have nk: "id_map w (id_counter w) = None" and mn: "id_map w i \<noteq> Some n" for i
    using inv w1(1) unfolding net_inv_def inv_on_def by (metis less_irrefl not_None_eq)+
  have ns: "sessions w n = None"
    using owned_session(1) [OF o, of n] mn by (cases "sessions w n") auto
  have "owned_on ((\<lambda>a. map_option shape (conns w a))(n \<mapsto> (False, id_counter w, obj_id s)))
      ((\<lambda>q. map_option sess_shape (sessions w q))(p \<mapsto> (False, obj_id s, s_account s, Some n)))
      ((id_map w)(id_counter w \<mapsto> n)) (proto_data w)"
    by (rule owned_on_adopt [OF o [unfolded owned_def], where k = "s_connection s"])
      (use p n ns nk old in \<open>auto simp: sess_shape_def shape_def\<close>)
  moreover have "(\<lambda>a. map_option shape (conns w a))(n \<mapsto> (False, id_counter w, obj_id s))
      = (\<lambda>a. map_option shape (conns w1 a))"
    by (auto simp: cw1 fresh_conn_def shape_def)
  moreover have "(\<lambda>q. map_option sess_shape (sessions w q))(p \<mapsto> (False, obj_id s, s_account s, Some n))
      = (\<lambda>q. map_option sess_shape (((sessions w)(p \<mapsto> s\<lparr>s_connection := Some n\<rparr>)) q))"
    using p by (auto simp: sess_shape_def)
  ultimately show "good E (set_sess p (Some (s\<lparr>s_connection := Some n\<rparr>)) w1)"
    using w net_inv_new [OF inv new] by (simp add: own_def owned_def sw1 pw1 mw1)
qed

lemma clear_connection:
  assumes "sessions w p = Some s" and "s_connection s = None"
  shows "upd_sess p (\<lambda>s. s\<lparr>s_connection := None\<rparr>) w = Some (Ok (), set_sess p (Some s) w)"
    and "good E w \<Longrightarrow> good E (set_sess p (Some s) w)"
proof -
  have "s\<lparr>s_connection := None\<rparr> = s" using assms(2) by (cases s) simp
  then show "upd_sess p (\<lambda>s. s\<lparr>s_connection := None\<rparr>) w = Some (Ok (), set_sess p (Some s) w)"
    using assms(1) by (simp add: exec)
  show "good E w \<Longrightarrow> good E (set_sess p (Some s) w)"
    by (rule good_set_sess [OF _ assms(1)]) simp_all
qed

text \<open>The common start of the two login functions.\<close>

lemma login_step:
  assumes w: "good E w" and p: "sessions w p = Some s" "\<not> invalid s"
    and old: "\<And>a c. s_connection s = Some a \<Longrightarrow> conns w a = Some c \<Longrightarrow> invalid c"
    and run: "bindM (new_conn E (obj_id s) pm) (\<lambda>a.
     thenM (upd_sess p (\<lambda>s. s\<lparr>s_connection := Some a\<rparr>)) (
     bindM (establish_connection E getProxyAccount a ip port) K)) w = Some (Ok u, w')"
  obtains ok w2 where "good E w2" and "K ok w2 = Some (Ok u, w')"
proof -
  obtain n w1 where new: "new_conn E (obj_id s) pm w = Some (Ok n, w1)"
    and run1: "thenM (upd_sess p (\<lambda>s. s\<lparr>s_connection := Some n\<rparr>)) (
       bindM (establish_connection E getProxyAccount n ip port) K) w1 = Some (Ok u, w')"
    using run by (auto elim!: bindM_SomeE)
  note g = good_adopt [OF w p old new]
  let ?w = "set_sess p (Some (s\<lparr>s_connection := Some n\<rparr>)) w1"
  obtain ok w2 where est: "establish_connection E getProxyAccount n ip port ?w = Some (Ok ok, w2)"
    and k: "K ok w2 = Some (Ok u, w')"
    using run1 by (auto simp: upd_sess_then [OF g(2)] elim!: bindM_SomeE)
  have c: "conns ?w n = Some (fresh_conn E (id_counter w) (obj_id s) pm)" using g(3) by simp
  have v: "\<not> invalid (fresh_conn E (id_counter w) (obj_id s) pm)" by (simp add: fresh_conn_def)
  note e = establish_connection_OkD [OF conjunct1 [OF g(1)] c v est]
  have "good E w2" using e same_objs_own [OF conjunct2 [OF g(1)]] by simp
  then show ?thesis using that k by blast
qed

definition can_login :: "nat \<Rightarrow> 'b world \<Rightarrow> bool" where
  "can_login p w \<longleftrightarrow> (\<exists>s. sessions w p = Some s \<and> \<not> invalid s \<and>
     (\<forall>a c. s_connection s = Some a \<longrightarrow> conns w a = Some c \<longrightarrow> invalid c))"

lemma valid_startLogin:
  "valid (\<lambda>w. good E w \<and> can_login p w) (startLogin E p) (\<lambda>_. good E) X"
proof (rule valid_quiet [OF quiet_login(1)])
  fix w u w' assume w: "good E w \<and> can_login p w" and run: "startLogin E p w = Some (Ok u, w')"
  obtain s where s: "sessions w p = Some s" "\<not> invalid s"
    "\<And>a c. s_connection s = Some a \<Longrightarrow> conns w a = Some c \<Longrightarrow> invalid c"
    using w by (auto simp: can_login_def)
  let ?K = "\<lambda>ok. whenM (\<not> ok) (
       thenM (setStateNetworkError E p NetworkError
         (''Unable to initiate connection to GK'' @ [CHR 0x0A])) (
       bindM (get_sess p) (\<lambda>s.
       thenM (delete_conn E (s_connection s))
       (upd_sess p (\<lambda>s. s\<lparr>s_connection := None\<rparr>)))))"
  obtain ok w2 where w2: "good E w2" and k: "?K ok w2 = Some (Ok u, w')"
    by (rule login_step [OF conjunct1 [OF w] s run [unfolded startLogin_def get_sess_then [OF s(1)]]])
  show "good E w'"
  proof (cases ok)
    case True
    then show ?thesis using k w2 by (simp add: exec)
  next
    case False
    then obtain w3 where f: "setStateNetworkError E p NetworkError
         (''Unable to initiate connection to GK'' @ [CHR 0x0A]) w2 = Some (Ok (), w3)"
      and rest: "bindM (get_sess p) (\<lambda>s. thenM (delete_conn E (s_connection s))
       (upd_sess p (\<lambda>s. s\<lparr>s_connection := None\<rparr>))) w3 = Some (Ok u, w')"
      using k by (auto simp: whenM_run thenM_def elim: bindM_SomeE)
    note g3 = setStateNetworkError_OkD [OF w2 f]
    obtain s' where s': "sessions w3 p = Some s'" "s_connection s' = None" using g3(2) by blast
    have "w' = set_sess p (Some s') w3"
      using rest by (simp add: get_sess_then [OF s'(1)] s'(2) delete_conn_def thenM_run ret_run
          clear_connection(1) [OF s'])
    then show ?thesis using clear_connection(2) [OF s' g3(1)] by simp
  qed
qed

lemma valid_startLoginOver80:
  "valid (\<lambda>w. good E w \<and> can_login p w) (startLoginOver80 E p) (\<lambda>_. good E) X"
proof (rule valid_quiet [OF quiet_login(2)])
  fix w u w' assume w: "good E w \<and> can_login p w" and run: "startLoginOver80 E p w = Some (Ok u, w')"
  obtain s where s: "sessions w p = Some s" "\<not> invalid s"
    "\<And>a c. s_connection s = Some a \<Longrightarrow> conns w a = Some c \<Longrightarrow> invalid c"
    using w by (auto simp: can_login_def)
  let ?K = "\<lambda>ok. whenM (\<not> ok) (
       thenM (setStateNetworkError E p NetworkError
         (''Unable to initiate port 80 connection to GK'' @ [CHR 0x0A]))
       (upd_sess p (\<lambda>s. s\<lparr>s_connection := None\<rparr>)))"
  obtain ok w2 where w2: "good E w2" and k: "?K ok w2 = Some (Ok u, w')"
    by (rule login_step [OF conjunct1 [OF w] s
          run [unfolded startLoginOver80_def get_sess_then [OF s(1)]]])
  show "good E w'"
  proof (cases ok)
    case True
    then show ?thesis using k w2 by (simp add: exec)
  next
    case False
    then obtain w3 where f: "setStateNetworkError E p NetworkError
         (''Unable to initiate port 80 connection to GK'' @ [CHR 0x0A]) w2 = Some (Ok (), w3)"
      and rest: "upd_sess p (\<lambda>s. s\<lparr>s_connection := None\<rparr>) w3 = Some (Ok u, w')"
      using k by (auto simp: whenM_run thenM_def elim!: bindM_SomeE)
    note g3 = setStateNetworkError_OkD [OF w2 f]
    obtain s' where s': "sessions w3 p = Some s'" "s_connection s' = None" using g3(2) by blast
    have "w' = set_sess p (Some s') w3" using rest clear_connection(1) [OF s'] by simp
    then show ?thesis using clear_connection(2) [OF s' g3(1)] by simp
  qed
qed

lemma valid_closeCallback:
  "valid (\<lambda>w. good E w \<and> can_login p w) (closeCallback E p a) (\<lambda>_. good E) (good E)"
  unfolding closeCallback_def
proof (rule valid_bindM)
  show "valid (\<lambda>w. good E w \<and> can_login p w) (get_conn a) (\<lambda>_ w. good E w \<and> can_login p w) (good E)"
    by (auto simp: valid_def exec split: option.splits)
  fix c :: "'a conn"
  have "valid (\<lambda>w. good E w \<and> can_login p w) (whenM (c_parse_mode c = 1) (startLoginOver80 E p))
      (\<lambda>_. good E) (good E)"
    by (intro valid_whenM valid_startLoginOver80) simp
  then show "valid (\<lambda>w. good E w \<and> can_login p w) (thenM (whenM (c_parse_mode c = 1) (startLoginOver80 E p)) (
     thenM (assert_valid p)
     (setStateNetworkError E p NetworkError ''The server has closed the connection'')))
     (\<lambda>_. good E) (good E)"
    by (rule valid_thenM) (intro pres_intro)
qed

text \<open>Once a connection has been closed, its owner can log in again.\<close>

lemma can_login_after_close:
  assumes w: "good E w" and c: "conns w a = Some c" "\<not> invalid c"
    and p: "id_map w (c_handler_id c) = Some p" and close: "conn_close E a w = Some (Ok u, t)"
  shows "can_login p t"
proof -
  have o: "owned w" using w by (simp add: own_def)
  obtain q s where s: "sessions w q = Some s" "\<not> invalid s" "s_connection s = Some a"
    "obj_id s = c_handler_id c"
    by (rule owned_conn [OF o c])
  have "q = p" using owned_session(1) [OF o s(1)] s(4) p by simp
  moreover obtain e fd where "t = w\<lparr>conns := (conns w)(a \<mapsto> closed E e fd (history w)),
      history := closing_history E e fd (history w)\<rparr>"
    using close by (rule conn_close_OkD)
  ultimately show ?thesis using s by (auto simp: can_login_def closed_def)
qed

subsection \<open>From the gatekeeper to the chat server\<close>

lemma setStateNetworkError_disconnects:
  assumes "setStateNetworkError E p r m w = Some (Ok u, w')"
  shows "\<exists>s. sessions w' p = Some s \<and> s_connection s = None"
proof -
  obtain s where s: "sessions w p = Some s" "\<not> invalid s"
    using assms by (auto simp: setStateNetworkError_def exec split: option.splits if_splits)
  obtain w0 w1 where "w0 = w" and d: "softDestroy E p w0 = Some (Ok (), w1)"
    and w': "bindM (get_sess p) (\<lambda>s. out (ConnectionError (s_account s) r (c_str (m @ [CHR 0x0A])))) w1
      = Some (Ok u, w')"
    using assms unfolding setStateNetworkError_def
    by (elim thenM_OkE) (auto simp: assert_valid_run s)
  obtain w2 where "upd_sess p (\<lambda>s. s\<lparr>s_connection := None\<rparr>) w2 = Some (Ok (), w1)"
    using d s \<open>w0 = w\<close>
    by (auto simp: softDestroy_def get_sess_then isInvalid_def thenM_def elim!: bindM_SomeE)
  then show ?thesis using w' by (auto simp: exec split: option.splits)
qed

lemma delete_conn_sessions:
  "delete_conn E k w = Some (Ok u, w') \<Longrightarrow> sessions w' = sessions w \<and> proto_data w' = proto_data w"
  by (cases k) (auto simp: delete_conn_def [of E None] ret_run elim: delete_conn_OkD)

lemma good_switch:
  assumes w: "good E w" and s: "sessions w p = Some s" "s_connection s = Some a"
    and new: "new_conn E (obj_id s) 0 w = Some (Ok n, w1)"
    and est: "establish_connection E getProxyAccount n ip port w1 = Some (Ok True, w2)"
    and close: "conn_close E a w2 = Some (Ok (), w3)"
    and del: "delete_conn E (Some a) w3 = Some (Ok (), w4)"
  shows "sessions w4 p = Some s"
    and "good E (set_sess p (Some (s\<lparr>s_connection := Some n\<rparr>)) w4)"
proof -
  have o: "owned w" and inv: "net_inv w" using w by (simp_all add: own_def)
  have v: "\<not> invalid s" by (rule owned_connected(1) [OF o s])
  obtain c where c: "conns w a = Some c" and h: "c_handler_id c = obj_id s"
    using owned_connected(2) [OF o s] by blast
  note w1 = new_conn_OkD [OF new]
  have cw1: "conns w1 = (conns w)(n \<mapsto> fresh_conn E (id_counter w) (obj_id s) 0)"
    and sw1: "sessions w1 = sessions w" "proto_data w1 = proto_data w"
    and mw1: "id_map w1 = (id_map w)(id_counter w \<mapsto> n)"
    by (simp_all add: w1(2))
  have n: "conns w n = None" using net_inv_fresh_addr [OF inv] w1(1) by simp
  then have na: "n \<noteq> a" using c by auto
  have nk: "id_map w (id_counter w) = None" and mn: "id_map w i \<noteq> Some n" for i
    using inv w1(1) unfolding net_inv_def inv_on_def by (metis less_irrefl not_None_eq)+
  have ns: "sessions w n = None"
    using owned_session(1) [OF o, of n] mn by (cases "sessions w n") auto
  have fc: "conns w1 n = Some (fresh_conn E (id_counter w) (obj_id s) 0)"
    "\<not> invalid (fresh_conn E (id_counter w) (obj_id s) 0)"
    by (simp_all add: cw1 fresh_conn_def)
  note e = establish_connection_OkD [OF net_inv_new [OF inv new] fc est]
  obtain C tr where w2: "w2 = w1\<lparr>conns := C, history := tr\<rparr>"
    and sh: "\<And>b. map_option shape (C b) = map_option shape (conns w1 b)"
    using e(2) unfolding same_objs_def by blast
  obtain c2 fd where c2: "conns w2 a = Some c2" and w3: "w3 = w2\<lparr>conns := (conns w2)(a \<mapsto>
      closed E c2 fd (history w2)), history := closing_history E c2 fd (history w2)\<rparr>"
    using close by (rule conn_close_OkD)
  obtain c3 tr' where c3: "conns w3 a = Some c3" and w4: "w4 = w3\<lparr>conns := (conns w3)(a := None),
      history := tr', id_map := (id_map w3)(obj_id c3 := None)\<rparr>"
    using del by (rule delete_conn_OkD)
  have "obj_id c2 = obj_id c"
    using sh [of a] c2 c na by (auto simp: w2 cw1 shape_def)
  moreover have "c3 = closed E c2 fd (history w2)" using c3 by (simp add: w3)
  ultimately have i3: "obj_id c3 = obj_id c" by (simp add: closed_def)
  have jk: "obj_id c \<noteq> id_counter w" using net_inv_conn(5) [OF inv c] by simp
  have shapes: "(\<lambda>b. map_option shape (conns w4 b)) =
      ((\<lambda>b. map_option shape (conns w b))(a := None))(n \<mapsto> (False, id_counter w, obj_id s))"
    using sh na by (auto simp: w4 w3 w2 cw1 fresh_conn_def shape_def fun_eq_iff)
  have s4: "sessions w4 = sessions w" "proto_data w4 = proto_data w"
    and m4: "id_map w4 = ((id_map w)(obj_id c := None))(id_counter w \<mapsto> n)"
    using sw1 jk by (simp_all add: w4 w3 w2 mw1 i3 fun_upd_twist)
  then show "sessions w4 p = Some s" using s by simp
  have drop: "owned_on ((\<lambda>b. map_option shape (conns w b))(a := None))
      ((\<lambda>q. map_option sess_shape (sessions w q))(p \<mapsto> (False, obj_id s, s_account s, None)))
      ((id_map w)(obj_id c := None)) (proto_data w)"
    by (rule owned_on_drop [OF o [unfolded owned_def], where d = "invalid c"])
      (use s v c h net_inv_conn(1) [OF inv c] in \<open>simp_all add: sess_shape_def shape_def\<close>)
  have "owned_on (((\<lambda>b. map_option shape (conns w b))(a := None))(n \<mapsto> (False, id_counter w, obj_id s)))
      (((\<lambda>q. map_option sess_shape (sessions w q))(p \<mapsto> (False, obj_id s, s_account s, None)))
        (p \<mapsto> (False, obj_id s, s_account s, Some n)))
      (((id_map w)(obj_id c := None))(id_counter w \<mapsto> n)) (proto_data w)"
    by (rule owned_on_adopt [OF drop, where k = None])
      (use n ns nk na s in auto)
  moreover have "((\<lambda>q. map_option sess_shape (sessions w q))(p \<mapsto> (False, obj_id s, s_account s, None)))
        (p \<mapsto> (False, obj_id s, s_account s, Some n))
      = (\<lambda>q. map_option sess_shape (((sessions w)(p \<mapsto> s\<lparr>s_connection := Some n\<rparr>)) q))"
    using v by (auto simp: sess_shape_def)
  ultimately have "owned (set_sess p (Some (s\<lparr>s_connection := Some n\<rparr>)) w4)"
    by (simp only: owned_def set_sess_simps set_proto_simps s4 m4 shapes)
  moreover have "net_inv w4" by (rule net_inv_delete [OF net_inv_close [OF e(1) close] del])
  ultimately show "good E (set_sess p (Some (s\<lparr>s_connection := Some n\<rparr>)) w4)"
    using w by (simp add: own_def)
qed

lemma pres_switch_server [pres_intro]: "pres (good E) (switch_server E p ip port)"
proof (rule valid_quiet [OF quiet_login(3)])
  fix w u w' assume w: "good E w" and run: "switch_server E p ip port w = Some (Ok u, w')"
  obtain s where s: "sessions w p = Some s"
    using run by (auto simp: switch_server_def exec split: option.splits)
  obtain n w1 ok w2 where new: "new_conn E (obj_id s) 0 w = Some (Ok n, w1)"
    and est: "establish_connection E getProxyAccount n ip port w1 = Some (Ok ok, w2)"
    and run2: "bindM (if ok then ret (Some n)
            else thenM (setStateNetworkError E p NetworkError
                   (''Failed to initiate connection to CS'' @ [CHR 0x0A])) (
                 thenM (delete_conn E (Some n)) (ret None))) (\<lambda>newconn.
     bindM (the_connection p) (\<lambda>a.
     thenM (conn_close E a) (
     bindM (the_connection p) (\<lambda>a.
     thenM (delete_conn E (Some a))
     (upd_sess p (\<lambda>s. s\<lparr>s_connection := newconn\<rparr>)))))) w2 = Some (Ok u, w')"
    using run unfolding switch_server_def get_sess_then [OF s]
    by (erule_tac bindM_OkE, erule_tac bindM_OkE) (rule that)
  have ok
  proof (rule ccontr)
    assume "\<not> ok"
    then obtain w3 w4 where e: "setStateNetworkError E p NetworkError
          (''Failed to initiate connection to CS'' @ [CHR 0x0A]) w2 = Some (Ok (), w3)"
      and d: "delete_conn E (Some n) w3 = Some (Ok (), w4)"
      and c: "\<exists>a t. the_connection p w4 = Some (Ok a, t)"
      using run2 by (auto simp: thenM_def ret_run elim!: bindM_SomeE)
    obtain t where "sessions w3 p = Some t" "s_connection t = None"
      using setStateNetworkError_disconnects [OF e] by blast
    then show False using c delete_conn_sessions [OF d] by (auto simp: exec)
  qed
  let ?K = "bindM (the_connection p) (\<lambda>a. thenM (delete_conn E (Some a))
     (upd_sess p (\<lambda>s. s\<lparr>s_connection := Some n\<rparr>)))"
  from \<open>ok\<close> have "bindM (the_connection p) (\<lambda>a. thenM (conn_close E a) ?K) w2 = Some (Ok u, w')"
    using run2 by simp
  then obtain a w2' where a: "the_connection p w2 = Some (Ok a, w2')"
    and "thenM (conn_close E a) ?K w2' = Some (Ok u, w')" by (rule bindM_OkE)
  moreover from a have "w2' = w2" by (auto simp: the_connection_run split: option.splits)
  ultimately obtain w3 where close: "conn_close E a w2 = Some (Ok (), w3)"
    and run3: "?K w3 = Some (Ok u, w')" by (auto elim: thenM_OkE)
  have sw1: "sessions w1 = sessions w" by (simp add: new_conn_OkD(2) [OF new])
  have fc: "conns w1 n = Some (fresh_conn E (id_counter w) (obj_id s) 0)"
    "\<not> invalid (fresh_conn E (id_counter w) (obj_id s) 0)"
    by (simp_all add: new_conn_OkD(2) [OF new] fresh_conn_def)
  have sw2: "sessions w2 = sessions w"
    using establish_connection_OkD(2) [OF net_inv_new [OF conjunct1 [OF w] new] fc est] sw1
    by (auto simp: same_objs_def)
  have sw3: "sessions w3 = sessions w"
    using close sw2 by (auto elim: conn_close_OkD)
  have sa: "s_connection s = Some a" using a s by (auto simp: sw2 the_connection_run split: option.splits)
  then obtain w4 where del: "delete_conn E (Some a) w3 = Some (Ok (), w4)"
    and last: "upd_sess p (\<lambda>s. s\<lparr>s_connection := Some n\<rparr>) w4 = Some (Ok u, w')"
    using run3 s by (auto simp: thenM_def the_connection_run sw3 elim!: bindM_SomeE)
  note g = good_switch [OF w s sa new est [unfolded \<open>ok\<close> [THEN eqTrueI]] close del]
  show "good E w'" using last g by (simp add: exec)
qed

end
