(* ===== verification/WorldInvariant.thy ===== *)
theory WorldInvariant
  imports Responses SessionInvariant
begin

text \<open>
  What it takes to be an invariant of the plugin.  The locale \<open>world_invariant\<close> asks for
  eight facts about the primitive operations; inside it, every sending function and
  every parser keeps the invariant, however the packet looks, and so does the framing
  loop when it ends.  \<open>edit_invariant\<close> is the contract of an invariant that depends on a
  session only through its identity; it gives the first.  It is interpreted for the
  invariant of \<open>Ownership\<close>, with which a session meets the whole contract of a
  connection's handler.
\<close>

section \<open>The contract of an invariant\<close>

lemma pres_encode [pres_intro]: "pres I (encode_from_iso E a to)"
  unfolding encode_from_iso_def by (rule valid_encode)

lemma pres_let [pres_intro]: "pres I (f x) \<Longrightarrow> pres I (let y = x in f y)"
  by simp

lemma pres_roomlist [pres_intro]:
  "pres I a \<Longrightarrow> pres I b \<Longrightarrow> (\<And>r. pres I (c r)) \<Longrightarrow>
     pres I (case r of RoomlistUnset \<Rightarrow> a | RoomlistNull \<Rightarrow> b | Roomlist h \<Rightarrow> c h)"
  by (cases r) simp_all

locale world_invariant =
  fixes E :: "'b env" and I :: "'b world \<Rightarrow> bool"
  assumes I_out [pres_intro]: "plain e \<Longrightarrow> pres I (out e)"
    and I_upd_sess [pres_intro]:
      "(\<And>s. sess_shape (g s) = sess_shape s \<and> s_roomlist (g s) = s_roomlist s) \<Longrightarrow> pres I (upd_sess p g)"
    and I_sess_write [pres_intro]: "pres I (sess_write E p d)"
    and I_setStateNetworkError [pres_intro]: "pres I (setStateNetworkError E p r m)"
    and I_switch_server [pres_intro]: "pres I (switch_server E p ip port)"
    and I_awaiting: "I w \<Longrightarrow> conns w a = Some c \<Longrightarrow> I (set_conn a (Some (c\<lparr>c_awaiting := b\<rparr>)) w)"
    and I_parse_mode: "I w \<Longrightarrow> conns w a = Some c \<Longrightarrow> I (set_conn a (Some (c\<lparr>c_parse_mode := 1\<rparr>)) w)"
    and I_sendGetChatRoomsRequest [pres_intro]: "pres I (sendGetChatRoomsRequest E p)"
begin

lemma keeps_errors [pres_intro]: "pres I (readError E p a)" "pres I (connectionError E p e a)"
  unfolding readError_def connectionError_def by (intro pres_intro)+

lemma keeps_send [pres_intro]:
  "pres I (connectToGK E p)" "pres I (connectToCS E p)"
  "pres I (gotConnected E p)" "pres I (sendMessage E p x y)"
  "pres I (sendKeepAlive E p)" "pres I (keep_alive_timer E i)"
  "pres I (sendOfflineMessagesRequest E p)" "pres I (deleteOfflineMessage E p x)"
  "pres I (setStatus E p x y)" "pres I (sendGetAddRequest E p)"
  "pres I (sendDenyAddRequest E p x1 x2 x3 x4 x5)"
  "pres I (sendAcceptAddRequest E p x1 x2 x3 x4 x5)"
  "pres I (contact_add_request_authorize_cb E ar)"
  "pres I (contact_add_request_deny_cb E ar)"
  "pres I (sendDelContactRequest E p x y)"
  "pres I (sendAddRemoveGroupRequest E p x b)"
  "pres I (sendAddContactRequest E p x y)"
  "pres I (sendTypingNotification E p x)"
  "pres I (sendChangeBuddyGroupRequest E p x y z)"
  "pres I (getBuddyNickname p x)" "pres I (getBuddyStatusMessage p x)"
  by (unfold connectToGK_def connectToCS_def gotConnected_def sendMessage_def sendKeepAlive_def
      keep_alive_timer_def sendOfflineMessagesRequest_def deleteOfflineMessage_def setStatus_def
      sendGetAddRequest_def sendDenyAddRequest_def sendAcceptAddRequest_def
      contact_add_request_authorize_cb_def contact_add_request_deny_cb_def
      sendDelContactRequest_def sendAddRemoveGroupRequest_def sendAddContactRequest_def
      sendTypingNotification_def sendChangeBuddyGroupRequest_def
      getBuddyNickname_def getBuddyStatusMessage_def)
    (intro pres_intro; simp add: sess_shape_def)+

lemma keeps_chatroom [pres_intro]:
  "pres I (roomlist_handle p)" "pres I (add_room p x)"
  "pres (\<lambda>(b, w). I w) (parseChatRoomsResponse p)"
  unfolding parseChatRoomsResponse_def read_lobby_def read_room_def add_room_def roomlist_handle_def
  by (intro pres_intro; simp)+

lemma keeps_avatar [pres_intro]:
  "pres I (loadAvatar p x)" "pres I (loadAvatarCompleted p x d)"
  "pres I (load_avatar_callback i x t)" "pres I (load_avatar_key_callback i x t)"
  unfolding loadAvatar_def loadAvatarCompleted_def load_avatar_callback_def
    load_avatar_key_callback_def
  by (intro pres_intro; simp)+

subsection \<open>The parsers\<close>

lemma keeps_parseGkResponse [pres_intro]: "pres (\<lambda>(b, w). I w) (parseGkResponse E p)"
  unfolding parseGkResponse_def read_capability_def by (intro pres_intro)

lemma keeps_login [pres_intro]:
  "pres I (login_failed E p i)" "pres I (login_complete E p xs)"
  unfolding login_failed_def login_complete_def
  by (intro pres_intro; simp add: sess_shape_def)+

lemma keeps_login_lists [pres_intro]:
  "pres (\<lambda>(b, w). I w) (read_pair u)" "pres (\<lambda>(b, w). I w) read_contact_lists"
  "pres (\<lambda>(b, w). I w) (add_member E p x u)" "pres (\<lambda>(b, w). I w) (read_group E p u)"
  unfolding read_contact_lists_def read_string_int_def read_pair_def read_group_def add_member_def
  by (intro pres_intro; simp add: sess_shape_def)+

lemma keeps_login_accepted [pres_intro]: "pres (\<lambda>(b, w). I w) (login_accepted E p)"
  unfolding login_accepted_def by (intro pres_intro; simp add: sess_shape_def)

lemma keeps_parseCSLoginResponse [pres_intro]: "pres (\<lambda>(b, w). I w) (parseCSLoginResponse E p)"
  unfolding parseCSLoginResponse_def by (intro pres_intro)

lemma keeps_notices [pres_intro]:
  "pres I (serv_got_im p x y i)" "pres I (request_authorization p ar)"
  unfolding serv_got_im_def request_authorization_def by (intro pres_intro; simp)+

lemma keeps_packets [pres_intro]:
  "pres (\<lambda>(b, w). I w) (parseCSContacts p)"
  "pres (\<lambda>(b, w). I w) (parseContactStatusChange E p)"
  "pres (\<lambda>(b, w). I w) (parseOfflineMessages E p)"
  "pres (\<lambda>(b, w). I w) (parseTextMessage E p)"
  "pres (\<lambda>(b, w). I w) (parseNewMailsResponse E p)"
  "pres (\<lambda>(b, w). I w) (parseContactAddRequest p)"
  "pres (\<lambda>(b, w). I w) (parseOfflineAddContactResponse p)"
  "pres (\<lambda>(b, w). I w) parseGetContactIdResponse"
  "pres (\<lambda>(b, w). I w) (parseMessageFromMobileUser E p)"
  "pres (\<lambda>(b, w). I w) (parseTypingNoficiationResponse p)"
  "pres (\<lambda>(b, w). I w) skip_payload"
  "pres (\<lambda>(b, w). I w) parse_type2"
  unfolding parseCSContacts_def read_contact_def parseContactStatusChange_def
    parseOfflineMessages_def read_offline_message_def parseTextMessage_def
    parseNewMailsResponse_def parseContactAddRequest_def parseOfflineAddContactResponse_def
    read_add_request_def parseGetContactIdResponse_def parseMessageFromMobileUser_def
    parseTypingNoficiationResponse_def skip_payload_def parse_type2_def
  by (intro pres_intro; simp add: sess_shape_def)+

lemma keeps_parseCSResponse [pres_intro]: "pres (\<lambda>(b, w). I w) (parseCSResponse E p)"
  unfolding parseCSResponse_def parse_type1_def parse_type3_def by (intro pres_intro)

subsection \<open>The framing loop\<close>

lemma keeps_on_awaiting [pres_intro]: "pres I (on_awaiting a m)"
  using I_awaiting unfolding pres_iff on_awaiting_def by (auto simp: exec split: option.splits)

lemma keeps_loop_turn [pres_intro]: "pres I (loop_turn E p a)"
  unfolding loop_turn_def read_frame_def dispatch_def by (intro pres_intro)

lemma keeps_read_loop_at:
  assumes "read_loop E p a w = Some y"
  shows "I w \<longrightarrow> (\<forall>e. fst y = Throw e \<longrightarrow> e = Overflow) \<longrightarrow> I (snd y)"
proof -
  let ?P = "\<lambda>E' (p :: nat) (a :: nat) w y. E' = E \<longrightarrow> I w \<longrightarrow>
    (\<forall>e. fst y = Throw e \<longrightarrow> e = Overflow) \<longrightarrow> I (snd y)"
  have "?P E p a w y"
  proof (rule read_loop.raw_induct [OF _ assms, where P = ?P], intro impI)
    fix loop E' p a w and y :: "unit outcome \<times> 'b world"
    assume IH: "\<And>E' p a w y. loop E' p a w = Some y \<Longrightarrow> ?P E' p a w y"
      and step: "bindM (loop_turn E' p a)
        (\<lambda>more. (\<lambda>w'. if more then loop E' p a w' else ret () w')) w = Some y"
      and E': "E' = E" and w: "I w" and y: "\<forall>e. fst y = Throw e \<longrightarrow> e = Overflow"
    obtain r w' where rw: "y = (r, w')" by (cases y)
    from step [unfolded rw E'] show "I (snd y)"
    proof (cases rule: bindM_SomeE)
      case (ok more t)
      then have "I t" using validD_Ok [OF keeps_loop_turn w] by blast
      then show ?thesis using ok IH [of E p a t "(r, w')"] y by (cases more) (auto simp: rw ret_run)
    next
      case (throw e)
      then show ?thesis using validD_Overflow [OF keeps_loop_turn w] y by (auto simp: rw)
    qed
  qed
  then show ?thesis by simp
qed

lemma keeps_read_loop [pres_intro]: "pres I (read_loop E p a)"
  using keeps_read_loop_at unfolding pres_iff by fastforce

lemma keeps_upd_conn:
  "pres I (upd_conn a (\<lambda>c. c\<lparr>c_awaiting := b\<rparr>))" "pres I (upd_conn a (\<lambda>c. c\<lparr>c_parse_mode := 1\<rparr>))"
  using I_awaiting I_parse_mode unfolding pres_iff by (auto simp: exec split: option.splits)

lemma keeps_http_reply [pres_intro]: "pres I (http_reply E p a)"
  unfolding http_reply_def by (intro pres_intro keeps_upd_conn)

lemma keeps_readCallback [pres_intro]: "pres I (readCallback E p a)"
  unfolding readCallback_def by (intro pres_intro)

end

section \<open>Invariants of a session's identity\<close>

locale edit_invariant =
  fixes E :: "'b env" and I :: "'b world \<Rightarrow> bool"
  assumes E_out [pres_intro]: "plain e \<Longrightarrow> pres I (out e)"
    and E_upd_sess [pres_intro]: "(\<And>s. sess_shape (g s) = sess_shape s) \<Longrightarrow> pres I (upd_sess p g)"
    and E_sess_write [pres_intro]: "pres I (sess_write E p d)"
    and E_setStateNetworkError: "pres I (setStateNetworkError E p r m)"
    and E_switch_server: "pres I (switch_server E p ip port)"
    and E_awaiting: "I w \<Longrightarrow> conns w a = Some c \<Longrightarrow> I (set_conn a (Some (c\<lparr>c_awaiting := b\<rparr>)) w)"
    and E_parse_mode: "I w \<Longrightarrow> conns w a = Some c \<Longrightarrow> I (set_conn a (Some (c\<lparr>c_parse_mode := 1\<rparr>)) w)"

sublocale edit_invariant \<subseteq> world_invariant E I
proof (unfold_locales, goal_cases)
  case (8 p)
  show ?case
    unfolding sendGetChatRoomsRequest_def by (intro pres_intro; simp add: sess_shape_def)
qed (simp_all add: E_out E_upd_sess E_sess_write E_setStateNetworkError E_switch_server E_awaiting
    E_parse_mode)

section \<open>Ownership is such an invariant\<close>

lemma good_set_conn:
  fixes E :: "'b env"
  assumes "good E w" and "conns w a = Some c" and "shape c' = shape c"
    and "conn_ok c \<Longrightarrow> conn_ok c'" and "c_tx c' = c_tx c" and "c_rx c' = c_rx c"
  shows "good E (set_conn a (Some c') w)"
  using assms net_inv_conn(3) [OF conjunct1 [OF assms(1)] assms(2)]
    writer.I_set_conn [OF assms(1,2,3)] by simp

interpretation owning: edit_invariant E "good E" for E :: "'b env"
proof (unfold_locales, goal_cases)
  case (6 w a c b)
  then show ?case by (intro good_set_conn [where w = w and a = a and c = c]) (simp_all add: shape_def conn_ok_def)
next
  case (7 w a c)
  then show ?case by (intro good_set_conn [where w = w and a = a and c = c]) (simp_all add: shape_def conn_ok_def)
qed (intro pres_intro; simp)+

section \<open>A session is a proper handler\<close>

lemma pres_from:
  "pres I m \<Longrightarrow> I w \<Longrightarrow> valid (\<lambda>x. x = w) m (\<lambda>_. I) I"
  by (erule valid_pre) simp

interpretation events: conn_events E "RediffBolConn_handler E" "own E" for E :: "'b env"
proof
  fix s t :: "'b world" and a c p
  assume s: "own E s" "net_inv s" "conns s a = Some c" "\<not> invalid c"
    "id_map s (c_handler_id c) = Some p"
  have g: "good E s" using s by simp
  show "valid (\<lambda>x. x = s) (h_gotConnected (RediffBolConn_handler E) p)
      (\<lambda>_ x. net_inv x \<and> own E x) (\<lambda>x. net_inv x \<and> own E x)"
    unfolding RediffBolConn_handler_def handler.simps
    by (rule pres_from [OF owning.keeps_send(3) g])
  show "valid (\<lambda>x. x = s) (h_readCallback (RediffBolConn_handler E) p a)
      (\<lambda>_ x. net_inv x \<and> own E x) (\<lambda>x. net_inv x \<and> own E x)"
    unfolding RediffBolConn_handler_def handler.simps
    by (rule pres_from [OF owning.keeps_readCallback g])
  assume close: "conn_close E a s = Some (Ok (), t)"
  have t: "good E t" by (rule good_close [OF g close])
  show "valid (\<lambda>x. x = t) (h_readError (RediffBolConn_handler E) p a)
      (\<lambda>_ x. net_inv x \<and> own E x) (\<lambda>x. net_inv x \<and> own E x)"
    unfolding RediffBolConn_handler_def handler.simps
    by (rule pres_from [OF owning.keeps_errors(1) t])
  show "valid (\<lambda>x. x = t) (h_connectionError (RediffBolConn_handler E) p msg a)
      (\<lambda>_ x. net_inv x \<and> own E x) (\<lambda>x. net_inv x \<and> own E x)" for msg
    unfolding RediffBolConn_handler_def handler.simps
    by (rule pres_from [OF owning.keeps_errors(2) t])
  have "can_login p t" by (rule can_login_after_close [OF g s(3,4,5) close])
  then show "valid (\<lambda>x. x = t) (h_closeCallback (RediffBolConn_handler E) p a)
      (\<lambda>_ x. net_inv x \<and> own E x) (\<lambda>x. net_inv x \<and> own E x)"
    unfolding RediffBolConn_handler_def handler.simps
    using t by (intro valid_pre [OF valid_closeCallback]) simp
next
  show "own E s \<Longrightarrow> fresh_handles E" for s :: "'b world" by (simp add: own_def)
next
  show "own E s \<Longrightarrow> same_objs s s' \<Longrightarrow> own E s'" for s s' :: "'b world" by (rule same_objs_own)
next
  show "own E s \<Longrightarrow> net_inv s \<Longrightarrow> conns s a = Some c \<Longrightarrow> \<not> invalid c \<Longrightarrow>
    \<exists>p. id_map s (c_handler_id c) = Some p" for s :: "'b world" and a c by (rule own_handler)
qed

end
