(* ===== verification/Lifecycle.thy ===== *)
theory Lifecycle
  imports Plugin WorldInvariant
begin

text \<open>
  The whole plugin as a state machine: a step is one call that libpurple, the event
  loop or a timer makes into it and that returns.  The event loop may call with any
  number and any descriptor, registered or not, so late callbacks are covered.  Every
  reachable state satisfies the invariant of \<open>Ownership\<close>, and every connection in it
  has a descriptor, so that tearing a session down cannot fail.
\<close>

section \<open>Entry points\<close>

datatype call =
    Login nat
  | Close nat
  | SendIm nat string string
  | SetStatus nat status_primitive "string option"
  | SendTyping nat "string option" typing_state
  | AddBuddyCall nat "string option" "string option"
  | RemoveBuddy nat "string option" "string option"
  | GroupBuddy nat "string option" "string option" "string option"
  | RemoveGroup nat "string option"
  | StatusText nat string
  | RoomlistGetList nat
  | SetAvatar nat
  | Authorize add_request
  | Deny add_request

datatype callback =
    Connected int int "string option"       \<comment> \<open>object id, descriptor, error\<close>
  | Readable int int                        \<comment> \<open>object id, descriptor\<close>
  | Writable int                            \<comment> \<open>object id\<close>
  | KeepAliveTimer int
  | AvatarKeyFetched int string "string option"
  | AvatarFetched int string "string option"

fun run_call :: "'b env \<Rightarrow> call \<Rightarrow> ('b world, unit) M" where
  "run_call E (Login acct) = rediffbol_login E acct"
| "run_call E (Close acct) = rediffbol_close E acct"
| "run_call E (SendIm acct who msg) = thenM (rediffbol_send_im E acct who msg) (ret ())"
| "run_call E (SetStatus acct st msg) = rediffbol_set_status E acct st msg"
| "run_call E (SendTyping acct who t) = thenM (rediffbol_send_typing E acct who t) (ret ())"
| "run_call E (AddBuddyCall acct who grp) = rediffbol_add_buddy E acct who grp"
| "run_call E (RemoveBuddy acct who grp) = rediffbol_remove_buddy E acct who grp"
| "run_call E (GroupBuddy acct who old new) = rediffbol_group_buddy E acct who old new"
| "run_call E (RemoveGroup acct grp) = rediffbol_remove_group E acct grp"
| "run_call E (StatusText acct who) = thenM (rediffbol_status_text acct who) (ret ())"
| "run_call E (RoomlistGetList acct) = rediffbol_roomlist_get_list E acct"
| "run_call E (SetAvatar acct) = rediffbol_set_avatar acct"
| "run_call E (Authorize ar) = contact_add_request_authorize_cb E ar"
| "run_call E (Deny ar) = contact_add_request_deny_cb E ar"

fun run_callback :: "'b env \<Rightarrow> callback \<Rightarrow> ('b world, unit) M" where
  "run_callback E (Connected i fd err) = conn_got_connected E (RediffBolConn_handler E) i fd err"
| "run_callback E (Readable i fd) = conn_read_cb E (RediffBolConn_handler E) i fd"
| "run_callback E (Writable i) = conn_write_cb E (readError E) i"
| "run_callback E (KeepAliveTimer i) = thenM (keep_alive_timer E i) (ret ())"
| "run_callback E (AvatarKeyFetched i name d) = load_avatar_key_callback i name d"
| "run_callback E (AvatarFetched i name d) = load_avatar_callback i name d"

text \<open>Nothing loaded yet; the static counter of \<^verbatim>\<open>RObject\<close> starts at 0.\<close>

definition start_world :: "'b world" where
  "start_world = \<lparr>id_counter = 0, id_map = Map.empty, next_addr = 0, conns = Map.empty,
     history = [], sessions = Map.empty, proto_data = Map.empty\<rparr>"

inductive step :: "'b env \<Rightarrow> 'b world \<Rightarrow> 'b world \<Rightarrow> bool" for E where
  libpurple: "run_call E c w = Some (Ok (), w') \<Longrightarrow> step E w w'"
| event: "run_callback E cb w = Some (Ok (), w') \<Longrightarrow> step E w w'"

inductive reachable :: "'b env \<Rightarrow> 'b world \<Rightarrow> bool" for E where
  start: "reachable E start_world"
| more: "reachable E w \<Longrightarrow> step E w w' \<Longrightarrow> reachable E w'"

inductive_cases stepE: "step E w w'"

lemma step_inv:
  assumes "\<And>c. pres I (run_call E c)" and "\<And>cb. pres I (run_callback E cb)"
  shows "step E w w' \<Longrightarrow> I w \<Longrightarrow> I w'"
  by (erule stepE) (blast dest: validD_Ok [OF assms(1)] validD_Ok [OF assms(2)])+

lemma reachable_inv:
  assumes "I start_world" and "\<And>c. pres I (run_call E c)" and "\<And>cb. pres I (run_callback E cb)"
    and "reachable E w"
  shows "I w"
  using assms(4)
proof induction
  case start
  show ?case by (rule assms(1))
next
  case (more w w')
  show ?case by (rule step_inv [OF assms(2,3) more(2,3)])
qed

section \<open>Descriptors\<close>

text \<open>
  A connection whose constructor has run and whose \<^verbatim>\<open>establish_connection\<close> has returned
  has a value in \<^verbatim>\<open>fd\<close>, so that \<^verbatim>\<open>close()\<close> reads no uninitialised memory.
\<close>

definition opened :: "'b world \<Rightarrow> bool" where
  "opened w \<longleftrightarrow> (\<forall>a c. conns w a = Some c \<longrightarrow> c_fd c \<noteq> None)"

lemma opened_set_conn: "opened w \<Longrightarrow> c_fd c' \<noteq> None \<Longrightarrow> opened (set_conn a (Some c') w)"
  by (auto simp: opened_def)

lemma opened_simps [simp]:
  "opened (emit e w) = opened w" "opened (set_sess p x w) = opened w"
  "opened (set_proto acct y w) = opened w" "opened (reg_erase i w) = opened w"
  "opened (reg_add p w) = opened w"
  by (simp_all add: opened_def)

lemma opened_out [pres_intro]: "pres opened (out e)"
  by (auto simp: valid_def exec)

lemma opened_upd_sess [pres_intro]: "pres opened (upd_sess p g)"
  by (auto simp: valid_def exec split: option.splits)

lemma opened_upd_conn:
  assumes "\<And>c. c_fd c \<noteq> None \<Longrightarrow> c_fd (g c) \<noteq> None"
  shows "pres opened (upd_conn a g)"
  unfolding pres_iff using assms by (auto simp: exec opened_def split: option.splits)

lemma opened_fd_of [pres_intro]: "pres I (fd_of c)"
  by (auto simp: valid_def exec split: option.splits)

lemma opened_destroy_RObject [pres_intro]: "pres opened (destroy_RObject i)"
  by (auto simp: valid_def exec)

lemma opened_delete_entry [pres_intro]: "pres opened (modM (set_conn a None))"
  by (rule pres_modM) (auto simp: opened_def)

lemma opened_conn_close [pres_intro]: "pres opened (conn_close E a)"
  unfolding conn_close_def close_attempt_def close_fd_def close_tx_def close_rx_def
  by (intro pres_intro opened_upd_conn; simp add: setInvalid_def)

lemma opened_delete_conn [pres_intro]: "pres opened (delete_conn E k)"
  unfolding delete_conn_def by (intro pres_intro)

lemma opened_softDestroy [pres_intro]: "pres opened (softDestroy E p)"
  unfolding softDestroy_def by (intro pres_intro)

lemma opened_setStateNetworkError [pres_intro]: "pres opened (setStateNetworkError E p r m)"
  unfolding setStateNetworkError_def by (intro pres_intro)

lemma opened_if_HANDLER [pres_intro]: "(\<And>p. pres opened (m p)) \<Longrightarrow> pres opened (if_HANDLER a m)"
  unfolding if_HANDLER_def HANDLER_def getObjectById_def by (intro pres_intro)

lemma opened_errors [pres_intro]:
  "pres opened (readError E p a)" "pres opened (connectionError E p e a)"
  unfolding readError_def connectionError_def by (intro pres_intro)+

lemma opened_write [pres_intro]:
  "pres opened (conn_write E (readError E) a d)" "pres opened (write_cb E (readError E) a)"
  unfolding conn_write_def write_cb_def sys_write_def enqueue_def
  by (intro pres_intro opened_upd_conn; simp)+

lemma opened_sess_write [pres_intro]: "pres opened (sess_write E p d)"
  unfolding sess_write_def by (intro pres_intro)

text \<open>The two calls between which there is a connection without a descriptor.\<close>

lemma valid_new_conn_fd:
  "valid opened (new_conn E i pm) (\<lambda>n w. \<forall>a c. conns w a = Some c \<longrightarrow> a \<noteq> n \<longrightarrow> c_fd c \<noteq> None) X"
  by (rule valid_quiet [OF quiet_new_conn]) (auto simp: opened_def dest!: new_conn_OkD(2))

lemma valid_establish_fd:
  "valid (\<lambda>w. \<forall>a c. conns w a = Some c \<longrightarrow> a \<noteq> n \<longrightarrow> c_fd c \<noteq> None)
     (establish_connection E getProxyAccount n ip port) (\<lambda>_. opened) X"
  by (rule valid_quiet, intro quiet_intro)
    (auto simp: establish_connection_def HANDLER_def exec opened_def split: option.splits if_splits)

lemma opened_login [pres_intro]:
  "pres opened (startLogin E p)" "pres opened (startLoginOver80 E p)"
  "pres opened (switch_server E p ip port)"
proof -
  let ?N = "\<lambda>n w. \<forall>a c. conns w a = Some c \<longrightarrow> a \<noteq> n \<longrightarrow> c_fd c \<noteq> None"
  have u: "valid (?N n) (upd_sess p g) (\<lambda>_. ?N n) X" for n g X
    by (auto simp: valid_def exec split: option.splits)
  show "pres opened (startLogin E p)" "pres opened (startLoginOver80 E p)"
    unfolding startLogin_def startLoginOver80_def
    by (rule valid_bindM, rule pres_intro, rule valid_bindM, rule valid_new_conn_fd,
        rule valid_thenM, rule u, rule valid_bindM, rule valid_establish_fd, intro pres_intro)+
  show "pres opened (switch_server E p ip port)"
    unfolding switch_server_def
    by (rule valid_bindM, rule pres_intro, rule valid_bindM, rule valid_new_conn_fd,
        rule valid_bindM, rule valid_establish_fd, intro pres_intro)
qed

interpretation described: edit_invariant E opened for E :: "'b env"
proof (unfold_locales, goal_cases)
  case (6 w a c b)
  then show ?case by (intro opened_set_conn) (auto simp: opened_def)
next
  case (7 w a c)
  then show ?case by (intro opened_set_conn) (auto simp: opened_def)
qed (intro pres_intro)+

lemma opened_closeCallback [pres_intro]: "pres opened (closeCallback E p a)"
  unfolding closeCallback_def by (intro pres_intro)

lemma pres_read_result [pres_intro]:
  "(\<And>b. pres I (f b)) \<Longrightarrow> (\<And>d. pres I (g d)) \<Longrightarrow>
     pres I (case r of ReadError b \<Rightarrow> f b | ReadData d \<Rightarrow> g d)"
  by (cases r) simp_all

lemma opened_callbacks [pres_intro]:
  "pres opened (conn_got_connected E (RediffBolConn_handler E) i fd err)"
  "pres opened (conn_read_cb E (RediffBolConn_handler E) i fd)"
  "pres opened (conn_write_cb E (readError E) i)"
  unfolding conn_got_connected_def got_connected_cb_def conn_read_cb_def read_cb_def
    conn_write_cb_def RediffBolConn_handler_def handler.simps
  by (intro pres_intro opened_upd_conn; simp)+

section \<open>The invariant of reachable states\<close>

abbreviation sound :: "'b env \<Rightarrow> 'b world \<Rightarrow> bool" where
  "sound E \<equiv> \<lambda>w. good E w \<and> opened w"

lemma pres_sound: "pres (good E) m \<Longrightarrow> pres opened m \<Longrightarrow> pres (sound E) m"
  unfolding pres_iff by blast

lemma good_start: "fresh_handles E \<Longrightarrow> sound E start_world"
  by (simp add: net_inv_def inv_on_def own_def owned_def owned_on_def opened_def start_world_def)

subsection \<open>Login\<close>

lemma new_session_OkD:
  assumes "new_session acct w = Some (Ok p, w')" and w: "good E w"
  shows "good E w'" and "can_login p w'" and "conns w' = conns w"
proof -
  let ?s = "\<lparr>invalid = False, obj_id = id_counter w, s_account = acct, s_connection = None,
        s_userAgent = DEFAULT_USERAGENT, s_keep_alive_counter = 0, s_keep_alive_timer = 0,
        s_connection_state = 0, s_nickname = Map.empty, s_status_text = Map.empty,
        s_groups = {}, s_session = [], s_visibleIP = [], s_server_userId = [],
        s_server_displayname = [], s_server_nickname = [], s_roomlist = RoomlistUnset\<rparr>"
  have p: "p = next_addr w" and w': "w' = set_proto acct (Some p) (set_sess p (Some ?s)
      (reg_add p (w\<lparr>next_addr := Suc p\<rparr>)))"
    using assms(1) by (auto simp: new_session_def exec split: if_splits)
  show "can_login p w'" by (simp add: can_login_def w')
  show "conns w' = conns w" by (simp add: w')
  have o: "owned w" and inv: "net_inv w" using w by (simp_all add: own_def)
  have n: "conns w p = None" using net_inv_fresh_addr [OF inv] p by simp
  have nk: "id_map w (id_counter w) = None" and mn: "id_map w i \<noteq> Some p" for i
    using inv p unfolding net_inv_def inv_on_def by (metis less_irrefl not_None_eq)+
  have ns: "sessions w p = None"
    using owned_session(1) [OF o, of p] mn by (cases "sessions w p") auto
  have "owned_on (\<lambda>a. map_option shape (conns w a))
      ((\<lambda>q. map_option sess_shape (sessions w q))(p \<mapsto> (False, id_counter w, acct, None)))
      ((id_map w)(id_counter w \<mapsto> p)) ((proto_data w)(acct \<mapsto> p))"
    by (rule owned_on_new [OF o [unfolded owned_def]]) (simp_all add: n nk ns)
  moreover have "(\<lambda>q. map_option sess_shape (sessions w q))(p \<mapsto> (False, id_counter w, acct, None))
      = (\<lambda>q. map_option sess_shape (sessions w' q))"
    by (auto simp: w' sess_shape_def)
  ultimately have "owned w'" by (simp add: owned_def w')
  moreover have "net_inv w'"
    using inv_on_register [OF inv [unfolded net_inv_def]] by (simp add: net_inv_def w' p)
  ultimately show "good E w'" using w by (simp add: own_def)
qed

lemma quiet_new_session [quiet_intro]: "quiet (new_session acct)"
  unfolding new_session_def by (intro quiet_intro)

lemma opened_new_session [pres_intro]: "pres opened (new_session acct)"
  unfolding pres_iff new_session_def by (auto simp: exec opened_def split: if_splits)

lemma pres_login: "pres (sound E) (rediffbol_login E acct)"
proof (rule pres_sound)
  show "pres (good E) (rediffbol_login E acct)"
    unfolding rediffbol_login_def
  proof (rule valid_thenM, rule pres_out, simp)
    have "valid (good E) (new_session acct) (\<lambda>p w. good E w \<and> can_login p w) (good E)"
      by (rule valid_quiet [OF quiet_new_session]) (blast dest: new_session_OkD)
    then show "valid (good E) (bindM (new_session acct) (startLogin E)) (\<lambda>_. good E) (good E)"
      by (rule valid_bindM) (rule valid_startLogin)
  qed
  show "pres opened (rediffbol_login E acct)"
    unfolding rediffbol_login_def by (intro pres_intro)
qed

subsection \<open>Tearing a session down\<close>

lemma softDestroy_returns:
  assumes "owned w" and o: "opened w" and s: "sessions w p = Some s"
  shows "\<exists>w'. softDestroy E p w = Some (Ok (), w')"
proof (cases "s_connection s")
  case None
  then show ?thesis using s by (simp add: softDestroy_def exec isInvalid_def delete_conn_def)
next
  case (Some a)
  then obtain c where c: "conns w a = Some c" using owned_connected(2) [OF assms(1) s] by blast
  then obtain fd where "c_fd c = Some fd" using o by (auto simp: opened_def)
  then show ?thesis using s Some c
    by (simp add: softDestroy_def exec isInvalid_def delete_conn_def conn_close_run)
qed

lemma rediffbol_close_run:
  assumes w: "sound E w" and p: "proto_data w acct = Some p"
  obtains s w' where "rediffbol_close E acct w = Some (Ok (), w')" and "sound E w'"
    and "sessions w p = Some s" and "sessions w' = (sessions w)(p := None)"
    and "proto_data w' = (proto_data w)(acct := None)" and "id_map w' (obj_id s) = None"
    and "\<And>a. s_connection s = Some a \<Longrightarrow> conns w' a = None"
proof -
  have o: "owned w" using w by (simp add: own_def)
  obtain s where s: "sessions w p = Some s" "s_account s = acct" by (rule owned_proto [OF o p])
  obtain w1 where d: "softDestroy E p w = Some (Ok (), w1)"
    using softDestroy_returns [OF o conjunct2 [OF w] s(1)] by blast
  note g1 = softDestroy_OkD [OF conjunct1 [OF w] d]
  obtain s1 where s1: "sessions w1 = (sessions w)(p \<mapsto> s1)"
    and sh: "sess_shape s1 = (True, obj_id s, acct, None)"
    using g1(2) s by auto
  have f: "invalid s1" "obj_id s1 = obj_id s" "s_connection s1 = None"
    using sh by (simp_all add: sess_shape_def)
  have eq: "s1\<lparr>s_connection := None\<rparr> = s1" using f(3) by (cases s1) simp
  let ?w' = "set_proto acct None (set_sess p None (reg_erase (obj_id s) w1))"
  have "softDestroy E p w1 = Some (Ok (), w1)"
    using s1 f by (simp add: softDestroy_def exec isInvalid_def)
  then have run: "rediffbol_close E acct w = Some (Ok (), ?w')"
    using p d s1 f eq
    by (simp add: rediffbol_close_def if_session_def shutdown_def destroy_session_def
        exec delete_conn_def)
  have o1: "owned w1" using g1(1) by (simp add: own_def)
  have s1p: "sessions w1 p = Some s1" by (simp add: s1)
  have "owned_on (\<lambda>a. map_option shape (conns w1 a))
      ((\<lambda>q. map_option sess_shape (sessions w1 q))(p := None))
      ((id_map w1)(obj_id s := None)) ((proto_data w1)(acct := None))"
    by (rule owned_on_remove [OF o1 [unfolded owned_def]]) (simp add: s1p sh)
  moreover have "(\<lambda>q. map_option sess_shape (sessions w1 q))(p := None)
      = (\<lambda>q. map_option sess_shape (((sessions w1)(p := None)) q))"
    by auto
  ultimately have "owned ?w'" by (simp add: owned_def)
  moreover have "net_inv ?w'"
  proof -
    have "obj_id c \<noteq> obj_id s" if "conns w1 a = Some c" for a c
      using net_inv_conn(1) [OF conjunct1 [OF g1(1)] that] owned_session [OF o1 s1p] f that by auto
    then show ?thesis
      using inv_on_unregister [OF conjunct1 [OF g1(1), unfolded net_inv_def]]
      by (simp add: net_inv_def)
  qed
  moreover have "opened w1" using validD_Ok [OF opened_softDestroy _ d] w by simp
  ultimately have snd: "sound E ?w'" using g1(1) by (simp add: own_def)
  show ?thesis
    by (rule that [OF run snd s(1)]) (simp_all add: s1 g1(3) softDestroy_deletes [OF o d s(1)])
qed

lemma pres_close: "pres (sound E) (rediffbol_close E acct)"
proof -
  have "sound E w'" if w: "sound E w" and run: "rediffbol_close E acct w = Some (r, w')" for w r w'
  proof (cases "proto_data w acct")
    case None
    then show ?thesis using run w by (simp add: rediffbol_close_def if_session_def exec)
  next
    case (Some p)
    obtain w2 where "rediffbol_close E acct w = Some (Ok (), w2)" and "sound E w2"
      by (rule rediffbol_close_run [OF w Some])
    then show ?thesis using run by simp
  qed
  then show ?thesis unfolding pres_iff by blast
qed

subsection \<open>Every step keeps it\<close>

lemma pres_the_session [pres_intro]: "pres I (the_session acct)"
  unfolding the_session_def by (intro pres_intro)

lemma pres_if_session [pres_intro]: "(\<And>p. pres I (f p)) \<Longrightarrow> pres I (if_session acct f)"
  unfolding if_session_def by (intro pres_intro)

context world_invariant
begin

lemma keeps_calls:
  "pres I (rediffbol_send_im E acct x y)" "pres I (rediffbol_set_status E acct st m)"
  "pres I (rediffbol_send_typing E acct m t)" "pres I (rediffbol_add_buddy E acct m m')"
  "pres I (rediffbol_remove_buddy E acct m m')" "pres I (rediffbol_group_buddy E acct m m' m'')"
  "pres I (rediffbol_remove_group E acct m)" "pres I (rediffbol_status_text acct x)"
  "pres I (rediffbol_roomlist_get_list E acct)" "pres I (rediffbol_set_avatar acct)"
  unfolding rediffbol_send_im_def rediffbol_set_status_def rediffbol_send_typing_def
    rediffbol_add_buddy_def rediffbol_remove_buddy_def rediffbol_group_buddy_def
    rediffbol_remove_group_def rediffbol_status_text_def rediffbol_roomlist_get_list_def
    rediffbol_set_avatar_def
  by (intro pres_intro; simp)+

lemma keeps_run_call:
  assumes "\<And>acct. pres I (rediffbol_login E acct)" and "\<And>acct. pres I (rediffbol_close E acct)"
  shows "pres I (run_call E c)"
  by (cases c) (simp_all add: assms keeps_calls keeps_send pres_thenM pres_ret)

end

interpretation both: edit_invariant E "sound E" for E :: "'b env"
proof (unfold_locales, goal_cases)
  case (6 w a c b)
  then show ?case
    using owning.I_awaiting [where w = w and a = a and c = c]
      described.I_awaiting [where w = w and a = a and c = c]
    by blast
next
  case (7 w a c)
  then show ?case
    using owning.I_parse_mode [where w = w and a = a and c = c]
      described.I_parse_mode [where w = w and a = a and c = c]
    by blast
qed (rule pres_sound; intro pres_intro; simp)+

lemma pres_run_call: "pres (sound E) (run_call E c)"
  by (rule both.keeps_run_call [OF pres_login pres_close])

lemma pres_run_callback: "pres (sound E) (run_callback E cb)"
proof (rule pres_sound)
  show "pres (good E) (run_callback E cb)"
    by (cases cb) (simp_all add: events.pres_conn_got_connected events.pres_conn_read_cb
      writer.pres_conn_write_cb owning.keeps_send owning.keeps_avatar pres_thenM pres_ret)
  show "pres opened (run_callback E cb)"
    by (cases cb) (simp_all add: opened_callbacks described.keeps_send described.keeps_avatar
      pres_thenM pres_ret)
qed

lemma reachable_sound:
  assumes "reachable E w" and "fresh_handles E"
  shows "sound E w"
  by (rule reachable_inv [OF good_start [OF assms(2)] pres_run_call pres_run_callback assms(1)])

end
