(* ===== verification/Framing.thy ===== *)
theory Framing
  imports Packets Lifecycle
begin

text \<open>
  From the bytes a chat server sends to what the user sees: the framing loop takes
  one length-prefixed frame after the other off the connection's buffer, however the
  network cut them, hands each to the parser, and keeps what is not yet complete.
\<close>

section \<open>Frames\<close>

lemma on_awaiting_run:
  assumes "conns w a = Some c"
  shows "m (c_awaiting c) = Some (r, b') \<Longrightarrow>
    on_awaiting a m w = Some (r, set_conn a (Some (c\<lparr>c_awaiting := b'\<rparr>)) w)"
  using assms by (simp add: on_awaiting_def exec)

lemma set_conn_same: "conns w a = Some c \<Longrightarrow> set_conn a (Some c) w = w"
  by (simp add: set_conn_def fun_upd_idem)

lemma set_conn_twice: "set_conn a x (set_conn a y w) = set_conn a x w"
  by (simp add: set_conn_def)

text \<open>A call that only looks at the buffer changes nothing.\<close>

lemma on_awaiting_look:
  "conns w a = Some c \<Longrightarrow> m (c_awaiting c) = Some (r, c_awaiting c) \<Longrightarrow>
     on_awaiting a m w = Some (r, w)"
  by (simp add: on_awaiting_run set_conn_same)

text \<open>The bytes \<open>t\<close> are the beginning of a frame that is not complete.\<close>

definition partial :: "string \<Rightarrow> bool" where
  "partial t \<longleftrightarrow> (\<exists>frame u. put_string frame = t @ u \<and> u \<noteq> [] \<and> length frame + 4 < 2 ^ 31)"

lemma partial_Nil: "partial []"
  unfolding partial_def by (rule exI [of _ "[]"]) (simp add: put_string_def intToDWord_def)

lemma at_length: "at b r \<Longrightarrow> length r < 2 ^ 31"
  using mb_wf_length_rest by (auto simp: at_def)

lemma peekInt32_at:
  assumes b: "at b (intToDWord n @ r)" and n: "cint n"
  shows "peekInt32 b = Some (Ok n, b)"
  using b n by (simp add: at_def peekInt32_run int32_of_mem_write_int)

lemma readMessageBuffer_at:
  "at b (s @ r) \<Longrightarrow> str_ok s \<Longrightarrow> \<exists>b'. readMessageBuffer (len s) b = Some (Ok (MessageBuffer s), b') \<and> at b' r"
  by (auto simp: at_def readMessageBuffer_def readBytes_run str_ok_cint exec mb_wf_adv_append
      rest_adv_append)

lemma mb_tail_at: "at b r \<Longrightarrow> bindM mb_tail (\<lambda>t. modM (\<lambda>_. t)) b = Some (Ok (), MessageBuffer r)"
  by (simp add: at_def mb_tail_run exec)

lemma left_at: "at b r \<Longrightarrow> left b = Some (Ok (len r), b)"
  by (auto simp: at_def left_run)

lemma on_awaiting_left:
  "conns w a = Some c \<Longrightarrow> at (c_awaiting c) r \<Longrightarrow> on_awaiting a left w = Some (Ok (len r), w)"
  by (rule on_awaiting_look) (auto intro: left_at)

lemma on_awaiting_peek:
  "conns w a = Some c \<Longrightarrow> at (c_awaiting c) (intToDWord n @ r) \<Longrightarrow> cint n \<Longrightarrow>
     on_awaiting a peekInt32 w = Some (Ok n, w)"
  by (rule on_awaiting_look) (auto intro: peekInt32_at)

lemma read_frame_complete:
  assumes c: "conns w a = Some c" and b: "at (c_awaiting c) (put_string frame @ r)"
  shows "read_frame a w = Some (Ok (Some (MessageBuffer frame)),
    set_conn a (Some (c\<lparr>c_awaiting := MessageBuffer r\<rparr>)) w)"
proof -
  let ?b = "c_awaiting c" and ?n = "len frame"
  have len: "?n + 4 + len r < 2 ^ 31" using at_length [OF b] by simp
  have n: "cint ?n" "cint (?n + 4)" using len by (simp_all add: cint_def)
  have b': "at ?b (intToDWord ?n @ (frame @ r))" using b by (simp add: put_string_def)
  obtain b1 where b1: "readInt32 ?b = Some (Ok ?n, b1)" "at b1 (frame @ r)"
    using readInt_at [OF b' n(1)] by (auto simp: yields_def readInt_def)
  obtain b2 where b2: "readMessageBuffer ?n b1 = Some (Ok (MessageBuffer frame), b2)" "at b2 r"
    using readMessageBuffer_at [OF b1(2)] len by (auto simp: str_ok_def)
  let ?w1 = "set_conn a (Some (c\<lparr>c_awaiting := b1\<rparr>)) w"
  let ?w2 = "set_conn a (Some (c\<lparr>c_awaiting := b2\<rparr>)) w"
  let ?w3 = "set_conn a (Some (c\<lparr>c_awaiting := MessageBuffer r\<rparr>)) w"
  have "on_awaiting a peekInt32 w = Some (Ok ?n, w)"
    by (rule on_awaiting_peek [OF c b' n(1)])
  moreover have "on_awaiting a left w = Some (Ok (?n + 4 + len r), w)"
    using on_awaiting_left [OF c b] by (simp add: algebra_simps)
  moreover have "on_awaiting a readInt32 w = Some (Ok ?n, ?w1)"
    using c by (rule on_awaiting_run) (rule b1(1))
  moreover have "on_awaiting a (readMessageBuffer ?n) ?w1 = Some (Ok (MessageBuffer frame), ?w2)"
    using on_awaiting_run [of ?w1 a "c\<lparr>c_awaiting := b1\<rparr>"] b2(1) by (simp add: set_conn_def)
  moreover have "on_awaiting a (bindM mb_tail (\<lambda>t. modM (\<lambda>_. t))) ?w2 = Some (Ok (), ?w3)"
    using on_awaiting_run [of ?w2 a "c\<lparr>c_awaiting := b2\<rparr>"] mb_tail_at [OF b2(2)]
    by (simp add: set_conn_def)
  ultimately show ?thesis
    using n(2) by (simp add: read_frame_def bindM_run thenM_run ensure_run ret_run)
qed

text \<open>One turn, on a complete frame and on an incomplete one.\<close>

lemma loop_turn_dispatch:
  assumes s: "sessions w p = Some s" "s_connection s = Some a" and c: "conns w a = Some c"
    and b: "at (c_awaiting c) (put_string frame @ r)"
  shows "loop_turn E p a w = dispatch E p (MessageBuffer frame)
    (set_conn a (Some (c\<lparr>c_awaiting := MessageBuffer r\<rparr>)) w)"
  using s read_frame_complete [OF c b] on_awaiting_left [OF c b]
  by (simp add: loop_turn_def bindM_run get_sess_run)

lemma loop_turn_frame:
  assumes s: "sessions w p = Some s" "s_connection s = Some a"
    and c: "conns w a = Some c" "c_parse_mode c = 0"
    and b: "at (c_awaiting c) (put_string frame @ r)"
  shows "loop_turn E p a w = thenM (with_local (MessageBuffer frame) (parseCSResponse E p)) (ret True)
    (set_conn a (Some (c\<lparr>c_awaiting := MessageBuffer r\<rparr>)) w)"
  using s c loop_turn_dispatch [OF s c(1) b]
  by (simp add: dispatch_def bindM_run the_connection_run get_sess_run get_conn_run set_conn_def)

lemma loop_turn_wait:
  assumes s: "sessions w p = Some s" "s_connection s = Some a" and c: "conns w a = Some c"
    and b: "at (c_awaiting c) t" and t: "partial t"
  shows "loop_turn E p a w = Some (Ok False, w)"
proof (cases "length t < 4")
  case True
  then show ?thesis
    using s on_awaiting_left [OF c b]
    by (simp add: loop_turn_def bindM_run get_sess_run ret_run)
next
  case False
  obtain frame u where f: "put_string frame = t @ u" "u \<noteq> []" "length frame + 4 < 2 ^ 31"
    using t by (auto simp: partial_def)
  have d4: "length (intToDWord n) = 4" for n by (simp add: intToDWord_def)
  have "take 4 t = intToDWord (len frame)"
  proof -
    have "take 4 (t @ u) = intToDWord (len frame)" using f(1) [symmetric] d4 by (simp add: put_string_def)
    then show ?thesis using False by simp
  qed
  then have t4: "t = intToDWord (len frame) @ drop 4 t" by (metis append_take_drop_id)
  have n: "cint (len frame)" "cint (len frame + 4)" using f(3) by (simp_all add: cint_def)
  have short: "len t < len frame + 4"
  proof -
    have "length (put_string frame) = length t + length u" by (simp add: f(1))
    then show ?thesis using f(2) by (cases u) simp_all
  qed
  have p: "on_awaiting a peekInt32 w = Some (Ok (len frame), w)"
    by (rule on_awaiting_peek [OF c _ n(1)]) (subst t4 [symmetric], rule b)
  show ?thesis
    using s False n short p on_awaiting_left [OF c b]
    by (simp add: loop_turn_def read_frame_def bindM_run thenM_run ensure_run get_sess_run ret_run)
qed

section \<open>Text messages, from the wire to the user\<close>

record im =
  im_header :: string
  im_from :: string
  im_to :: string
  im_parts :: "chat_part list"

definition im_body :: "im \<Rightarrow> string" where
  "im_body m = put_string (im_from m) @ put_string (im_to m)
     @ put_string (concat (map put_part (im_parts m)))"

definition im_wire :: "im \<Rightarrow> string" where
  "im_wire m = command kind3 (im_header m) ''TextMessage'' (im_body m)"

definition got_im :: "'b env \<Rightarrow> nat \<Rightarrow> im \<Rightarrow> 'b world \<Rightarrow> 'b world" where
  "got_im E acct m w =
     emit (GotIm acct (c_str (im_from m)) (c_str (concat (map (render E) (im_parts m))))
       (ev_time E (history w))) w"

lemma got_im_simps [simp]:
  "sessions (got_im E acct m w) = sessions w" "conns (got_im E acct m w) = conns w"
  by (simp_all add: got_im_def)

lemma got_im_set_conn: "got_im E acct m (set_conn a c w) = set_conn a c (got_im E acct m w)"
  by (simp add: got_im_def set_conn_emit set_conn_def)

lemma eats_TextMessage:
  assumes s: "sessions w p = Some s" "\<not> invalid s" and m: "list_all (part_ok E) (im_parts m)"
  shows "eats (intToDWord 3 @ put_string (im_header m) @ put_string ''TextMessage''
      @ put_string (im_body m)) w (parseCSResponse E p) () [] (got_im E (s_account s) m w)"
  by (rule eats_type3 [OF s], unfold parse_type3_def im_body_def got_im_def)
    (rule eats_rules s(1) m | simp)+

lemma parseCSResponse_TextMessage:
  assumes s: "sessions w p = Some s" "\<not> invalid s"
    and m: "list_all (part_ok E) (im_parts m)" and len: "length (im_wire m) < 2 ^ 31"
  shows "with_local (MessageBuffer (drop 4 (im_wire m))) (parseCSResponse E p) w
    = Some (Ok (), got_im E (s_account s) m w)"
proof -
  have d: "drop 4 (im_wire m) = intToDWord 3 @ put_string (im_header m)
      @ put_string ''TextMessage'' @ put_string (im_body m)"
    by (simp add: im_wire_def command_def put_string_def intToDWord_def)
  show ?thesis
    unfolding d by (rule eats_packet [OF eats_TextMessage [OF s m]])
      (use len d in \<open>metis length_drop less_imp_diff_less\<close>)
qed

lemma read_loop_more:
  "loop_turn E p a w = Some (Ok True, w') \<Longrightarrow> read_loop E p a w = read_loop E p a w'"
  by (subst read_loop.simps) (simp add: bindM_run)

lemma read_loop_stop:
  "loop_turn E p a w = Some (Ok False, w') \<Longrightarrow> read_loop E p a w = Some (Ok (), w')"
  by (subst read_loop.simps) (simp add: bindM_run ret_run)

lemma read_loop_ims:
  assumes s: "sessions w p = Some s" "\<not> invalid s" "s_connection s = Some a"
    and c: "conns w a = Some c" "c_parse_mode c = 0"
    and b: "c_awaiting c = MessageBuffer (concat (map im_wire ms) @ t)"
    and len: "length (concat (map im_wire ms) @ t) < 2 ^ 31"
    and ms: "list_all (\<lambda>m. list_all (part_ok E) (im_parts m)) ms" and t: "partial t"
  shows "read_loop E p a w = Some (Ok (),
    fold (got_im E (s_account s)) ms (set_conn a (Some (c\<lparr>c_awaiting := MessageBuffer t\<rparr>)) w))"
  using assms
proof (induction ms arbitrary: w c)
  case Nil
  have e: "c_awaiting c = MessageBuffer t" using Nil.prems(6) by simp
  have "at (c_awaiting c) t" unfolding e by (rule at_new) (use Nil.prems(7) in simp)
  then have "loop_turn E p a w = Some (Ok False, w)"
    by (rule loop_turn_wait [OF Nil.prems(1,3,4) _ Nil.prems(9)])
  moreover have "c\<lparr>c_awaiting := MessageBuffer t\<rparr> = c" using e by (cases c) simp
  moreover have "set_conn a (Some c) w = w" by (rule set_conn_same [OF Nil.prems(4)])
  ultimately show ?case by (simp add: read_loop_stop)
next
  case (Cons m ms)
  let ?r = "concat (map im_wire ms) @ t"
  let ?c = "c\<lparr>c_awaiting := MessageBuffer ?r\<rparr>"
  let ?w = "got_im E (s_account s) m (set_conn a (Some ?c) w)"
  have wire: "im_wire m = put_string (drop 4 (im_wire m))"
    by (simp add: im_wire_def command_def put_string_def intToDWord_def)
  have "at (c_awaiting c) (put_string (drop 4 (im_wire m)) @ ?r)"
    using Cons.prems(6,7) at_new [of "im_wire m @ ?r"] by (simp add: wire [symmetric])
  note turn = loop_turn_frame [OF Cons.prems(1,3,4,5) this]
  have "with_local (MessageBuffer (drop 4 (im_wire m))) (parseCSResponse E p) (set_conn a (Some ?c) w)
      = Some (Ok (), ?w)"
    using Cons.prems by (intro parseCSResponse_TextMessage) simp_all
  then have "loop_turn E p a w = Some (Ok True, ?w)"
    by (simp add: turn thenM_run ret_run)
  then have "read_loop E p a w = read_loop E p a ?w" by (rule read_loop_more)
  also have "\<dots> = Some (Ok (), fold (got_im E (s_account s)) ms
      (set_conn a (Some (?c\<lparr>c_awaiting := MessageBuffer t\<rparr>)) ?w))"
    using Cons.prems by (intro Cons.IH) (simp_all add: set_conn_def)
  also have "set_conn a (Some (?c\<lparr>c_awaiting := MessageBuffer t\<rparr>)) ?w
      = got_im E (s_account s) m (set_conn a (Some (c\<lparr>c_awaiting := MessageBuffer t\<rparr>)) w)"
    by (simp add: got_im_set_conn set_conn_twice)
  finally show ?case by simp
qed

section \<open>Data arrives\<close>

text \<open>The world a handler sees when the event loop has read the bytes \<open>d\<close>.\<close>

definition received :: "nat \<Rightarrow> int \<Rightarrow> string \<Rightarrow> 'b world \<Rightarrow> 'b world" where
  "received a fd d w = (case conns w a of
     None \<Rightarrow> w
   | Some c \<Rightarrow> set_conn a (Some (c\<lparr>c_awaiting := push_str d (c_awaiting c)\<rparr>))
       (emit (SysRead (obj_id c) fd) w))"

lemma received_simps [simp]:
  "sessions (received a fd d w) = sessions w" "id_map (received a fd d w) = id_map w"
  "id_counter (received a fd d w) = id_counter w" "next_addr (received a fd d w) = next_addr w"
  "proto_data (received a fd d w) = proto_data w"
  "conns w a = Some c \<Longrightarrow> conns (received a fd d w)
     = (conns w)(a \<mapsto> c\<lparr>c_awaiting := push_str d (c_awaiting c)\<rparr>)"
  "conns w a = Some c \<Longrightarrow> history (received a fd d w) = SysRead (obj_id c) fd # history w"
  by (simp_all add: received_def split: option.split)

lemma push_new [simp]: "push_str d (MessageBuffer s) = MessageBuffer (s @ d)"
  by (simp add: push_str_def MessageBuffer_def)

lemma read_data_run:
  assumes c: "id_map w i = Some a" "conns w a = Some c" "\<not> invalid c"
    and p: "id_map w (c_handler_id c) = Some p"
    and fd: "0 \<le> fd" "ne_input_error E (history w) fd = 0"
    and data: "ne_read E (history w) fd = ReadData d" "d \<noteq> []"
  shows "run_callback E (Readable i fd) w = readCallback E p a (received a fd d w)"
  using assms
  by (simp add: conn_read_cb_def read_cb_def RediffBolConn_handler_def bindM_run thenM_run
      getObjectById_run ask_run get_conn_run upd_conn_run out_run isInvalid_def if_HANDLER_run
      received_def)

text \<open>
  The world the parser of a frame sees when the event loop has read bytes on the connection
  \<open>c\<close> that complete the frame: the bytes \<open>t\<close> after it are kept.
\<close>

definition taken :: "nat \<Rightarrow> 'b conn \<Rightarrow> int \<Rightarrow> string \<Rightarrow> 'b world \<Rightarrow> 'b world" where
  "taken a c fd t w =
     emit (SysRead (obj_id c) fd) (set_conn a (Some (c\<lparr>c_awaiting := MessageBuffer t\<rparr>)) w)"

lemma taken_simps [simp]:
  "sessions (taken a c fd t w) = sessions w" "id_map (taken a c fd t w) = id_map w"
  "id_counter (taken a c fd t w) = id_counter w" "next_addr (taken a c fd t w) = next_addr w"
  "proto_data (taken a c fd t w) = proto_data w"
  "conns (taken a c fd t w) = (conns w)(a \<mapsto> c\<lparr>c_awaiting := MessageBuffer t\<rparr>)"
  "history (taken a c fd t w) = SysRead (obj_id c) fd # history w"
  by (simp_all add: taken_def)

lemma received_taken:
  "conns w a = Some c \<Longrightarrow> set_conn a (Some (c\<lparr>c_awaiting := MessageBuffer t\<rparr>)) (received a fd d w)
     = taken a c fd t w"
  by (simp add: received_def taken_def set_conn_emit set_conn_twice)

text \<open>Without the HTTP mode the read callback is the loop.\<close>

lemma readCallback_loop:
  assumes "sessions w p = Some s" and "s_connection s = Some a"
    and "conns w a = Some c" and "c_parse_mode c \<noteq> 2" and "read_loop E p a w = Some (x, w')"
    and "x \<noteq> Throw Overflow"
  shows "readCallback E p a w = Some (x, w')"
  using assms by (simp add: readCallback_def catch_Overflow_run bindM_run thenM_run whenM_run
      get_sess_run get_conn_run ensure_run)

end
