(* ===== verification/WireSpec.thy ===== *)
theory WireSpec
  imports Framing
begin

text \<open>
  What the wire format of numbers and strings promises: they survive a round trip, and a
  reader that finds too few bytes throws.  Also what the format does not survive:
  lengths that are negative.
\<close>

section \<open>Numbers and strings\<close>

text \<open>The two ways the client writes an \<^verbatim>\<open>int\<close>, by shifting (\<^verbatim>\<open>intToDWord\<close>) and by
  copying memory (\<^verbatim>\<open>write_int\<close>), put the same four bytes on the wire, and a reader on the
  same machine gets the number back modulo \<open>2 ^ 32\<close>, for every number.\<close>

theorem int_writers_agree:
  "write_int i = intToDWord i \<and> int32_of_mem (write_int i) = to_int32 i"
  by (simp add: write_int_eq int32_of_mem_intToDWord)

text \<open>\<^verbatim>\<open>bytesToLEInt\<close>, in spite of its name, reads its bytes big-endian, and only when all
  of them are below 128; when the last one is not, the sign extension of \<^verbatim>\<open>char\<close> makes the
  result \<open>d - 256\<close> whatever the other bytes are.\<close>

theorem bytesToLEInt_value:
  "((of_char a :: int) < 128 \<and> (of_char b :: int) < 128 \<and> (of_char c :: int) < 128
      \<and> (of_char d :: int) < 128 \<longrightarrow>
        bytesToLEInt a b c d = 2 ^ 24 * of_char a + 2 ^ 16 * of_char b + 2 ^ 8 * of_char c + of_char d)
   \<and> (128 \<le> (of_char d :: int) \<longrightarrow> bytesToLEInt a b c d = of_char d - 256)"
  using bytesToLEInt_big_endian [of a b c d] bytesToLEInt_negative [of d a b c]
  by (simp add: be_value_def)

theorem bytesToLEInt_value_witness:
  "bytesToLEInt (CHR 0x01) (CHR 0x02) (CHR 0x03) (CHR 0x04) = 16909060
   \<and> bytesToLEInt (CHR 0x00) (CHR 0x00) (CHR 0x01) (CHR 0xF4) = -12"
  using bytesToLEInt_value [of "CHR 0x01" "CHR 0x02" "CHR 0x03" "CHR 0x04"]
    bytesToLEInt_value [of "CHR 0x00" "CHR 0x00" "CHR 0x01" "CHR 0xF4"]
  by simp

text \<open>C35.  \<^verbatim>\<open>MessageBuffer::readBytes\<close> on a well-formed buffer: it throws the overflow exception,
  leaving the position alone, exactly when more is asked for than is left; otherwise a
  length of zero or more takes that many bytes.  A negative length is not refused: it
  yields everything that is left and moves the position back.\<close>

theorem readBytes_spec:
  assumes "mb_wf b" and "cint n"
  shows "readBytes n b =
     (if int (length (rest b)) < n then Some (Throw Overflow, b)
      else Some (Ok (if 0 \<le> n then take (nat n) (rest b) else rest b),
        b\<lparr>mb_offset := mb_offset b + n\<rparr>))"
  using readBytes_run [OF assms] by (simp add: mb_adv_def)

theorem readBytes_spec_witness:
  "readBytes 2 (MessageBuffer ''abc'') = Some (Ok ''ab'', (MessageBuffer ''abc'')\<lparr>mb_offset := 2\<rparr>)
   \<and> readBytes 4 (MessageBuffer ''abc'') = Some (Throw Overflow, MessageBuffer ''abc'')
   \<and> readBytes (-1) (MessageBuffer ''abc'') = Some (Ok ''abc'', (MessageBuffer ''abc'')\<lparr>mb_offset := -1\<rparr>)"
  using readBytes_spec [of "MessageBuffer ''abc''" 2] readBytes_spec [of "MessageBuffer ''abc''" 4]
    readBytes_spec [of "MessageBuffer ''abc''" "-1"]
  by (simp add: mb_wf_new cint_def) (simp add: MessageBuffer_def)

text \<open>C34.  A string written with its length in front is read back by \<^verbatim>\<open>readString\<close>, which consumes
  exactly its bytes and leaves the buffer well-formed.\<close>

theorem readString_roundtrip:
  assumes "mb_wf b" and "length s < 2 ^ 31" and "rest b = put_string s @ r"
  shows "\<exists>b'. readString b = Some (Ok s, b') \<and> mb_wf b' \<and> rest b' = r"
  using str_codec.get_put [OF assms(1) _ assms(3)] str_codec.get_then(2,3) [OF assms(1) _ assms(3)]
    assms(2) by (simp add: str_ok_def)

theorem readString_roundtrip_witness:
  "\<exists>b'. readString (MessageBuffer (put_string ''hi'' @ ''rest'')) = Some (Ok ''hi'', b')
     \<and> mb_wf b' \<and> rest b' = ''rest''"
  by (rule readString_roundtrip) (simp_all add: mb_wf_new)

text \<open>C36.  Reading a string from a well-formed buffer always returns, and the only exception it can
  raise is the one the read callback catches: no byte sequence makes it read out of
  bounds.\<close>

theorem readString_safe:
  assumes "mb_wf b"
  shows "\<exists>r b'. readString b = Some (r, b') \<and> (r = Throw Overflow \<or> (\<exists>s. r = Ok s))"
proof (cases "4 \<le> length (rest b)")
  case True
  then show ?thesis
    using assms by (simp add: readString_def exec readInt32_run readBytes_run mb_wf_adv
        int32_of_mem_def)
next
  case False
  then show ?thesis using assms by (simp add: readString_def exec readInt32_run)
qed

theorem readString_safe_witness:
  "\<exists>r b'. readString (MessageBuffer (intToDWord (-100))) = Some (r, b')
     \<and> (r = Throw Overflow \<or> (\<exists>s. r = Ok s))"
  by (rule readString_safe) (simp add: mb_wf_new)


end
