(* ===== verification/ConnStream.thy ===== *)
theory ConnStream
  imports ConnInvariant
begin

text \<open>
  What the transmit side of a connection promises: the bytes the operating system has
  taken and the bytes still queued are together the bytes that were written, in order,
  whatever \<^verbatim>\<open>write\<close> takes at a time and whenever the event loop calls back.
\<close>

section \<open>The abstraction\<close>

text \<open>\<open>content\<close> reads libpurple's circular buffer as a list of bytes.\<close>

definition queued :: "('b \<Rightarrow> string) \<Rightarrow> 'b conn \<Rightarrow> string" where
  "queued content c = (case c_txbuf c of None \<Rightarrow> [] | Some q \<Rightarrow> content q)"

definition stream :: "('b \<Rightarrow> string) \<Rightarrow> ('b, 'z) net_scheme \<Rightarrow> 'b conn \<Rightarrow> string" where
  "stream content s c = sent (history s) (obj_id c) @ queued content c"

text \<open>While no write callback is registered nothing is queued, so a direct write is in order.\<close>

definition drained :: "('b \<Rightarrow> string) \<Rightarrow> 'b conn \<Rightarrow> bool" where
  "drained content c \<longleftrightarrow> c_tx c = 0 \<longrightarrow> queued content c = []"

text \<open>An open connection with a descriptor and a queue in that state.\<close>

definition tx_ready :: "('b \<Rightarrow> string) \<Rightarrow> 'b conn \<Rightarrow> bool" where
  "tx_ready content c \<longleftrightarrow>
     \<not> invalid c \<and> c_txbuf c \<noteq> None \<and> c_fd c \<noteq> None \<and> drained content c"

section \<open>One call\<close>

lemma sys_write_run:
  "c_fd c = Some fd \<Longrightarrow> sys_write E c d s =
     Some (Ok (ne_write E (history s) fd d),
       emit (SysWrite (obj_id c) fd d (fst (ne_write E (history s) fd d))) s)"
  by (simp add: sys_write_def exec)

lemma enqueue_run:
  assumes "circ_buffer E content" and "fresh_handles E"
    and c: "conns s a = Some c" and "c_txbuf c = Some q" and "c_fd c = Some fd"
  obtains s' c' where "enqueue E a d s = Some (Ok (), s')" and "conns s' = (conns s)(a \<mapsto> c')"
    and "queued content c' = queued content c @ d" and "c_tx c' \<noteq> 0" and "shape c' = shape c"
    and "c_fd c' = c_fd c" and "c_txbuf c' \<noteq> None" and "sent (history s') = sent (history s)"
proof (cases "c_tx c = 0")
  case False
  let ?c = "c\<lparr>c_txbuf := Some (cb_append E q d)\<rparr>"
  show ?thesis
    by (rule that [of "set_conn a (Some ?c) s" ?c])
      (use assms False in \<open>simp_all add: enqueue_def exec circ_buffer_def queued_def shape_def\<close>)
next
  case True
  let ?h = "ne_input_add E (history s)"
  let ?c = "c\<lparr>c_txbuf := Some (cb_append E q d), c_tx := ?h\<rparr>"
  have "?h \<noteq> 0" using assms(2) unfolding fresh_handles_def by (metis less_irrefl)
  then show ?thesis
    by (intro that [of "set_conn a (Some ?c) (emit (InputAdd ?h fd CondWrite (obj_id c)) s)" ?c])
      (use assms True in \<open>simp_all add: enqueue_def exec circ_buffer_def queued_def shape_def
        set_conn_emit fun_eq_iff\<close>)
qed

lemma sent_SysWrite:
  "sent (SysWrite i fd d r # tr) j = sent tr j @ (if j = i then take (nat r) d else [])"
  by simp

lemma conn_write_ok:
  assumes E: "circ_buffer E content" "fresh_handles E" "posix_write E"
    and c: "conns s a = Some c" "tx_ready content c" "c_fd c = Some fd"
    and ok: "c_tx c \<noteq> 0 \<or> 0 < fst (ne_write E (history s) fd d)
      \<or> fst (ne_write E (history s) fd d) < 0 \<and> snd (ne_write E (history s) fd d)"
  obtains s' c' where "conn_write E rdErr a d s = Some (Ok (), s')"
    and "conns s' = (conns s)(a \<mapsto> c')" and "shape c' = shape c" and "tx_ready content c'"
    and "stream content s' c' = stream content s c @ d"
proof -
  obtain q where q: "c_txbuf c = Some q" and v: "\<not> invalid c" using c(2) by (auto simp: tx_ready_def)
  let ?r = "ne_write E (history s) fd d"
  define s1 where "s1 = (if c_tx c = 0 then emit (SysWrite (obj_id c) fd d (fst ?r)) s else s)"
  define n where "n = (if c_tx c = 0 \<and> 0 \<le> fst ?r then nat (fst ?r) else 0)"
  have c1: "conns s1 a = Some c" using c by (simp add: s1_def)
  have len: "n \<le> length d" using E(3) by (simp add: n_def posix_write_def nat_le_iff)
  have st1: "sent (history s1) (obj_id c) = sent (history s) (obj_id c) @ take n d"
    by (simp add: s1_def n_def)
  have run: "conn_write E rdErr a d s = (if n < length d then enqueue E a (drop n d) s1
      else Some (Ok (), s1))"
  proof (cases "c_tx c = 0")
    case False
    then show ?thesis
      using c(1) v by (simp add: conn_write_def exec isInvalid_def s1_def n_def)
  next
    case True
    show ?thesis
    proof (cases "0 < fst ?r")
      case True
      then show ?thesis
        using c(1,3) v \<open>c_tx c = 0\<close>
        by (simp add: conn_write_def exec isInvalid_def sys_write_run s1_def n_def nat_less_iff)
    next
      case False
      then have "fst ?r < 0" "snd ?r" using ok \<open>c_tx c = 0\<close> by auto
      then show ?thesis
        using c(1,3) v \<open>c_tx c = 0\<close>
        by (simp add: conn_write_def exec isInvalid_def sys_write_run s1_def n_def)
    qed
  qed
  have front: "queued content c @ take n d = take n d @ queued content c"
    using c(2) by (auto simp: tx_ready_def drained_def n_def)
  show ?thesis
  proof (cases "n < length d")
    case True
    obtain s' c' where r: "enqueue E a (drop n d) s1 = Some (Ok (), s')"
      and c': "conns s' = (conns s1)(a \<mapsto> c')" "queued content c' = queued content c @ drop n d"
        "c_tx c' \<noteq> 0" "shape c' = shape c" "c_fd c' = c_fd c" "c_txbuf c' \<noteq> None"
      and h: "sent (history s') = sent (history s1)"
      by (rule enqueue_run [OF E(1,2) c1 q c(3), of "drop n d"])
    have i: "obj_id c' = obj_id c" "invalid c' = invalid c" using c'(4) by (simp_all add: shape_def)
    have "stream content s' c' = sent (history s) (obj_id c) @ (take n d @ queued content c) @ drop n d"
      by (simp add: stream_def i h st1 c'(2))
    then have "stream content s' c' = stream content s c @ d"
      by (simp add: stream_def flip: front)
    then show ?thesis
      using r c' i c(2) by (intro that [of s' c']) (auto simp: run True s1_def tx_ready_def drained_def)
  next
    case False
    then have "n = length d" using len by simp
    then have "stream content s1 c = stream content s c @ d"
      using front by (simp add: stream_def st1)
    then show ?thesis
      using False c by (intro that [of s1 c]) (auto simp: run s1_def)
  qed
qed

lemma write_cb_ok:
  assumes E: "circ_buffer E content" "posix_write E"
    and c: "conns s a = Some c" "tx_ready content c" "c_fd c = Some fd" "c_txbuf c = Some q"
    and ok: "cb_max_read E q = 0
      \<or> 0 < fst (ne_write E (history s) fd (cb_out E q (cb_max_read E q)))
      \<or> fst (ne_write E (history s) fd (cb_out E q (cb_max_read E q))) < 0
        \<and> snd (ne_write E (history s) fd (cb_out E q (cb_max_read E q)))"
  obtains s' c' where "write_cb E rdErr a s = Some (Ok (), s')"
    and "conns s' = (conns s)(a \<mapsto> c')" and "shape c' = shape c" and "tx_ready content c'"
    and "stream content s' c' = stream content s c"
proof (cases "cb_max_read E q = 0")
  case True
  let ?c = "c\<lparr>c_tx := 0\<rparr>"
  have "content q = []" using True E(1) by (simp add: circ_buffer_def)
  then show ?thesis
    using c True
    by (intro that [of "set_conn a (Some ?c) (emit (InputRemove (c_tx c)) s)" ?c])
      (simp_all add: write_cb_def exec shape_def tx_ready_def drained_def stream_def queued_def)
next
  case False
  let ?m = "cb_max_read E q"
  let ?d = "cb_out E q ?m"
  let ?r = "ne_write E (history s) fd ?d"
  let ?s = "emit (SysWrite (obj_id c) fd ?d (fst ?r)) s"
  have d: "?d = take ?m (content q)" "?m \<le> length (content q)"
    using E(1) by (simp_all add: circ_buffer_def)
  show ?thesis
  proof (cases "0 < fst ?r")
    case True
    let ?n = "nat (fst ?r)"
    let ?c = "c\<lparr>c_txbuf := Some (cb_mark_read E q ?n)\<rparr>"
    have "fst ?r \<le> int (length ?d)" using E(2) by (simp add: posix_write_def)
    then have n: "?n \<le> ?m" using d by simp
    then have "content (cb_mark_read E q ?n) = drop ?n (content q)"
      using E(1) by (simp add: circ_buffer_def)
    moreover have "take ?n ?d = take ?n (content q)" using n by (simp add: d min_def)
    ultimately show ?thesis
      using c False True
      by (intro that [of "set_conn a (Some ?c) ?s" ?c])
        (simp_all add: write_cb_def exec sys_write_run shape_def tx_ready_def drained_def
          stream_def queued_def)
  next
    case le: False
    then show ?thesis
      using c False ok
      by (intro that [of ?s c])
        (auto simp: write_cb_def exec sys_write_run tx_ready_def stream_def fun_upd_idem)
  qed
qed

section \<open>Any sequence of calls\<close>

datatype tx_op = Write string | Ready

fun run_tx ::
  "('b, 'e) net_env_scheme \<Rightarrow> (nat \<Rightarrow> nat \<Rightarrow> (('b, 'z) net_scheme, unit) M) \<Rightarrow> nat \<Rightarrow> tx_op list \<Rightarrow>
     (('b, 'z) net_scheme, unit) M" where
  "run_tx E rdErr a [] = ret ()"
| "run_tx E rdErr a (Write d # ops) = thenM (conn_write E rdErr a d) (run_tx E rdErr a ops)"
| "run_tx E rdErr a (Ready # ops) = thenM (write_cb E rdErr a) (run_tx E rdErr a ops)"

fun written :: "tx_op list \<Rightarrow> string" where
  "written [] = []"
| "written (Write d # ops) = d @ written ops"
| "written (Ready # ops) = written ops"

definition is_closed :: "nat \<Rightarrow> ('b, 'z) net_scheme \<Rightarrow> bool" where
  "is_closed a s \<longleftrightarrow> (\<forall>c. conns s a = Some c \<longrightarrow> invalid c \<and> c_txbuf c = None)"

text \<open>A handler that does not bring a closed connection back to life.\<close>

definition leaves_closed :: "(nat \<Rightarrow> nat \<Rightarrow> (('b, 'z) net_scheme, unit) M) \<Rightarrow> bool" where
  "leaves_closed rdErr \<longleftrightarrow> (\<forall>p a s u s'. is_closed a s \<longrightarrow> rdErr p a s = Some (Ok u, s') \<longrightarrow> is_closed a s')"

lemma close_is_closed: "conn_close E a s = Some (Ok u, s') \<Longrightarrow> is_closed a s'"
  by (erule conn_close_OkD) (simp add: is_closed_def closed_def)

lemma close_then_closed:
  assumes "leaves_closed rdErr" and "thenM (conn_close E a) (if_HANDLER a (\<lambda>p. rdErr p a)) s = Some (Ok u, s')"
  shows "is_closed a s'"
proof -
  obtain t where t: "conn_close E a s = Some (Ok (), t)"
    and h: "if_HANDLER a (\<lambda>p. rdErr p a) t = Some (Ok u, s')"
    using assms(2) by (auto elim: thenM_OkE)
  have ct: "is_closed a t" by (rule close_is_closed [OF t])
  obtain c where c: "conns t a = Some c" using t by (auto elim: conn_close_OkD)
  show ?thesis
    using h assms(1) ct
    by (cases "id_map t (c_handler_id c)") (auto simp: if_HANDLER_run [OF c] leaves_closed_def)
qed

lemma closed_stays:
  assumes "leaves_closed rdErr" and "is_closed a s" and "run_tx E rdErr a ops s = Some (Ok u, s')"
  shows "is_closed a s'"
  using assms(2,3)
proof (induction E rdErr a ops arbitrary: s rule: run_tx.induct)
  case (1 E rdErr a)
  then show ?case by (simp add: ret_run)
next
  case (2 E rdErr a d ops)
  obtain t where t: "conn_write E rdErr a d s = Some (Ok (), t)"
    and r: "run_tx E rdErr a ops t = Some (Ok u, s')"
    using 2(3) by (auto elim: thenM_OkE)
  have "t = s" using t 2(2) by (auto simp: conn_write_def exec isInvalid_def is_closed_def split: option.splits)
  then show ?case using 2(1) [OF 2(2)] r by simp
next
  case (3 E rdErr a ops)
  obtain t where t: "write_cb E rdErr a s = Some (Ok (), t)" using 3(3) by (auto elim: thenM_OkE)
  then show ?case using 3(2) by (auto simp: write_cb_def exec is_closed_def split: option.splits)
qed

text \<open>
  As long as the connection is open, the stream is what it was followed by what has
  been written.
\<close>

lemma run_tx_stream:
  assumes E: "circ_buffer E content" "fresh_handles E" "posix_write E"
    and "leaves_closed rdErr" and "conns s a = Some c" and "tx_ready content c"
    and "run_tx E rdErr a ops s = Some (Ok u, s')" and "\<not> is_closed a s'"
  shows "\<exists>c'. conns s' a = Some c' \<and> tx_ready content c' \<and> obj_id c' = obj_id c
    \<and> stream content s' c' = stream content s c @ written ops"
  using assms
proof (induction E rdErr a ops arbitrary: s c rule: run_tx.induct)
  case (1 E rdErr a)
  then show ?case by (simp add: ret_run)
next
  case (2 E rdErr a d ops)
  obtain t where t: "conn_write E rdErr a d s = Some (Ok (), t)"
    and r: "run_tx E rdErr a ops t = Some (Ok u, s')"
    using 2(8) by (auto elim: thenM_OkE)
  obtain fd where fd: "c_fd c = Some fd" and v: "\<not> invalid c" using 2(7) by (auto simp: tx_ready_def)
  let ?r = "ne_write E (history s) fd d"
  have ok: "c_tx c \<noteq> 0 \<or> 0 < fst ?r \<or> fst ?r < 0 \<and> snd ?r"
  proof (rule ccontr)
    assume bad: "\<not> ?thesis"
    let ?s = "emit (SysWrite (obj_id c) fd d (fst ?r)) s"
    have "conn_write E rdErr a d s = thenM (conn_close E a) (if_HANDLER a (\<lambda>p. rdErr p a)) ?s"
      using bad 2(6) v fd
      by (auto simp: conn_write_def get_conn_run isInvalid_def sys_write_run Let_def bindM_run)
    then have "is_closed a t" using close_then_closed [OF 2(5)] t by metis
    then show False using closed_stays [OF 2(5) _ r] 2(9) by blast
  qed
  obtain s1 c1 where s1: "conn_write E rdErr a d s = Some (Ok (), s1)"
    and c1: "conns s1 = (conns s)(a \<mapsto> c1)" "shape c1 = shape c" "tx_ready content c1"
      "stream content s1 c1 = stream content s c @ d"
    by (rule conn_write_ok [OF 2(2,3,4,6,7) fd ok, of rdErr])
  have st: "s1 = t" using s1 t by simp
  have ct: "conns t a = Some c1" using c1(1) by (simp add: st)
  show ?case
    using 2(1) [OF 2(2,3,4,5) ct c1(3) r 2(9)] c1(2,4) by (auto simp: shape_def st)
next
  case (3 E rdErr a ops)
  obtain t where t: "write_cb E rdErr a s = Some (Ok (), t)"
    and r: "run_tx E rdErr a ops t = Some (Ok u, s')"
    using 3(8) by (auto elim: thenM_OkE)
  obtain fd q where fd: "c_fd c = Some fd" and v: "\<not> invalid c" and q: "c_txbuf c = Some q"
    using 3(7) by (auto simp: tx_ready_def)
  let ?d = "cb_out E q (cb_max_read E q)"
  let ?r = "ne_write E (history s) fd ?d"
  have ok: "cb_max_read E q = 0 \<or> 0 < fst ?r \<or> fst ?r < 0 \<and> snd ?r"
  proof (rule ccontr)
    assume bad: "\<not> ?thesis"
    let ?s = "emit (SysWrite (obj_id c) fd ?d (fst ?r)) s"
    have "write_cb E rdErr a s = thenM (conn_close E a) (if_HANDLER a (\<lambda>p. rdErr p a)) ?s"
      using bad 3(6) q fd by (auto simp: write_cb_def get_conn_run sys_write_run bindM_run)
    then have "is_closed a t" using close_then_closed [OF 3(5)] t by metis
    then show False using closed_stays [OF 3(5) _ r] 3(9) by blast
  qed
  obtain s1 c1 where s1: "write_cb E rdErr a s = Some (Ok (), s1)"
    and c1: "conns s1 = (conns s)(a \<mapsto> c1)" "shape c1 = shape c" "tx_ready content c1"
      "stream content s1 c1 = stream content s c"
    by (rule write_cb_ok [OF 3(2,4,6,7) fd q ok, of rdErr])
  have st: "s1 = t" using s1 t by simp
  have ct: "conns t a = Some c1" using c1(1) by (simp add: st)
  show ?case
    using 3(1) [OF 3(2,3,4,5) ct c1(3) r 3(9)] c1(2,4) by (auto simp: shape_def st)
qed

end
