(* ===== verification/Demo.thy ===== *)
theory Demo
  imports Lifecycle ConnStream
begin

text \<open>
  A concrete outside world, to run the model in: a network that takes everything (or,
  in \<open>slow_env\<close>, nothing yet) and whose peers send nothing and hang up, a list as the circular buffer, and text conversion for
  plain ASCII.  It meets all the documented behaviour that theorems assume.
\<close>

section \<open>The environment\<close>

fun top_handle :: "event list \<Rightarrow> int" where
  "top_handle [] = 0"
| "top_handle (InputAdd h fd d i # tr) = max h (top_handle tr)"
| "top_handle (_ # tr) = top_handle tr"

fun every_second :: "string \<Rightarrow> string" where
  "every_second (a # b # s) = b # every_second s"
| "every_second s = []"

definition demo_iconv :: "string \<Rightarrow> string \<Rightarrow> string \<Rightarrow> string option" where
  "demo_iconv to from a =
     (if from = ''UTF-16BE'' \<and> even (length a) then Some (every_second a)
      else if from = ''UTF-8'' then Some (concat (map (\<lambda>c. [CHR 0x00, c]) a))
      else None)"

definition demo_env :: "string env" where
  "demo_env =
     \<lparr>tx_iconv = demo_iconv, tx_escape = (\<lambda>s. s), tx_unescape = (\<lambda>s. s), tx_fonts = False,
      ne_proxy_connect = (\<lambda>tr. 1), ne_input_add = (\<lambda>tr. top_handle tr + 1),
      ne_input_error = (\<lambda>tr fd. 0), ne_write = (\<lambda>tr fd d. (int (length d), False)),
      ne_read = (\<lambda>tr fd. ReadData []), cb_new = [], cb_append = (@), cb_max_read = length,
      cb_out = (\<lambda>q n. take n q), cb_mark_read = (\<lambda>q n. drop n q),
      ev_username = (\<lambda>acct. Some ''me''), ev_password = (\<lambda>acct. Some ''pw''),
      ev_rand = (\<lambda>tr. 0), ev_time = (\<lambda>tr. 1234), ev_timeout_add = (\<lambda>tr. 9),
      ev_find_buddy = (\<lambda>tr acct b. False), ev_find_group = (\<lambda>tr g. False),
      ev_status_message = (\<lambda>tr acct. None), ev_status_id = (\<lambda>tr acct. Some ''online''),
      ev_roomlist_new = (\<lambda>tr. 5)\<rparr>"

text \<open>Whether something has been written already, for networks that change their mind.\<close>

fun is_write :: "event \<Rightarrow> bool" where
  "is_write (SysWrite i fd d r) = True"
| "is_write _ = False"

definition slow_env :: "string env" where
  "slow_env = demo_env\<lparr>ne_write := (\<lambda>tr fd d. (-1, True))\<rparr>"

lemma demo_sel:
  "tx_iconv demo_env = demo_iconv" "tx_escape demo_env = (\<lambda>s. s)" "tx_unescape demo_env = (\<lambda>s. s)"
  "\<not> tx_fonts demo_env"
  "ne_proxy_connect demo_env = (\<lambda>tr. 1)" "ne_input_add demo_env = (\<lambda>tr. top_handle tr + 1)"
  "ne_input_error demo_env = (\<lambda>tr fd. 0)"
  "ne_write demo_env = (\<lambda>tr fd d. (int (length d), False))"
  "ne_read demo_env = (\<lambda>tr fd. ReadData [])"
  "cb_new demo_env = []" "cb_append demo_env = (@)" "cb_max_read demo_env = length"
  "cb_out demo_env = (\<lambda>q n. take n q)" "cb_mark_read demo_env = (\<lambda>q n. drop n q)"
  "ev_username demo_env = (\<lambda>acct. Some ''me'')" "ev_password demo_env = (\<lambda>acct. Some ''pw'')"
  "ev_rand demo_env = (\<lambda>tr. 0)" "ev_time demo_env = (\<lambda>tr. 1234)"
  "ev_timeout_add demo_env = (\<lambda>tr. 9)" "ev_find_buddy demo_env = (\<lambda>tr acct b. False)"
  "ev_find_group demo_env = (\<lambda>tr g. False)" "ev_status_message demo_env = (\<lambda>tr acct. None)"
  "ev_status_id demo_env = (\<lambda>tr acct. Some ''online'')"
  "ev_roomlist_new demo_env = (\<lambda>tr. 5)"
  by (simp_all add: demo_env_def)

lemma slow_sel:
  "ne_write slow_env = (\<lambda>tr fd d. (-1, True))"
  "ne_proxy_connect slow_env = (\<lambda>tr. 1)" "ne_input_add slow_env = (\<lambda>tr. top_handle tr + 1)"
  "ne_input_error slow_env = (\<lambda>tr fd. 0)"
  "cb_new slow_env = []" "cb_append slow_env = (@)" "cb_max_read slow_env = length"
  "cb_out slow_env = (\<lambda>q n. take n q)" "cb_mark_read slow_env = (\<lambda>q n. drop n q)"
  by (simp_all add: slow_env_def demo_sel)

lemma top_handle_bound: "watches tr h \<noteq> None \<Longrightarrow> h \<le> top_handle tr"
  by (induction tr rule: top_handle.induct) (auto split: if_splits)

lemma top_handle_nonneg: "0 \<le> top_handle tr"
  by (induction tr rule: top_handle.induct) auto

lemma demo_fresh: "fresh_handles demo_env" "fresh_handles slow_env"
proof -
  have "watches tr (top_handle tr + 1) = None" for tr
    using top_handle_bound [of tr "top_handle tr + 1"] by (cases "watches tr (top_handle tr + 1)") auto
  moreover have "0 < top_handle tr + 1" for tr using top_handle_nonneg [of tr] by simp
  ultimately show "fresh_handles demo_env" "fresh_handles slow_env"
    by (simp_all add: fresh_handles_def demo_env_def slow_env_def)
qed

lemma demo_circ_buffer: "circ_buffer demo_env (\<lambda>q. q)" "circ_buffer slow_env (\<lambda>q. q)"
  by (simp_all add: circ_buffer_def demo_env_def slow_env_def)

lemma demo_posix_write: "posix_write demo_env" "posix_write slow_env"
  by (simp_all add: posix_write_def demo_env_def slow_env_def)

section \<open>A session is started\<close>

definition demo_login :: "string env \<Rightarrow> string world" where
  "demo_login E = snd (the (run_call E (Login 0) start_world))"

lemmas demo_exec = exec demo_sel slow_sel start_world_def rediffbol_login_def
  new_session_def startLogin_def new_conn_def establish_connection_def HANDLER_def
  reg_add_def emit_def set_conn_def set_sess_def set_proto_def int_max_def

lemma demo_login_run:
  "run_call demo_env (Login 0) start_world = Some (Ok (), demo_login demo_env)"
  "run_call slow_env (Login 0) start_world = Some (Ok (), demo_login slow_env)"
  by (simp_all add: demo_login_def demo_exec)

text \<open>The session is at address 0 and its connection at address 1, under those numbers.\<close>

definition demo_session :: sess where
  "demo_session =
     \<lparr>invalid = False, obj_id = 0, s_account = 0, s_connection = Some 1,
      s_userAgent = DEFAULT_USERAGENT, s_keep_alive_counter = 0, s_keep_alive_timer = 0,
      s_connection_state = 0, s_nickname = Map.empty, s_status_text = Map.empty,
      s_groups = {}, s_session = [], s_visibleIP = [], s_server_userId = [],
      s_server_displayname = [], s_server_nickname = [], s_roomlist = RoomlistUnset\<rparr>"

definition demo_conn :: "string conn" where
  "demo_conn =
     \<lparr>invalid = False, obj_id = 1, c_attempt = 1, c_txbuf = Some [],
      c_awaiting = MessageBuffer [], c_tx = 0, c_rx = 0, c_fd = Some (-1), c_parse_mode = 1,
      c_handler_id = 0\<rparr>"

lemma demo_login_state:
  assumes "E \<in> {demo_env, slow_env}"
  shows "demo_login E = \<lparr>id_counter = 2, id_map = [0 \<mapsto> 0, 1 \<mapsto> 1], next_addr = 2,
     conns = [1 \<mapsto> demo_conn],
     history = [ProxyConnect 0 GATEKEEPER 1863 1 1, UpdateProgress 0 ''Connecting'' 0 2],
     sessions = [0 \<mapsto> demo_session], proto_data = [0 \<mapsto> 0]\<rparr>"
  using assms
  by (auto simp: demo_login_def demo_exec demo_session_def demo_conn_def c_str_def GATEKEEPER_def
      fun_upd_twist)

text \<open>
  The gatekeeper accepts the connection, as descriptor 7, and the request is sent, or
  queued where the network takes nothing.
\<close>

abbreviation gk_request :: string where
  "gk_request \<equiv> connectToGK_packet DEFAULT_USERAGENT"

definition demo_connected :: "string world" where
  "demo_connected =
     (demo_login demo_env)
       \<lparr>conns := [1 \<mapsto> demo_conn\<lparr>c_attempt := 0, c_fd := Some 7, c_rx := 1\<rparr>],
        history := SysWrite 1 7 gk_request (len gk_request) # InputAdd 1 7 CondRead 1
          # history (demo_login demo_env)\<rparr>"

definition slow_connected :: "string world" where
  "slow_connected =
     (demo_login slow_env)
       \<lparr>conns := [1 \<mapsto> demo_conn\<lparr>c_attempt := 0, c_fd := Some 7, c_rx := 1, c_tx := 2,
          c_txbuf := Some gk_request\<rparr>],
        history := InputAdd 2 7 CondWrite 1 # SysWrite 1 7 gk_request (-1)
          # InputAdd 1 7 CondRead 1 # history (demo_login slow_env)\<rparr>"

lemma gk_request_not_Nil: "gk_request \<noteq> []" "0 < length gk_request"
  by (simp_all add: connectToGK_packet_def Let_def write_int_def)

lemmas connected_exec = exec conn_got_connected_def got_connected_cb_def isInvalid_def
  RediffBolConn_handler_def gotConnected_def connectToGK_def sess_write_def conn_write_def
  sys_write_def enqueue_def if_HANDLER_run set_conn_emit

lemma demo_connected_run:
  "run_callback demo_env (Connected 1 7 None) (demo_login demo_env) = Some (Ok (), demo_connected)"
  by (simp add: demo_login_state connected_exec demo_conn_def demo_session_def demo_connected_def
      demo_sel gk_request_not_Nil set_conn_def emit_def)

lemma slow_connected_run:
  "run_callback slow_env (Connected 1 7 None) (demo_login slow_env) = Some (Ok (), slow_connected)"
  by (simp add: demo_login_state connected_exec demo_conn_def demo_session_def slow_connected_def
      slow_sel gk_request_not_Nil set_conn_def emit_def)

lemma demo_reachable:
  "reachable demo_env (demo_login demo_env)" "reachable slow_env (demo_login slow_env)"
  "reachable demo_env demo_connected" "reachable slow_env slow_connected"
proof -
  show l: "reachable demo_env (demo_login demo_env)" "reachable slow_env (demo_login slow_env)"
    by (rule reachable.more [OF reachable.start step.libpurple [OF demo_login_run(1)]],
        rule reachable.more [OF reachable.start step.libpurple [OF demo_login_run(2)]])
  show "reachable demo_env demo_connected"
    by (rule reachable.more [OF l(1) step.event [OF demo_connected_run]])
  show "reachable slow_env slow_connected"
    by (rule reachable.more [OF l(2) step.event [OF slow_connected_run]])
qed

section \<open>It is closed again\<close>

definition demo_closed :: "string world" where
  "demo_closed = snd (the (run_call demo_env (Close 0) demo_connected))"

lemmas close_exec = exec rediffbol_close_def if_session_def shutdown_def destroy_session_def
  softDestroy_def isInvalid_def delete_conn_def conn_close_run setInvalid_def reg_erase_def

lemma demo_closed_run: "run_call demo_env (Close 0) demo_connected = Some (Ok (), demo_closed)"
  by (simp add: demo_closed_def demo_connected_def demo_login_state close_exec demo_conn_def
      demo_session_def closed_def)

lemma demo_closed_ids: "id_counter demo_closed = 2" "id_map demo_closed = Map.empty"
  by (simp_all add: demo_closed_def demo_connected_def demo_login_state close_exec demo_conn_def
      demo_session_def closed_def)

section \<open>Or the gatekeeper hangs up\<close>

text \<open>
  The connection is closed, one over port 80 is started and torn down with the session.
  Nothing deletes the first: it stays behind, closed.
\<close>

definition demo_ended :: "string world" where
  "demo_ended = snd (the (run_callback demo_env (Readable 1 7) demo_connected))"

lemmas eof_exec = exec conn_read_cb_def read_cb_def RediffBolConn_handler_def closeCallback_def
  startLoginOver80_def new_conn_def establish_connection_def setStateNetworkError_def
  softDestroy_def isInvalid_def setInvalid_def delete_conn_def conn_close_run reg_add_def
  reg_erase_def if_HANDLER_run assert_valid_def

lemma demo_ended_run:
  "run_callback demo_env (Readable 1 7) demo_connected = Some (Ok (), demo_ended)"
  "\<exists>c. conns demo_ended 1 = Some c \<and> invalid c"
  by (simp_all add: demo_ended_def demo_connected_def demo_login_state eof_exec demo_conn_def
      demo_session_def closed_def demo_sel HANDLER_def emit_def set_conn_def set_sess_def int_max_def)

lemma demo_ended_reachable: "reachable demo_env demo_ended"
  by (rule reachable.more [OF demo_reachable(3) step.event [OF demo_ended_run(1)]])

end
