(* ===== verification/MessageSpec.thy ===== *)
theory MessageSpec
  imports Demo Framing
begin

text \<open>
  What chat messages and requests promise: the parser of a message undoes the writer,
  it stops on messages without high bytes and need not otherwise, requests have the
  layout their lengths announce (with one exception), and a text message, a typing
  notification and a status reach the other side.
\<close>

section \<open>The body of a message\<close>

text \<open>C14.  A chat message is a sequence of text runs and smileys, and \<^verbatim>\<open>_parseChatMessage\<close> gives
  the concatenation of their markup: each run converted to UTF-8, escaped, and wrapped in
  \<^verbatim>\<open>em\<close> and \<^verbatim>\<open>b\<close> tags by its font record (and in a \<^verbatim>\<open>font\<close> tag with its face, size and
  colour, where that support is compiled in), each smiley by its code, unknown ones by nothing.
  It consumes exactly the bytes of the message.\<close>

theorem parseChatMessage_parts:
  assumes "list_all (part_ok E) ps" and "length (concat (map put_part ps)) < 2 ^ 31"
  shows "\<exists>b'. parseChatMessage E (MessageBuffer (concat (map put_part ps)))
      = Some (Ok (concat (map (render E) ps)), b') \<and> rest b' = []"
proof -
  have wf: "mb_wf (MessageBuffer (concat (map put_part ps)))" by (rule mb_wf_new [OF assms(2)])
  show ?thesis
    using chat_loop_parts [OF wf assms(1), of "[]"] rest_adv_append [OF wf, of _ "[]"]
    by (auto simp: parseChatMessage_def)
qed

definition demo_parts :: "chat_part list" where
  "demo_parts =
     [TextPart [] [CHR 0x00, CHR 0x54, CHR 0x00, CHR 0x00, CHR 0x00, CHR 0x00, CHR 0x00,
         CHR 0x4B, CHR 0x01, CHR 0x00, CHR 0x33, CHR 0x33, CHR 0x33]
        [CHR 0x00, CHR ''h'', CHR 0x00, CHR ''i''], SmileyPart 11 '':D'']"

lemma demo_parts_ok: "list_all (part_ok demo_env) demo_parts"
  by (simp add: demo_parts_def bstr_ok_def be_ok_def intToDWord_def utf8_ok_def demo_sel
      demo_iconv_def char_of_def)

lemma demo_parts_length: "length (concat (map put_part demo_parts)) < 2 ^ 31"
  by (simp add: demo_parts_def)

lemma demo_parts_render: "concat (map (render demo_env) demo_parts) = ''<em><b>hi</b></em>:D''"
  by (simp add: demo_parts_def font_markup_def style_def font_italic_def font_bold_def
      escape_html_entities_def utf8_def demo_sel demo_iconv_def c_str_def smiley_codes_def)

text \<open>The same message, shown by a plugin that was built with font support.\<close>

definition font_env :: "string env" where
  "font_env = demo_env\<lparr>tx_fonts := True\<rparr>"

lemma font_parts_ok: "list_all (part_ok font_env) demo_parts"
  using demo_parts_ok by (simp add: demo_parts_def utf8_ok_def font_env_def)

lemma hex_of_nat_digits:
  "16 \<le> n \<Longrightarrow> hex_of_nat n = hex_of_nat (n div 16) @ [hex_digit (n mod 16)]"
  "n < 16 \<Longrightarrow> hex_of_nat n = [hex_digit n]"
  by (subst hex_of_nat.simps, simp)+

lemma fmt_demo: "fmt_06x 3355443 = ''333333''"
  by (simp add: fmt_06x_def hex_of_nat_digits char_of_def bit_iff_odd)

lemma font_parts_render:
  "concat (map (render font_env) demo_parts) = ''<font face='' @ apostrophe @ apostrophe
    @ '' size='' @ apostrophe @ ''10.5'' @ apostrophe @ '' color='' @ apostrophe @ ''#333333''
    @ apostrophe @ '' ><em><b>hi</b></em></font>:D''"
proof -
  let ?d = "[CHR 0x00, CHR 0x54, CHR 0x00, CHR 0x00, CHR 0x00, CHR 0x00, CHR 0x00,
         CHR 0x4B, CHR 0x01, CHR 0x00, CHR 0x33, CHR 0x33, CHR 0x33]"
  have "getColor (FontParser [] ?d) s = Some (Ok ''#333333'', s)" for s :: unit
    by (subst getColor_run) (simp_all add: fmt_demo)
  then have color: "font_color ?d = ''#333333''"
    using getColor_reads [of ?d "[]" "()"] by simp
  have sz: "fmt_eighths 84 = ''10.5''"
    by (simp add: fmt_eighths_def dec_of_int_def char_of_def bit_iff_odd)
  show ?thesis
    by (simp add: demo_parts_def font_markup_def font_tag_def color sz style_def font_italic_def
        font_bold_def escape_html_entities_def utf8_def font_env_def demo_sel demo_iconv_def
        c_str_def smiley_codes_def)
qed

theorem parseChatMessage_parts_witness:
  "(\<exists>b'. parseChatMessage demo_env (MessageBuffer (concat (map put_part demo_parts)))
     = Some (Ok ''<em><b>hi</b></em>:D'', b') \<and> rest b' = [])
   \<and> (\<exists>b'. parseChatMessage font_env (MessageBuffer (concat (map put_part demo_parts)))
     = Some (Ok (''<font face='' @ apostrophe @ apostrophe @ '' size='' @ apostrophe @ ''10.5''
         @ apostrophe @ '' color='' @ apostrophe @ ''#333333'' @ apostrophe
         @ '' ><em><b>hi</b></em></font>:D''), b') \<and> rest b' = [])"
  using parseChatMessage_parts [OF demo_parts_ok demo_parts_length]
    parseChatMessage_parts [OF font_parts_ok demo_parts_length]
  by (simp only: demo_parts_render font_parts_render simp_thms)

text \<open>C30.  The parser's loop stops on every message in which no byte is 128 or more: no length can
  then be negative, and each turn consumes at least four bytes.\<close>

theorem parseChatMessage_terminates:
  assumes "length s < 2 ^ 31" and "list_all (\<lambda>c. (of_char c :: int) < 128) s"
  shows "\<exists>r b'. parseChatMessage E (MessageBuffer s) = Some (r, b')"
proof -
  have "low (length s) (MessageBuffer s)" using assms by (simp add: low_def mb_wf_new)
  from chat_loop_terminates [OF this] show ?thesis by (simp add: parseChatMessage_def) fastforce
qed

theorem parseChatMessage_terminates_witness:
  "\<exists>r b'. parseChatMessage demo_env (MessageBuffer ''garbage'') = Some (r, b')"
  by (rule parseChatMessage_terminates) simp_all

text \<open>C31.  Without that condition it need not stop: a smiley whose name has length \<open>-12\<close> sends
  the position back to where the smiley began, so one message of twelve bytes keeps the
  client busy for ever, whatever was received before it.\<close>

theorem parseChatMessage_hangs:
  "parseChatMessage E (MessageBuffer
     [CHR 0x00, CHR 0x00, CHR 0x00, CHR 0x01,
      CHR 0x00, CHR 0x00, CHR 0x00, CHR 0x00,
      CHR 0x00, CHR 0x00, CHR 0x00, CHR 0xF4]) = None"
  unfolding parseChatMessage_def by (fold hang_message_def) (rule chat_loop_hangs)

text \<open>The attributes read out of a 13-byte font record: the size is byte 1, bold is byte 7
  being 75, italic is bit 0 of byte 8, and the colour is the red, green and blue of bytes
  10 to 12 in hexadecimal, when none of them is 128 or more.\<close>

theorem font_record:
  assumes "length d = 13"
    and "(of_char (d ! 10) :: int) < 128" "(of_char (d ! 11) :: int) < 128"
      "(of_char (d ! 12) :: int) < 128"
  shows "getSize (FontParser f d) s = Some (Ok (of_char (d ! 1)), s)
    \<and> isBold (FontParser f d) s = Some (Ok ((of_char (d ! 7) :: int) = 75), s)
    \<and> isItalic (FontParser f d) s = Some (Ok (odd (of_char (d ! 8) :: int)), s)
    \<and> getColor (FontParser f d) s = Some (Ok (CHR ''#'' # fmt_06x
        (2 ^ 16 * of_char (d ! 10) + 2 ^ 8 * of_char (d ! 11) + of_char (d ! 12))), s)"
  using assms getSize_run [of d f s] isBold_run [of d f s] isItalic_run [of d f s]
    getColor_run [of d f s]
  by (simp add: font_bold_def font_italic_def)

definition demo_font :: string where
  "demo_font =
     [CHR 0x00, CHR 0x0A, CHR 0x00, CHR 0x00, CHR 0x00, CHR 0x00, CHR 0x00,
      CHR 0x4B, CHR 0x01, CHR 0x00, CHR 0x33, CHR 0x33, CHR 0x33]"

theorem font_record_witness:
  "getSize (FontParser [] demo_font) () = Some (Ok 10, ())
   \<and> isBold (FontParser [] demo_font) () = Some (Ok True, ())
   \<and> getColor (FontParser [] demo_font) () = Some (Ok ''#333333'', ())"
  using font_record [of demo_font "[]" "()"]
  by (simp add: demo_font_def fmt_demo)

section \<open>The layout of requests\<close>


text \<open>C40.  The exception: \<^verbatim>\<open>sendAcceptAddRequest\<close> counts two bytes for the two words it ends with,
  so a reader that trusts the frame's length is left with six bytes of it in front of the
  next frame.\<close>

theorem sendAcceptAddRequest_short:
  "len (sendAcceptAddRequest_packet localid reqId sfrom grp) =
     4 + (53 + len localid + len reqId + len grp + len sfrom) + 6
   \<and> take 4 (sendAcceptAddRequest_packet localid reqId sfrom grp) = intToDWord (53 + len localid + len reqId + len grp + len sfrom)"
  by (simp add: sendAcceptAddRequest_packet_def CSRequestHeader_def CSCmdAcceptAdd2_def Let_def
      algebra_simps)

section \<open>What arrives at the other side\<close>

text \<open>C13.  A text message that one client sends is what another shows: the frame
  \<^verbatim>\<open>sendMessage\<close> writes, parsed by \<^verbatim>\<open>parseCSResponse\<close> on a live session, delivers exactly one
  message, from the sender, whose text is the sent one converted to UTF-8 and escaped.  The
  UTF-16 text must be shorter than 64 kB, and its length and the font name's must have no
  byte of 128 or more.\<close>

theorem sendMessage_received:
  fixes w :: "'b world"
  assumes s: "sessions w p = Some s" "\<not> invalid s"
    and font: "length font < 65536" "bstr_ok font" "utf8_ok E font"
    and msg: "length msg < 65536" "bstr_ok msg" "utf8_ok E msg"
    and len: "length (sendMessage_packet sender to font msg) < 2 ^ 31"
  shows "with_local (MessageBuffer (drop 4 (sendMessage_packet sender to font msg)))
      (parseCSResponse E p) w
    = Some (Ok (), emit (GotIm (s_account s) (c_str sender)
        (c_str (font_markup E font sent_font_info (escape_html_entities E (utf8 E msg)))) (ev_time E (history w))) w)"
proof -
  let ?m = "\<lparr>im_header = CSPeerRequestHeader, im_from = sender, im_to = to,
      im_parts = [TextPart font sent_font_info msg]\<rparr>"
  have wire: "sendMessage_packet sender to font msg = im_wire ?m"
    using sendMessage_layout [of sender to font msg] sendMessage_body [OF font(1) msg(1)]
    by (simp add: im_wire_def im_body_def CSCmdTextMessage_def)
  have "\<not> font_bold sent_font_info" "\<not> font_italic sent_font_info"
    by (simp_all add: font_bold_def font_italic_def sent_font_info_def fontBytes_def
        char_of_def bit_iff_odd)
  then have r: "concat (map (render E) (im_parts ?m))
      = font_markup E font sent_font_info (escape_html_entities E (utf8 E msg))"
    by (simp add: style_def)
  have "length (im_wire ?m) < 2 ^ 31" using len by (simp only: wire)
  then show ?thesis
    using parseCSResponse_TextMessage [OF s, of E ?m] font(2,3) msg(2,3) r
    by (simp add: wire got_im_def)
qed

text \<open>A typing notification that one client sends makes the other report that its sender is
  typing, for sixty seconds.\<close>

theorem typing_received:
  fixes w :: "'b world"
  assumes s: "sessions w p = Some s" "\<not> invalid s"
    and len: "length (sendTypingNotification_packet me to) < 2 ^ 31"
  shows "with_local (MessageBuffer (drop 4 (sendTypingNotification_packet me to)))
      (parseCSResponse E p) w
    = Some (Ok (), emit (GotTyping (s_account s) (c_str me) 60) w)"
proof -
  let ?body = "put_string me @ put_string to"
  let ?frame = "intToDWord 3 @ put_string CSPeerRequestHeader @ put_string ''TypingNotify''
      @ put_string ?body"
  have d: "drop 4 (sendTypingNotification_packet me to) = ?frame"
    unfolding sendTypingNotification_layout
    by (simp add: command_def CSCmdTypingNotify_def) (simp add: put_string_def)
  have "eats ?frame w (parseCSResponse E p) () [] (emit (GotTyping (s_account s) (c_str me) 60) w)"
    by (rule eats_type3 [OF s], unfold parse_type3_def) (rule eats_rules s(1) | simp)+
  then show ?thesis
    unfolding d by (rule eats_packet) (use len d in \<open>metis length_drop less_imp_diff_less\<close>)
qed

text \<open>The session of the concrete environment receives both.\<close>

lemma demo_live:
  "sessions demo_connected 0 = Some demo_session" "\<not> invalid demo_session"
  "s_account demo_session = 0" "ev_time demo_env tr = 1234"
  by (simp_all add: demo_connected_def demo_login_state demo_session_def demo_sel)

theorem sendMessage_received_witness:
  "with_local (MessageBuffer (drop 4 (sendMessage_packet ''ann'' ''me'' []
       [CHR 0x00, CHR ''h'', CHR 0x00, CHR ''i'']))) (parseCSResponse demo_env 0) demo_connected
   = Some (Ok (), emit (GotIm 0 ''ann'' ''hi'' 1234) demo_connected)"
  by (subst sendMessage_received [OF demo_live(1,2)])
    (simp_all add: bstr_ok_def be_ok_def intToDWord_def utf8_ok_def demo_sel demo_iconv_def
      font_markup_def sendMessage_packet_def Let_def fontBytes_def command_names demo_live utf8_def
      escape_html_entities_def c_str_def char_of_def)

theorem typing_received_witness:
  "with_local (MessageBuffer (drop 4 (sendTypingNotification_packet ''ann'' ''me'')))
     (parseCSResponse demo_env 0) demo_connected
   = Some (Ok (), emit (GotTyping 0 ''ann'' 60) demo_connected)"
  by (subst typing_received [OF demo_live(1,2)])
    (simp_all add: sendTypingNotification_packet_def command_names demo_live c_str_def)

section \<open>Status and names\<close>

text \<open>Setting a status in libpurple sends the protocol's number for it: 1 for available and
  mobile, 2 for away, 3 for unavailable, 4 for invisible, with the user's message or, when
  there is none, the name of the status.  Any other status sends nothing.\<close>

theorem set_status_sends:
  assumes "proto_data w acct = Some p" and "sessions w p = Some s" and "\<not> invalid s"
  shows "rediffbol_set_status E acct st msg w = (case st of
      StatusAvailable \<Rightarrow> sess_write E p (setStatus_packet 1 (if SAFE msg = [] then ''Online'' else SAFE msg)) w
    | StatusMobile \<Rightarrow> sess_write E p (setStatus_packet 1 (if SAFE msg = [] then ''Online'' else SAFE msg)) w
    | StatusAway \<Rightarrow> sess_write E p (setStatus_packet 2 (if SAFE msg = [] then ''Away'' else SAFE msg)) w
    | StatusUnavailable \<Rightarrow> sess_write E p (setStatus_packet 3 (if SAFE msg = [] then ''Busy'' else SAFE msg)) w
    | StatusInvisible \<Rightarrow> sess_write E p (setStatus_packet 4 (if SAFE msg = [] then ''Invisible'' else SAFE msg)) w
    | _ \<Rightarrow> Some (Ok (), w))"
proof -
  have code: "status_code ''Online'' = Some 1" "status_code ''Away'' = Some 2"
    "status_code ''Busy'' = Some 3" "status_code ''Invisible'' = Some 4"
    by (simp_all add: status_code_def c_tolower_def Let_def char_of_def bit_iff_odd)
  show ?thesis
    using assms code
    by (cases st) (simp_all add: rediffbol_set_status_def if_session_def setStatus_def
        bindM_run thenM_run getM_run assert_valid_run ret_run Let_def)
qed

theorem set_status_sends_witness:
  "rediffbol_set_status demo_env 0 StatusAway None demo_connected
    = sess_write demo_env 0 (setStatus_packet 2 ''Away'') demo_connected"
  using set_status_sends [of demo_connected 0 0 demo_session demo_env StatusAway None] demo_live
  by (simp add: demo_connected_def demo_login_state SAFE_def)

text \<open>\<^verbatim>\<open>rediffbol_normalize\<close> gives one name to all spellings of an address: the result has a
  domain, normalising it again changes nothing, and an address that has one is kept.\<close>

theorem normalize_idempotent:
  assumes "CHR 0x00 \<notin> set name"
  shows "CHR ''@'' \<in> set (rediffbol_normalize (Some name))
    \<and> rediffbol_normalize (Some (rediffbol_normalize (Some name))) = rediffbol_normalize (Some name)
    \<and> (CHR ''@'' \<in> set name \<longrightarrow> rediffbol_normalize (Some name) = name)"
  using assms by (auto simp: rediffbol_normalize_def SAFE_def fixEmail_def c_str_id)

theorem normalize_idempotent_witness:
  "rediffbol_normalize (Some (rediffbol_normalize (Some ''ann''))) = ''ann@rediffmail.com''"
  using normalize_idempotent [of "''ann''"]
  by (simp add: rediffbol_normalize_def SAFE_def fixEmail_def c_str_def)

end
