(* ===== verification/Progress.thy ===== *)
theory Progress
  imports Lifecycle
begin

text \<open>
  What cannot go wrong in a sound state: sending on an open connection, the write
  callback, and any callback for an object that is gone.
\<close>

section \<open>Inputs and their owners\<close>

lemma live_conn_owner:
  assumes "sound E w" and "conns w a = Some c" and "\<not> invalid c"
  obtains p s where "id_map w (c_handler_id c) = Some p" and "sessions w p = Some s"
    and "\<not> invalid s" and "s_connection s = Some a" and "obj_id s = c_handler_id c"
proof -
  have o: "owned w" using assms(1) by (simp add: own_def)
  obtain p s where s: "sessions w p = Some s" "\<not> invalid s" "s_connection s = Some a"
    "obj_id s = c_handler_id c"
    by (rule owned_conn [OF o assms(2,3)])
  then show ?thesis using that owned_session(1) [OF o s(1)] by simp
qed

lemma watched_input:
  assumes w: "sound E w" and h: "watches (history w) h = Some (fd, d, i)"
  obtains a c where "id_map w i = Some a" and "conns w a = Some c" and "\<not> invalid c"
    and "holds_input d h c" and "obj_id c = i"
proof -
  have inv: "net_inv w" using w by simp
  obtain a c where c: "conns w a = Some c" "obj_id c = i" "holds_input d h c"
    by (rule net_inv_watch [OF inv h])
  have "h \<noteq> 0" using inv h unfolding net_inv_def inv_on_def by blast
  moreover have "conn_ok c" by (rule net_inv_conn(3) [OF inv c(1)])
  ultimately have "\<not> invalid c" using c(3) by (cases d) (auto simp: conn_ok_def)
  then show ?thesis using that c net_inv_conn(1) [OF inv c(1)] by simp
qed

section \<open>Writing always returns\<close>

lemma readError_returns:
  assumes "sound E w" and "sessions w p = Some s" and "\<not> invalid s"
  shows "\<exists>w'. readError E p a w = Some (Ok (), w')"
proof -
  have o: "owned w" using assms(1) by (simp add: own_def)
  obtain w1 where d: "softDestroy E p w = Some (Ok (), w1)"
    using softDestroy_returns [OF o conjunct2 [OF assms(1)] assms(2)] by blast
  obtain s1 where "sessions w1 p = Some s1"
    using softDestroy_OkD(2) [OF conjunct1 [OF assms(1)] d] by auto
  then show ?thesis
    using assms(2,3) d by (simp add: readError_def setStateNetworkError_def exec)
qed

lemma close_readError_returns:
  assumes w: "sound E w" and c: "conns w a = Some c" "\<not> invalid c"
  shows "\<exists>w'. thenM (conn_close E a) (if_HANDLER a (\<lambda>p. readError E p a)) w = Some (Ok (), w')"
proof -
  obtain fd where fd: "c_fd c = Some fd" using w c(1) by (auto simp: opened_def)
  let ?t = "w\<lparr>conns := (conns w)(a \<mapsto> closed E c fd (history w)),
      history := closing_history E c fd (history w)\<rparr>"
  have close: "conn_close E a w = Some (Ok (), ?t)" by (rule conn_close_run [OF c(1) fd])
  have t: "sound E ?t"
    using good_close [OF conjunct1 [OF w] close] validD_Ok [OF opened_conn_close _ close] w by simp
  obtain p s where p: "id_map w (c_handler_id c) = Some p" "sessions w p = Some s" "\<not> invalid s"
    by (rule live_conn_owner [OF w c])
  have "if_HANDLER a (\<lambda>p. readError E p a) ?t = readError E p a ?t"
    using p(1) by (simp add: if_HANDLER_run closed_def)
  then show ?thesis
    using readError_returns [OF t, of p s a] p close by (simp add: thenM_run)
qed

lemma sound_emit: "sound E w \<Longrightarrow> plain e \<Longrightarrow> sound E (emit e w)"
  using good_emit by auto

lemma plain_SysWrite [simp]: "plain (SysWrite i fd d r)"
  by (simp add: plain_def)

lemma plain_SysRead [simp]: "plain (SysRead i fd)"
  by (simp add: plain_def)

lemma conn_write_returns:
  assumes w: "sound E w" and c: "conns w a = Some c" "\<not> invalid c"
  shows "\<exists>w'. conn_write E (readError E) a d w = Some (Ok (), w')"
proof -
  obtain fd where fd: "c_fd c = Some fd" using w c(1) by (auto simp: opened_def)
  have "c_txbuf c \<noteq> None"
    using net_inv_conn(3) [of w a c] w c by (auto simp: conn_ok_def)
  then obtain q where q: "c_txbuf c = Some q" by blast
  have enq: "\<exists>w'. enqueue E a x t = Some (Ok (), w')" if "conns t a = Some c" for x t
    using that q fd by (simp add: enqueue_def exec)
  let ?r = "ne_write E (history w) fd d"
  let ?w = "emit (SysWrite (obj_id c) fd d (fst ?r)) w"
  have bad: "\<exists>w'. thenM (conn_close E a) (if_HANDLER a (\<lambda>p. readError E p a)) ?w = Some (Ok (), w')"
    by (rule close_readError_returns [OF sound_emit [OF w], of _ a c]) (simp_all add: c)
  show ?thesis
    using c fd enq bad
    by (auto simp: conn_write_def get_conn_run bindM_run isInvalid_def sys_write_def fd_of_run
        ask_run thenM_run out_run ret_run Let_def whenM_run)
qed

lemma sess_write_returns:
  assumes w: "sound E w" and s: "sessions w p = Some s" "s_connection s = Some a"
  shows "\<exists>w'. sess_write E p d w = Some (Ok (), w') \<and> sound E w'"
proof -
  have o: "owned w" using w by (simp add: own_def)
  obtain c where c: "conns w a = Some c" using owned_connected(2) [OF o s] by blast
  have "\<exists>w'. conn_write E (readError E) a d w = Some (Ok (), w')"
  proof (cases "invalid c")
    case True
    then show ?thesis using c by (simp add: conn_write_def exec isInvalid_def)
  next
    case False
    show ?thesis by (rule conn_write_returns [OF w c False])
  qed
  then obtain w' where w': "sess_write E p d w = Some (Ok (), w')"
    using s by (auto simp: sess_write_def exec)
  then show ?thesis using validD_Ok [OF both.I_sess_write w] by blast
qed

lemma write_cb_returns:
  assumes w: "sound E w" and c: "conns w a = Some c" "\<not> invalid c"
  shows "\<exists>w'. write_cb E (readError E) a w = Some (Ok (), w')"
proof -
  obtain fd where fd: "c_fd c = Some fd" using w c(1) by (auto simp: opened_def)
  have "c_txbuf c \<noteq> None"
    using net_inv_conn(3) [of w a c] w c by (auto simp: conn_ok_def)
  then obtain q where q: "c_txbuf c = Some q" by blast
  let ?d = "cb_out E q (cb_max_read E q)"
  let ?w = "emit (SysWrite (obj_id c) fd ?d (fst (ne_write E (history w) fd ?d))) w"
  have bad: "\<exists>w'. thenM (conn_close E a) (if_HANDLER a (\<lambda>p. readError E p a)) ?w = Some (Ok (), w')"
    by (rule close_readError_returns [OF sound_emit [OF w], of _ a c]) (simp_all add: c)
  show ?thesis
    using c fd q bad
    by (auto simp: write_cb_def get_conn_run bindM_run sys_write_def fd_of_run
        ask_run thenM_run out_run ret_run upd_conn_run)
qed

section \<open>Numbers of objects that are gone\<close>

definition spent :: "int \<Rightarrow> 'b world \<Rightarrow> bool" where
  "spent i w \<longleftrightarrow> i < id_counter w \<and> id_map w i = None"

lemma spent_simps [simp]:
  "spent i (emit e w) = spent i w" "spent i (set_conn a c w) = spent i w"
  "spent i (set_sess p x w) = spent i w" "spent i (set_proto acct y w) = spent i w"
  "spent i (w\<lparr>next_addr := n\<rparr>) = spent i w"
  by (simp_all add: spent_def)

text \<open>This is the table's own contract: a spent handle stays spent.\<close>

lemma spent_table: "spent i w \<longleftrightarrow> reg.spent w i"
  by (simp add: spent_def reg.spent_def reg_issued_def)

lemma spent_add: "spent i w \<Longrightarrow> spent i (reg_add p w)"
  unfolding spent_table using reg.spent_apply [of w i "Add p"] by (simp add: reg.apply_op_def)

lemma spent_erase: "spent i w \<Longrightarrow> spent i (reg_erase j w)"
  unfolding spent_table using reg.spent_apply [of w i "Delete j"] by (simp add: reg.apply_op_def)

lemma spent_prim [pres_intro]:
  "pres (spent i) (out e)" "pres (spent i) (upd_sess p g)" "pres (spent i) (upd_conn a f)"
  "pres (spent i) (RObject p)" "pres (spent i) (destroy_RObject j)"
  "pres (spent i) (modM (set_conn a x))" "pres (spent i) (modM (set_sess p y))"
  "pres (spent i) (modM (set_proto acct z))" "pres (spent i) (modM (\<lambda>w. w\<lparr>next_addr := n\<rparr>))"
  by (auto simp: valid_def exec spent_add spent_erase split: option.splits if_splits)

lemma spent_conn [pres_intro]:
  "pres (spent i) (conn_close E a)" "pres (spent i) (delete_conn E k)"
  "pres (spent i) (new_conn E j pm)" "pres (spent i) (establish_connection E getProxyAccount a ip port)"
  "(\<And>p. pres (spent i) (m p)) \<Longrightarrow> pres (spent i) (if_HANDLER a m)"
  unfolding conn_close_def close_attempt_def close_fd_def close_tx_def close_rx_def
    delete_conn_def new_conn_def establish_connection_def if_HANDLER_def HANDLER_def
  by (intro pres_intro)+

lemma spent_error [pres_intro]:
  "pres (spent i) (softDestroy E p)" "pres (spent i) (setStateNetworkError E p r m)"
  "pres (spent i) (readError E p a)" "pres (spent i) (connectionError E p e a)"
  unfolding softDestroy_def setStateNetworkError_def readError_def connectionError_def
  by (intro pres_intro)+

lemma spent_write [pres_intro]:
  "pres (spent i) (conn_write E (readError E) a d)" "pres (spent i) (write_cb E (readError E) a)"
  "pres (spent i) (sess_write E p d)"
  unfolding conn_write_def write_cb_def sess_write_def sys_write_def enqueue_def
  by (intro pres_intro)+

lemma spent_login [pres_intro]:
  "pres (spent i) (startLogin E p)" "pres (spent i) (startLoginOver80 E p)"
  "pres (spent i) (switch_server E p ip port)" "pres (spent i) (closeCallback E p a)"
  "pres (spent i) (new_session acct)" "pres (spent i) (destroy_session E p)"
  unfolding startLogin_def startLoginOver80_def switch_server_def closeCallback_def
    new_session_def destroy_session_def
  by (intro pres_intro)+

interpretation gone: edit_invariant E "spent i" for E :: "'b env" and i
  by (unfold_locales; (simp; fail | intro pres_intro))

lemma spent_run_call [pres_intro]: "pres (spent i) (run_call E c)"
  by (rule gone.keeps_run_call; unfold rediffbol_login_def rediffbol_close_def shutdown_def;
      intro pres_intro; simp)

lemma spent_run_callback [pres_intro]: "pres (spent i) (run_callback E cb)"
proof (cases cb)
  case (Connected j fd err)
  show ?thesis
    unfolding Connected run_callback.simps conn_got_connected_def got_connected_cb_def
      RediffBolConn_handler_def handler.simps
    by (intro pres_intro)
next
  case (Readable j fd)
  show ?thesis
    unfolding Readable run_callback.simps conn_read_cb_def read_cb_def
      RediffBolConn_handler_def handler.simps
    by (intro pres_intro)
next
  case (Writable j)
  show ?thesis unfolding Writable run_callback.simps conn_write_cb_def by (intro pres_intro)
qed (simp_all add: gone.keeps_send gone.keeps_avatar pres_thenM pres_ret)

lemma spent_step: "step E w w' \<Longrightarrow> spent i w \<Longrightarrow> spent i w'"
  by (rule step_inv [OF spent_run_call spent_run_callback])

lemma spent_steps: "(step E)\<^sup>*\<^sup>* w w' \<Longrightarrow> spent i w \<Longrightarrow> spent i w'"
  by (induction rule: rtranclp_induct) (blast intro: spent_step)+

text \<open>A callback for such a number does nothing.\<close>

lemma spent_callback:
  assumes "spent i w"
  shows "run_callback E (Connected i fd err) w = Some (Ok (), w)"
    and "run_callback E (Readable i fd) w = Some (Ok (), w)"
    and "run_callback E (Writable i) w = Some (Ok (), w)"
    and "keep_alive_timer E i w = Some (Ok False, w)"
    and "run_callback E (AvatarFetched i name d) w = Some (Ok (), w)"
  using assms
  by (simp_all add: spent_def exec conn_got_connected_def conn_read_cb_def conn_write_cb_def
      keep_alive_timer_def load_avatar_callback_def)

end
