(* ===== verification/Listing.thy ===== *)
theory Listing
  imports Lifecycle
begin

text \<open>
  The pointer \<^verbatim>\<open>roomlist\<close> is assigned in one place, after it has been read; so in every
  reachable state it still is what the constructor left, an uninitialised member.
\<close>

definition unlisted :: "'b world \<Rightarrow> bool" where
  "unlisted w \<longleftrightarrow> (\<forall>p s. sessions w p = Some s \<longrightarrow> s_roomlist s = RoomlistUnset)"

lemma unlisted_simps [simp]:
  "unlisted (emit e w) = unlisted w" "unlisted (set_conn a c w) = unlisted w"
  "unlisted (set_proto acct y w) = unlisted w" "unlisted (reg_erase i w) = unlisted w"
  "unlisted (reg_add p w) = unlisted w" "unlisted (w\<lparr>next_addr := n\<rparr>) = unlisted w"
  by (simp_all add: unlisted_def)

section \<open>Calls that keep it\<close>

lemma unlisted_prim [pres_intro]:
  "pres unlisted (out e)" "pres unlisted (upd_conn a f)" "pres unlisted (RObject p)"
  "pres unlisted (destroy_RObject i)" "pres unlisted (modM (set_sess p None))"
  "pres unlisted (modM (set_proto acct z))" "pres unlisted (modM (\<lambda>w. w\<lparr>next_addr := n\<rparr>))"
  "pres unlisted (modM (set_conn a x))"
  by (auto simp: valid_def exec unlisted_def split: option.splits if_splits)

lemma unlisted_upd_sess [pres_intro]:
  "(\<And>s. s_roomlist (g s) = s_roomlist s) \<Longrightarrow> pres unlisted (upd_sess p g)"
  by (auto simp: valid_def exec unlisted_def split: option.splits)

lemma unlisted_conn [pres_intro]:
  "pres unlisted (conn_close E a)" "pres unlisted (delete_conn E k)"
  "pres unlisted (new_conn E j pm)" "pres unlisted (establish_connection E getProxyAccount a ip port)"
  "(\<And>p. pres unlisted (m p)) \<Longrightarrow> pres unlisted (if_HANDLER a m)"
  unfolding conn_close_def close_attempt_def close_fd_def close_tx_def close_rx_def
    delete_conn_def new_conn_def establish_connection_def if_HANDLER_def HANDLER_def
  by (intro pres_intro)+

lemma unlisted_error [pres_intro]:
  "pres unlisted (softDestroy E p)" "pres unlisted (setStateNetworkError E p r m)"
  "pres unlisted (readError E p a)" "pres unlisted (connectionError E p e a)"
  unfolding softDestroy_def setStateNetworkError_def readError_def connectionError_def
  by (intro pres_intro; simp add: setInvalid_def)+

lemma unlisted_write [pres_intro]:
  "pres unlisted (conn_write E (readError E) a d)" "pres unlisted (write_cb E (readError E) a)"
  "pres unlisted (sess_write E p d)"
  unfolding conn_write_def write_cb_def sess_write_def sys_write_def enqueue_def
  by (intro pres_intro)+

lemma unlisted_new_session [pres_intro]: "pres unlisted (new_session acct)"
proof (rule valid_quiet [OF quiet_new_session])
  fix w p w' assume "unlisted w" and "new_session acct w = Some (Ok p, w')"
  then show "unlisted w'" by (auto simp: new_session_def exec unlisted_def split: if_splits)
qed

lemma unlisted_login [pres_intro]:
  "pres unlisted (startLogin E p)" "pres unlisted (startLoginOver80 E p)"
  "pres unlisted (switch_server E p ip port)" "pres unlisted (closeCallback E p a)"
  "pres unlisted (destroy_session E p)"
  unfolding startLogin_def startLoginOver80_def switch_server_def closeCallback_def
    destroy_session_def
  by (intro pres_intro; simp)+

section \<open>The call that would set it\<close>

lemma rooms_undefined:
  assumes "unlisted w" and "sessions w p = Some s" and "sess_write E p sendGetChatRoomsRequest_packet w = Some (Ok (), w')"
    and "sessions w' p = Some s'"
  shows "sendGetChatRoomsRequest E p w = Some (Throw (Undef Uninitialised), w')"
proof -
  have "unlisted w'" using validD_Ok [OF unlisted_write(3) assms(1,3)] .
  then have "s_roomlist s' = RoomlistUnset" using assms(4) by (simp add: unlisted_def)
  then show ?thesis
    using assms(3,4) by (simp add: sendGetChatRoomsRequest_def thenM_run bindM_run get_sess_run raise_run)
qed

lemma unlisted_rooms: "pres unlisted (sendGetChatRoomsRequest E p)"
  unfolding sendGetChatRoomsRequest_def
proof (rule valid_thenM [OF unlisted_write(3)], rule valid_bindM)
  show "valid unlisted (get_sess p) (\<lambda>s w. unlisted w \<and> s_roomlist s = RoomlistUnset) unlisted"
    by (auto simp: valid_def exec unlisted_def split: option.splits)
qed (rule valid_conj, simp add: valid_def exec)

interpretation listing: world_invariant E unlisted for E :: "'b env"
  by (unfold_locales; (rule unlisted_rooms | simp; fail | intro pres_intro; simp))

section \<open>Every step keeps it\<close>

lemma unlisted_callbacks [pres_intro]:
  "pres unlisted (conn_got_connected E (RediffBolConn_handler E) i fd err)"
  "pres unlisted (conn_read_cb E (RediffBolConn_handler E) i fd)"
  "pres unlisted (conn_write_cb E (readError E) i)"
  unfolding conn_got_connected_def got_connected_cb_def conn_read_cb_def read_cb_def
    conn_write_cb_def RediffBolConn_handler_def handler.simps
  by (intro pres_intro listing.keeps_send listing.keeps_readCallback; simp)+

lemma unlisted_run_call: "pres unlisted (run_call E c)"
  by (rule listing.keeps_run_call; unfold rediffbol_login_def rediffbol_close_def shutdown_def;
      intro pres_intro; simp)

lemma unlisted_run_callback: "pres unlisted (run_callback E cb)"
  by (cases cb) (simp_all add: unlisted_callbacks listing.keeps_send listing.keeps_avatar
    pres_thenM pres_ret)

lemma reachable_unlisted: "reachable E w \<Longrightarrow> unlisted w"
  by (rule reachable_inv [OF _ unlisted_run_call unlisted_run_callback])
    (simp add: unlisted_def start_world_def)

end
