(* ===== verification/Outcomes.thy ===== *)
theory Outcomes
  imports Progress ConnStream Framing Listing
begin

text \<open>
  How calls end: a failed session stays closed, the end of the stream ends the
  session, the first request for chat rooms reads a pointer nobody set, a refusal of
  the HTTP gatekeeper is followed by a use of the freed connection, and the read
  callback lets no overflow through.
\<close>

section \<open>A closed connection stays closed\<close>

lemma is_closed_emit [simp]: "is_closed a (emit e w) = is_closed a w"
  by (simp add: is_closed_def)

lemma is_closed_set_sess [simp]: "is_closed a (set_sess p x w) = is_closed a w"
  by (simp add: is_closed_def)

lemma is_closed_prim [pres_intro]:
  "pres (is_closed a) (out e)" "pres (is_closed a) (upd_sess p g)"
  by (auto simp: valid_def exec split: option.splits)

lemma is_closed_conn_close [pres_intro]: "pres (is_closed a) (conn_close E b)"
  by (rule valid_quiet [OF quiet_conn_close], erule conn_close_OkD)
    (auto simp: is_closed_def closed_def)

lemma is_closed_delete_conn [pres_intro]: "pres (is_closed a) (delete_conn E k)"
proof (cases k)
  case None
  then show ?thesis by (simp add: delete_conn_def pres_ret)
next
  case (Some b)
  show ?thesis
    unfolding Some
    by (rule valid_quiet [OF quiet_delete_conn], erule delete_conn_OkD) (auto simp: is_closed_def)
qed

lemma leaves_closed_readError: "leaves_closed (readError E)"
proof -
  have "pres (is_closed a) (readError E p a)" for a p
    unfolding readError_def setStateNetworkError_def softDestroy_def by (intro pres_intro)
  then show ?thesis unfolding leaves_closed_def by (blast dest: validD_Ok)
qed

section \<open>A session ends\<close>

lemma setStateNetworkError_ends:
  assumes w: "sound E w" and s: "sessions w p = Some s" "\<not> invalid s"
  obtains w' s' tr where "setStateNetworkError E p r m w = Some (Ok (), w')" and "sound E w'"
    and "sessions w' p = Some s'" and "invalid s'" and "s_connection s' = None"
    and "history w' = ConnectionError (s_account s) r (c_str (m @ [CHR 0x0A])) # tr"
    and "\<And>a. s_connection s = Some a \<Longrightarrow> conns w' a = None"
proof -
  have o: "owned w" using w by (simp add: own_def)
  obtain w1 where d: "softDestroy E p w = Some (Ok (), w1)"
    using softDestroy_returns [OF o conjunct2 [OF w] s(1)] by blast
  obtain s1 where s1: "sessions w1 p = Some s1" "sess_shape s1 = (True, obj_id s, s_account s, None)"
    using softDestroy_OkD(2) [OF conjunct1 [OF w] d] s(1) by auto
  let ?w' = "emit (ConnectionError (s_account s) r (c_str (m @ [CHR 0x0A]))) w1"
  have run: "setStateNetworkError E p r m w = Some (Ok (), ?w')"
    using s s1 d by (simp add: setStateNetworkError_def exec sess_shape_def)
  show ?thesis
  proof (rule that [OF run, of s1 "history w1"])
    show "sound E ?w'" using validD_Ok [OF both.I_setStateNetworkError w run] .
    show "history ?w' = ConnectionError (s_account s) r (c_str (m @ [CHR 0x0A])) # history w1"
      by (simp add: emit_def)
  qed (use s1 softDestroy_deletes [OF o d s(1)] in \<open>simp_all add: sess_shape_def\<close>)
qed

text \<open>The end of the stream, in the two cases of \<^verbatim>\<open>closeCallback\<close>.\<close>

lemma closeCallback_ends:
  assumes "good E w" and "can_login p w" and run: "closeCallback E p a w = Some (Ok u, w')"
  shows "\<exists>s. sessions w' p = Some s \<and> invalid s \<and> s_connection s = None"
proof -
  obtain c where c: "conns w a = Some c"
    using run by (auto simp: closeCallback_def exec split: option.splits)
  have "thenM (whenM (c_parse_mode c = 1) (startLoginOver80 E p)) (
     thenM (assert_valid p)
     (setStateNetworkError E p NetworkError ''The server has closed the connection'')) w = Some (Ok u, w')"
    using run c by (simp add: closeCallback_def bindM_run get_conn_run)
  then obtain t x where t: "whenM (c_parse_mode c = 1) (startLoginOver80 E p) w = Some (Ok x, t)"
    and rest: "thenM (assert_valid p)
      (setStateNetworkError E p NetworkError ''The server has closed the connection'') t = Some (Ok u, w')"
    by (rule thenM_OkE)
  have "valid (\<lambda>w. good E w \<and> can_login p w) (whenM (c_parse_mode c = 1) (startLoginOver80 E p))
      (\<lambda>_. good E) (good E)"
    by (intro valid_whenM valid_startLoginOver80) simp
  then have "good E t" using assms(1,2) t by (blast dest: validD_Ok)
  moreover have "setStateNetworkError E p NetworkError ''The server has closed the connection'' t
      = Some (Ok u, w')"
    using rest by (auto simp: thenM_run assert_valid_run split: option.splits if_splits)
  ultimately show ?thesis using setStateNetworkError_OkD(2) by blast
qed

lemma closed_sessions:
  assumes "conn_close E a w = Some (Ok u, t)" and "sessions w p = Some s"
  shows "sessions t p = Some s"
  using assms by (auto elim: conn_close_OkD)

section \<open>Reading callbacks\<close>

lemma received_sound:
  assumes "sound E w"
  shows "sound E (received a fd d w)"
proof (cases "conns w a")
  case (Some c)
  have "sound E (emit (SysRead (obj_id c) fd) w)" by (rule sound_emit [OF assms]) simp
  then have "sound E (set_conn a (Some (c\<lparr>c_awaiting := push_str d (c_awaiting c)\<rparr>))
      (emit (SysRead (obj_id c) fd) w))"
    by (rule both.I_awaiting) (simp add: Some)
  then show ?thesis by (simp add: received_def Some)
qed (use assms in \<open>simp add: received_def\<close>)

text \<open>What a read callback does when the stream has ended.\<close>

lemma eof_run:
  assumes c: "id_map w i = Some a" "conns w a = Some c" "\<not> invalid c" "c_handler_id c = h"
    and fd: "0 \<le> fd" "ne_input_error E (history w) fd = 0"
    and eof: "ne_read E (history w) fd = ReadData []"
    and p: "id_map w h = Some p"
    and close: "conn_close E a (emit (SysRead (obj_id c) fd) w) = Some (Ok (), t)"
  shows "run_callback E (Readable i fd) w = closeCallback E p a t"
proof -
  obtain c' where "conns t a = Some c'" "c_handler_id c' = h" "id_map t = id_map w"
    using close c by (auto simp: closed_def elim!: conn_close_OkD)
  then have "if_HANDLER a (\<lambda>p. closeCallback E p a) t = closeCallback E p a t"
    using p by (simp add: if_HANDLER_run)
  then show ?thesis
    using c fd eof close
    by (simp add: conn_read_cb_def read_cb_def RediffBolConn_handler_def bindM_run thenM_run
        getObjectById_run ask_run get_conn_run out_run isInvalid_def)
qed

lemma quiet_on_awaiting [quiet_intro]: "quiet m \<Longrightarrow> quiet (on_awaiting a m)"
  by (auto simp: quiet_def on_awaiting_def exec split: option.splits prod.splits)

lemma readCallback_no_Overflow: "readCallback E p a w \<noteq> Some (Throw Overflow, w')"
proof -
  have "quiet (bindM (on_awaiting a getLength) (\<lambda>_. on_awaiting a mb_reset))" for a
    by (intro quiet_intro; simp add: getLength_def mb_reset_def; intro quiet_intro)
  then show ?thesis
    by (auto simp: readCallback_def catch_Overflow_run quiet_def split: option.splits if_splits)
qed

section \<open>The list of chat rooms\<close>

definition present :: "nat \<Rightarrow> 'b world \<Rightarrow> bool" where
  "present p w \<longleftrightarrow> sessions w p \<noteq> None"

lemma present_prim [pres_intro]:
  "pres (present p) (out e)" "pres (present p) (upd_conn a f)"
  "pres (present p) (destroy_RObject j)" "pres (present p) (modM (set_conn a x))"
  "pres (present p) (upd_sess q g)"
  by (auto simp: valid_def exec present_def split: option.splits)

lemma present_write: "pres (present p) (sess_write E q d)"
  unfolding sess_write_def conn_write_def sys_write_def enqueue_def readError_def
    setStateNetworkError_def softDestroy_def delete_conn_def conn_close_def close_attempt_def
    close_fd_def close_tx_def close_rx_def if_HANDLER_def HANDLER_def
  by (intro pres_intro)

section \<open>The gatekeeper over HTTP\<close>

lemma http_refused:
  assumes w: "sound E w" and s: "sessions w p = Some s" "s_connection s = Some a"
    and c: "conns w a = Some c" "c_parse_mode c = 2"
    and bad: "take (length goodreply) (getRawBuffer (c_awaiting c)) \<noteq> goodreply"
  shows "\<exists>w'. readCallback E p a w = Some (Throw (Undef UseAfterFree), w')"
proof -
  have o: "owned w" using w by (simp add: own_def)
  have v: "\<not> invalid s" by (rule owned_connected(1) [OF o s])
  let ?w = "set_conn a (Some (c\<lparr>c_awaiting := MessageBuffer []\<rparr>)) w"
  have w1: "sound E ?w" by (rule both.I_awaiting [OF w c(1)])
  have s1: "sessions ?w p = Some s" using s(1) by simp
  obtain w' s' tr where r: "setStateNetworkError E p NetworkError
      (''Problem with Gatekeeper HTTP'' @ [CHR 0x0A]) ?w = Some (Ok (), w')"
    and gone: "\<And>a. s_connection s = Some a \<Longrightarrow> conns w' a = None"
    by (rule setStateNetworkError_ends [OF w1 s1 v]) blast
  have "http_reply E p a w = Some (Throw (Undef UseAfterFree), w')"
    using c bad r gone [OF s(2)]
    by (simp add: http_reply_def bindM_run thenM_run get_conn_run upd_conn_run Let_def)
  then show ?thesis
    using s c by (simp add: readCallback_def catch_Overflow_run bindM_run thenM_run whenM_run
        get_sess_run get_conn_run ensure_run)
qed

section \<open>Login\<close>

definition first_session :: "nat \<Rightarrow> int \<Rightarrow> nat \<Rightarrow> sess" where
  "first_session acct i a =
     \<lparr>invalid = False, obj_id = i, s_account = acct, s_connection = Some a,
      s_userAgent = DEFAULT_USERAGENT, s_keep_alive_counter = 0, s_keep_alive_timer = 0,
      s_connection_state = 0, s_nickname = Map.empty, s_status_text = Map.empty,
      s_groups = {}, s_session = [], s_visibleIP = [], s_server_userId = [],
      s_server_displayname = [], s_server_nickname = [], s_roomlist = RoomlistUnset\<rparr>"

definition logged_in :: "'b env \<Rightarrow> nat \<Rightarrow> int \<Rightarrow> 'b world \<Rightarrow> 'b world" where
  "logged_in E acct k w = w\<lparr>
    id_counter := id_counter w + 2, next_addr := next_addr w + 2,
    id_map := (id_map w)(id_counter w \<mapsto> next_addr w, id_counter w + 1 \<mapsto> Suc (next_addr w)),
    conns := (conns w)(Suc (next_addr w) \<mapsto> (fresh_conn E (id_counter w + 1) (id_counter w) 1)
      \<lparr>c_fd := Some (-1), c_attempt := k\<rparr>),
    history := ProxyConnect acct GATEKEEPER 1863 k (id_counter w + 1)
      # UpdateProgress acct ''Connecting'' 0 2 # history w,
    sessions := (sessions w)(next_addr w \<mapsto>
      first_session acct (id_counter w) (Suc (next_addr w))),
    proto_data := (proto_data w)(acct \<mapsto> next_addr w)\<rparr>"

lemma rediffbol_login_run:
  assumes i: "id_counter w + 1 < int_max" and k: "k \<noteq> 0"
    and conn: "ne_proxy_connect E (UpdateProgress acct ''Connecting'' 0 2 # history w) = k"
  shows "rediffbol_login E acct w = Some (Ok (), logged_in E acct k w)"
proof -
  have host: "c_str GATEKEEPER = GATEKEEPER" by (simp add: c_str_def GATEKEEPER_def)
  have "id_counter w < int_max" using i by simp
  then show ?thesis
    using i k conn
    by (cases w) (simp add: rediffbol_login_def new_session_def startLogin_def new_conn_def
        establish_connection_def exec host reg_add_def emit_def set_conn_def set_sess_def
        set_proto_def first_session_def fresh_conn_def logged_in_def)
qed

end
