(* ===== verification/Gatekeeper.thy ===== *)
theory Gatekeeper
  imports Outcomes
begin

text \<open>
  The gatekeeper's answer: lists of capabilities, one of which names the chat servers.
  The session picks a server, begins to connect to it, and gives up the connection to
  the gatekeeper.
\<close>

section \<open>The packet\<close>

record gk_answer =
  gk_type :: int
  gk_subtype :: int
  gk_size :: int
  gk_caps :: "(string \<times> string) list list"

definition put_cap :: "string \<times> string \<Rightarrow> string" where
  "put_cap kv = put_string (fst kv) @ put_string (snd kv)"

definition gk_frame :: "gk_answer \<Rightarrow> string" where
  "gk_frame g = intToDWord (gk_type g) @ intToDWord (gk_subtype g) @ intToDWord (gk_size g)
     @ put_items (put_items put_cap) (gk_caps g)"

definition gk_ok :: "gk_answer \<Rightarrow> bool" where
  "gk_ok g \<longleftrightarrow> cint (gk_type g) \<and> cint (gk_subtype g) \<and> cint (gk_size g)"

text \<open>The directory entries of all lists, one after the other.\<close>

definition gk_directory :: "gk_answer \<Rightarrow> string" where
  "gk_directory g = concat (map snd (filter (\<lambda>kv. fst kv = CAP_DIR) (concat (gk_caps g))))"

definition add_cap :: "string \<times> string \<Rightarrow> (string \<rightharpoonup> string) \<Rightarrow> (string \<rightharpoonup> string)" where
  "add_cap kv cap = cap(fst kv \<mapsto> map_index cap (fst kv) @ snd kv)"

lemma directory_caps:
  "map_index (fold (fold add_cap) kvss cap) k
     = map_index cap k @ concat (map snd (filter (\<lambda>kv. fst kv = k) (concat kvss)))"
proof (induction kvss arbitrary: cap)
  case (Cons kvs kvss)
  have "map_index (fold add_cap kvs cap) k
      = map_index cap k @ concat (map snd (filter (\<lambda>kv. fst kv = k) kvs))"
    by (induction kvs arbitrary: cap) (auto simp: add_cap_def map_index_def)
  then show ?case by (simp add: Cons)
qed simp

lemma eats_capability: "eats (put_cap kv @ r) w (read_capability cap) (add_cap kv cap) r w"
  unfolding read_capability_def add_cap_def put_cap_def append_assoc by (rule eats_rules)+

lemma put_cap_not_Nil [simp]: "put_cap kv \<noteq> []"
  by (simp add: put_cap_def)

lemma eats_capabilities:
  "eats (put_items put_cap kvs @ r) w
     (bindM (onL readInt32) (\<lambda>n. forM n read_capability cap)) (fold add_cap kvs cap) r w"
  by (rule eats_bindM, rule eats_count, simp, rule eats_forM_read, rule eats_capability)

section \<open>The choice of a server\<close>

lemma server_split:
  fixes host port :: string
  defines "ip \<equiv> host @ CHR '':'' # port"
  assumes "CHR '':'' \<notin> set host" and "length host < 2 ^ 31" and "length port < 2 ^ 31"
  shows "substr ip (to_size (str_find (CHR '':'') ip + 1)) (2 ^ 64 - 1) = Some port"
    and "take (nat (to_size (str_find (CHR '':'') ip))) ip = host"
proof -
  have "takeWhile (\<lambda>x. x \<noteq> CHR '':'') ip = host"
    using assms(2) unfolding ip_def by (subst takeWhile_append2) auto
  then have f: "str_find (CHR '':'') ip = len host" by (simp add: str_find_def ip_def)
  have "to_size (len host + 1) = len host + 1" "to_size (len host) = len host"
    using assms(3) by (simp_all add: to_size_nonneg)
  then show "substr ip (to_size (str_find (CHR '':'') ip + 1)) (2 ^ 64 - 1) = Some port"
    and "take (nat (to_size (str_find (CHR '':'') ip))) ip = host"
    unfolding f using assms(4) by (simp_all add: substr_def nat_add_distrib ip_def)
qed

lemma eats_parseGkResponse:
  assumes g: "gk_ok g" and srv: "servers = chat_servers (gk_directory g)" "servers \<noteq> []"
    and pick: "servers ! nat (to_size (ev_rand E (history w)) mod int (length servers))
      = host @ CHR '':'' # digits"
    and host: "CHR '':'' \<notin> set host" "length host < 2 ^ 31" "length digits < 2 ^ 31"
    and port: "atoi digits = Some port"
    and switch: "switch_server E p host port w = Some (Ok (), w')"
  shows "eats (gk_frame g) w (parseGkResponse E p) () [] w'"
proof -
  have caps: "eats (put_items (put_items put_cap) (gk_caps g) @ r) w (onL readInt32) (int (length (gk_caps g)))
      (concat (map (put_items put_cap) (gk_caps g)) @ r) w" for r and w :: "'a world"
    by (rule eats_count) simp
  have lists: "eats (concat (map (put_items put_cap) (gk_caps g)) @ []) w (forM (int (length (gk_caps g)))
      (\<lambda>cap. bindM (onL readInt32) (\<lambda>n. forM n read_capability cap)) Map.empty)
      (fold (fold add_cap) (gk_caps g) Map.empty) [] w"
    by (rule eats_forM_read) (rule eats_capabilities)
  have dir: "map_index (fold (fold add_cap) (gk_caps g) Map.empty) CAP_DIR = gk_directory g"
    using directory_caps [of "gk_caps g" Map.empty CAP_DIR]
    by (simp add: gk_directory_def map_index_def [of Map.empty])
  have run: "yields w (switch_server E p host port) () w'" using switch by (simp add: yields_def)
  have "eats (intToDWord (gk_type g) @ (intToDWord (gk_subtype g) @ (intToDWord (gk_size g)
      @ (put_items (put_items put_cap) (gk_caps g) @ [])))) w (parseGkResponse E p) () [] w'"
    unfolding parseGkResponse_def
    by (rule eats_bindM, rule eats_int(3), use g in \<open>simp add: gk_ok_def\<close>)+
      (rule eats_bindM, rule caps, rule eats_bindM, rule lists,
       unfold dir Let_def srv(1) [symmetric], rule eats_thenM, rule eats_ensure, rule srv(2),
       rule eats_bindM, rule eats_onR, rule yields_basic,
       unfold pick server_split [OF host], simp add: port, rule eats_onR, rule run)
  then show ?thesis by (simp add: gk_frame_def)
qed

section \<open>The switch\<close>

text \<open>The connection to the chat server, being attempted as \<open>k\<close>.\<close>

definition attempted :: "'b env \<Rightarrow> int \<Rightarrow> int \<Rightarrow> int \<Rightarrow> 'b conn" where
  "attempted E j i k = (fresh_conn E j i 0)\<lparr>c_fd := Some (-1), c_attempt := k\<rparr>"

definition switched :: "'b env \<Rightarrow> nat \<Rightarrow> sess \<Rightarrow> nat \<Rightarrow> int \<Rightarrow> int \<Rightarrow> event list \<Rightarrow> 'b world \<Rightarrow> 'b world" where
  "switched E p s a i k tr w = w\<lparr>
    id_counter := id_counter w + 1, next_addr := Suc (next_addr w),
    id_map := (id_map w)(id_counter w \<mapsto> next_addr w, i := None),
    conns := (conns w)(next_addr w \<mapsto> attempted E (id_counter w) (obj_id s) k, a := None),
    history := tr,
    sessions := (sessions w)(p \<mapsto> s\<lparr>s_connection := Some (next_addr w)\<rparr>)\<rparr>"

text \<open>Events among which nothing is written or read.\<close>

fun is_read :: "int \<Rightarrow> event \<Rightarrow> bool" where
  "is_read i (SysRead j fd) = (j = i)"
| "is_read i _ = False"

definition quiet :: "event list \<Rightarrow> bool" where
  "quiet u \<longleftrightarrow> (\<forall>tr j. sent (u @ tr) j = sent tr j) \<and> (\<forall>j. \<not> list_ex (is_read j) u)"

lemma quiet_append: "quiet u \<Longrightarrow> quiet v \<Longrightarrow> quiet (u @ v)"
  by (simp add: quiet_def)

lemma closing_history_quiet:
  obtains u where "closing_history E c fd tr = u @ tr" and "quiet u"
proof
  show "closing_history E c fd tr = ((if c_rx c \<noteq> 0 then [InputRemove (c_rx c)] else []) @
     (if c_tx c \<noteq> 0 then [InputRemove (c_tx c)] else []) @
     (if shuts_fd E c fd tr then [SysClose (obj_id c) fd] else []) @
     (if c_attempt c \<noteq> 0 then [ProxyCancel (c_attempt c)] else [])) @ tr"
    by (simp add: closing_history_def)
qed (simp add: quiet_def)

lemma delete_conn_run:
  assumes c: "conns w a = Some c" "c_fd c = Some fd"
  shows "delete_conn E (Some a) w = Some (Ok (), w\<lparr>conns := (conns w)(a := None),
    id_map := (id_map w)(obj_id c := None), history := closing_history E c fd (history w)\<rparr>)"
  using conn_close_run [OF c, of E]
  by (cases w) (simp add: delete_conn_def exec closed_def reg_erase_def set_conn_def)

lemma switch_server_run:
  assumes w: "sound E w" and s: "sessions w p = Some s" "s_connection s = Some a"
    and c: "conns w a = Some c" and i: "id_counter w < int_max"
    and k: "ne_proxy_connect E (history w) = k" "k \<noteq> 0"
  shows "\<exists>u. switch_server E p ip port w = Some (Ok (), switched E p s a (obj_id c) k
      (u @ ProxyConnect (s_account s) (c_str ip) port k (id_counter w) # history w) w) \<and> quiet u"
proof -
  have inv: "net_inv w" and o: "owned w" using w by (simp_all add: own_def)
  have a: "next_addr w \<noteq> a" using net_inv_conn(2) [OF inv c] by simp
  have j: "obj_id c \<noteq> id_counter w" using net_inv_conn(5) [OF inv c] by simp
  have h: "id_map w (obj_id s) = Some p" by (rule owned_session(1) [OF o s(1)])
  have "id_map w (id_counter w) = None"
    using inv unfolding net_inv_def inv_on_def by (metis less_irrefl not_None_eq)
  then have hj: "obj_id s \<noteq> id_counter w" using h by auto
  obtain fd where fd: "c_fd c = Some fd" using w c by (auto simp: opened_def)
  let ?e = "ProxyConnect (s_account s) (c_str ip) port k (id_counter w)"
  let ?n = "next_addr w"
  let ?w1 = "w\<lparr>id_counter := id_counter w + 1, next_addr := Suc ?n,
    id_map := (id_map w)(id_counter w \<mapsto> ?n),
    conns := (conns w)(?n \<mapsto> fresh_conn E (id_counter w) (obj_id s) 0)\<rparr>"
  let ?w2 = "?w1\<lparr>conns := (conns w)(?n \<mapsto> attempted E (id_counter w) (obj_id s) k),
    history := ?e # history w\<rparr>"
  have new: "new_conn E (obj_id s) 0 w = Some (Ok ?n, ?w1)"
    using i by (cases w) (simp add: new_conn_def exec fresh_conn_def set_conn_def reg_add_def)
  have est: "establish_connection E getProxyAccount ?n ip port ?w1 = Some (Ok True, ?w2)"
    using h hj s k by (cases w) (simp add: establish_connection_def exec fresh_conn_def attempted_def
        getProxyAccount_def set_conn_def emit_def)
  define w2 where "w2 = ?w2"
  have c2: "conns w2 a = Some c" using a c by (simp add: w2_def)
  define c3 where "c3 = closed E c fd (history w2)"
  define fd3 where "fd3 = (if shuts_fd E c fd (history w2) then 0 else fd)"
  define w3 where "w3 = w2\<lparr>conns := (conns w2)(a \<mapsto> c3), history := closing_history E c fd (history w2)\<rparr>"
  have close: "conn_close E a w2 = Some (Ok (), w3)"
    unfolding w3_def c3_def by (rule conn_close_run [OF c2 fd])
  have c3: "conns w3 a = Some c3" "c_fd c3 = Some fd3"
    by (simp_all add: w3_def c3_def fd3_def closed_def)
  define tr where "tr = closing_history E c3 fd3 (history w3)"
  define w4 where "w4 = w3\<lparr>conns := (conns w3)(a := None), id_map := (id_map w3)(obj_id c3 := None),
    history := tr\<rparr>"
  have del: "delete_conn E (Some a) w3 = Some (Ok (), w4)"
    unfolding w4_def tr_def by (rule delete_conn_run [OF c3])
  have st: "sessions w2 p = Some s" "sessions w3 p = Some s" "sessions w4 p = Some s"
    using s by (simp_all add: w2_def w3_def w4_def)
  obtain u2 where u2: "history w3 = u2 @ history w2" "quiet u2"
    by (rule closing_history_quiet [of E c fd "history w2"]) (simp add: w3_def)
  obtain u3 where u3: "tr = u3 @ history w3" "quiet u3"
    unfolding tr_def by (rule closing_history_quiet)
  have "history w2 = ?e # history w" by (simp add: w2_def)
  then have "tr = (u3 @ u2) @ ?e # history w" "quiet (u3 @ u2)"
    using u2 u3 by (simp_all add: quiet_append)
  moreover have "switch_server E p ip port w
      = Some (Ok (), set_sess p (Some (s\<lparr>s_connection := Some ?n\<rparr>)) w4)"
    using s st new est [folded w2_def] close del
    by (simp add: switch_server_def bindM_run thenM_run get_sess_run ret_run the_connection_run
        upd_sess_run)
  moreover have "set_sess p (Some (s\<lparr>s_connection := Some ?n\<rparr>)) w4 = switched E p s a (obj_id c) k tr w"
    using a by (simp add: w4_def w3_def w2_def switched_def set_sess_def c3_def closed_def)
  ultimately show ?thesis by (intro exI [of _ "u3 @ u2"]) simp
qed

section \<open>The read callback\<close>

lemma loop_turn_gk:
  assumes s: "sessions w p = Some s" "s_connection s = Some a"
    and c: "conns w a = Some c" "c_parse_mode c \<noteq> 0"
    and b: "at (c_awaiting c) (put_string frame @ r)"
  shows "loop_turn E p a w = thenM (with_local (MessageBuffer frame) (parseGkResponse E p)) (ret False)
    (set_conn a (Some (c\<lparr>c_awaiting := MessageBuffer r\<rparr>)) w)"
  using s c loop_turn_dispatch [OF s c(1) b]
  by (simp add: dispatch_def bindM_run the_connection_run get_sess_run get_conn_run set_conn_def)

lemma readCallback_gk:
  assumes w: "sound E w" and s: "sessions w p = Some s" "s_connection s = Some a"
    and c: "conns w a = Some c" "c_parse_mode c = 1"
    and b: "c_awaiting c = MessageBuffer (put_string (gk_frame g) @ t)"
      "length (put_string (gk_frame g) @ t) < 2 ^ 31"
    and g: "gk_ok g" "servers = chat_servers (gk_directory g)" "servers \<noteq> []"
    and pick: "servers ! nat (to_size (ev_rand E (history w)) mod int (length servers))
      = host @ CHR '':'' # digits"
    and host: "CHR '':'' \<notin> set host" "length host < 2 ^ 31" "length digits < 2 ^ 31"
    and port: "atoi digits = Some port"
    and i: "id_counter w < int_max" and k: "ne_proxy_connect E (history w) = k" "k \<noteq> 0"
  shows "\<exists>u. readCallback E p a w = Some (Ok (), switched E p s a (obj_id c) k
      (u @ ProxyConnect (s_account s) (c_str host) port k (id_counter w) # history w) w) \<and> quiet u"
proof -
  let ?c = "c\<lparr>c_awaiting := MessageBuffer t\<rparr>"
  let ?w = "set_conn a (Some ?c) w"
  have at: "at (c_awaiting c) (put_string (gk_frame g) @ t)"
    unfolding b(1) by (rule at_new [OF b(2)])
  have w': "sound E ?w" by (rule both.I_awaiting [OF w c(1)])
  have w1: "sessions ?w p = Some s" "conns ?w a = Some ?c" "id_counter ?w < int_max"
    "ne_proxy_connect E (history ?w) = k" using s i k by simp_all
  obtain u where u: "switch_server E p host port ?w = Some (Ok (), switched E p s a (obj_id ?c) k
      (u @ ProxyConnect (s_account s) (c_str host) port k (id_counter ?w) # history ?w) ?w)" "quiet u"
    using switch_server_run [OF w' w1(1) s(2) w1(2,3,4) k(2), of host port] by blast
  define tr where "tr = u @ ProxyConnect (s_account s) (c_str host) port k (id_counter w) # history w"
  have same: "switched E p s a (obj_id ?c) k (u @ ProxyConnect (s_account s) (c_str host) port k (id_counter ?w)
      # history ?w) ?w = switched E p s a (obj_id c) k tr w"
    by (cases w) (simp add: tr_def switched_def set_conn_def fun_eq_iff)
  have pick': "servers ! nat (to_size (ev_rand E (history ?w)) mod int (length servers))
      = host @ CHR '':'' # digits" using pick by simp
  have "length (gk_frame g) < 2 ^ 31" using b(2) by simp
  then have "with_local (MessageBuffer (gk_frame g)) (parseGkResponse E p) ?w
      = Some (Ok (), switched E p s a (obj_id c) k tr w)"
    using eats_packet [OF eats_parseGkResponse [OF g pick' host port u(1)]] same by simp
  then have "loop_turn E p a w = Some (Ok False, switched E p s a (obj_id c) k tr w)"
    using loop_turn_gk [OF s c(1) _ at] c(2) by (simp add: thenM_run ret_run)
  then have "readCallback E p a w = Some (Ok (), switched E p s a (obj_id c) k tr w)"
    using s c by (simp add: readCallback_def catch_Overflow_run bindM_run thenM_run whenM_run
        get_sess_run get_conn_run ensure_run read_loop_stop)
  then show ?thesis using u(2) unfolding tr_def by blast
qed

text \<open>From the event loop.\<close>

lemma gatekeeper_callback:
  assumes w: "sound E w" and c: "id_map w i = Some a" "conns w a = Some c" "\<not> invalid c"
      "c_parse_mode c = 1" "c_awaiting c = MessageBuffer pre"
    and p: "id_map w (c_handler_id c) = Some p"
    and s: "sessions w p = Some s" "s_connection s = Some a"
    and fd: "0 \<le> fd" "ne_input_error E (history w) fd = 0"
    and data: "ne_read E (history w) fd = ReadData d" "d \<noteq> []" "pre @ d = put_string (gk_frame g) @ t"
      "length (put_string (gk_frame g) @ t) < 2 ^ 31"
    and g: "gk_ok g" "servers = chat_servers (gk_directory g)" "servers \<noteq> []"
    and pick: "servers ! nat (to_size (ev_rand E (SysRead (obj_id c) fd # history w))
      mod int (length servers)) = host @ CHR '':'' # digits"
    and host: "CHR '':'' \<notin> set host" "length host < 2 ^ 31" "length digits < 2 ^ 31"
    and port: "atoi digits = Some port"
    and i: "id_counter w < int_max"
    and k: "ne_proxy_connect E (SysRead (obj_id c) fd # history w) = k" "k \<noteq> 0"
  shows "\<exists>u. run_callback E (Readable i fd) w = Some (Ok (), switched E p s a (obj_id c) k
      (u @ ProxyConnect (s_account s) (c_str host) port k (id_counter w) # SysRead (obj_id c) fd # history w) w)
    \<and> quiet u"
proof -
  let ?b = "put_string (gk_frame g) @ t"
  let ?w = "received a fd d w"
  let ?c = "c\<lparr>c_awaiting := MessageBuffer ?b\<rparr>"
  have c': "conns ?w a = Some ?c" using c data(3) by simp
  have h: "history ?w = SysRead (obj_id c) fd # history w" using c by simp
  have w': "sessions ?w p = Some s" "c_parse_mode ?c = 1" "c_awaiting ?c = MessageBuffer ?b"
    "id_counter ?w < int_max" using s c i by simp_all
  obtain u where "readCallback E p a ?w = Some (Ok (), switched E p s a (obj_id ?c) k
      (u @ ProxyConnect (s_account s) (c_str host) port k (id_counter ?w) # history ?w) ?w)" "quiet u"
    using readCallback_gk [OF received_sound [OF w] w'(1) s(2) c' w'(2,3) data(4) g
      pick [folded h] host port w'(4) k(1) [folded h] k(2)] by blast
  moreover have "switched E p s a (obj_id c) k tr ?w = switched E p s a (obj_id c) k tr w" for tr
    by (cases w) (simp add: switched_def received_def set_conn_def emit_def fun_eq_iff split: option.split)
  ultimately show ?thesis unfolding read_data_run [OF c(1-3) p fd data(1,2)] by (auto simp: h)
qed

end
