(* ===== verification/DemoChat.thy ===== *)
theory DemoChat
  imports Demo Gatekeeper
begin

text \<open>
  The demo world goes on: the gatekeeper names a chat server, the client connects to
  it, and the server sends some bytes.  Reachable states for the properties of chat
  connections.
\<close>

definition demo_answer :: gk_answer where
  "demo_answer = \<lparr>gk_type = 1, gk_subtype = 0, gk_size = 0, gk_caps = [[(CAP_DIR, ''cs:5555'')]]\<rparr>"

text \<open>The gatekeeper answers until a connection to another port is attempted.\<close>

fun to_server :: "event \<Rightarrow> bool" where
  "to_server (ProxyConnect acct host port k i) = (port \<noteq> 1863)"
| "to_server _ = False"

text \<open>The network refuses some packets.\<close>

definition picky_env :: "(string \<Rightarrow> bool) \<Rightarrow> string \<Rightarrow> string env" where
  "picky_env refuse d = demo_env\<lparr>ne_read := (\<lambda>tr fd.
     ReadData (if list_ex to_server tr then d else put_string (gk_frame demo_answer))),
     ne_write := (\<lambda>tr fd x. (if refuse x then 0 else int (length x), False))\<rparr>"

abbreviation peer_env :: "string \<Rightarrow> string env" where
  "peer_env \<equiv> picky_env (\<lambda>x. False)"

text \<open>The two packets of the login are not among them.\<close>

definition lets_in :: "(string \<Rightarrow> bool) \<Rightarrow> bool" where
  "lets_in refuse \<longleftrightarrow> \<not> refuse gk_request \<and> \<not> refuse (connectToCS_packet (fixEmail ''me'') ''pw'')"

lemma lets_in_all [simp]: "lets_in (\<lambda>x. False)"
  by (simp add: lets_in_def)

lemma peer_sel:
  "ne_proxy_connect (picky_env refuse d) = (\<lambda>tr. 1)" "ne_input_add (picky_env refuse d) = (\<lambda>tr. top_handle tr + 1)"
  "ne_input_error (picky_env refuse d) = (\<lambda>tr fd. 0)"
  "ne_write (picky_env refuse d) = (\<lambda>tr fd x. (if refuse x then 0 else int (length x), False))"
  "cb_new (picky_env refuse d) = []" "ev_rand (picky_env refuse d) = (\<lambda>tr. 0)"
  "ev_find_buddy (picky_env refuse d) = (\<lambda>tr acct b. False)"
  "ev_username (picky_env refuse d) = (\<lambda>acct. Some ''me'')" "ev_password (picky_env refuse d) = (\<lambda>acct. Some ''pw'')"
  "tx_iconv (picky_env refuse d) = demo_iconv"
  by (simp_all add: picky_env_def demo_sel)

lemma peer_fresh: "fresh_handles (picky_env refuse d)"
  using demo_fresh(1) by (simp add: fresh_handles_def picky_env_def)

lemma peer_login: "run_call (picky_env refuse d) (Login 0) start_world = Some (Ok (), demo_login demo_env)"
  by (simp add: demo_login_state demo_exec peer_sel fun_upd_twist demo_session_def demo_conn_def
      c_str_def GATEKEEPER_def)

lemma peer_connected:
  "lets_in refuse \<Longrightarrow> run_callback (picky_env refuse d) (Connected 1 7 None) (demo_login demo_env) = Some (Ok (), demo_connected)"
  by (simp add: demo_login_state connected_exec demo_conn_def demo_session_def demo_connected_def
      peer_sel gk_request_not_Nil set_conn_def emit_def lets_in_def)

lemma peer_reachable: "lets_in refuse \<Longrightarrow> reachable (picky_env refuse d) demo_connected"
  by (rule reachable.more [OF reachable.more [OF reachable.start step.libpurple [OF peer_login]]
        step.event [OF peer_connected]])

section \<open>The gatekeeper's answer\<close>

lemma demo_servers: "chat_servers (gk_directory demo_answer) = [''cs:5555'']"
  by (simp add: gk_directory_def demo_answer_def) (simp add: chat_servers_def words.simps is_space_def)

lemma demo_port: "atoi ''5555'' = Some 5555"
  by code_simp

abbreviation gk_conn :: "string conn" where
  "gk_conn \<equiv> demo_conn\<lparr>c_attempt := 0, c_fd := Some 7, c_rx := 1\<rparr>"

lemma demo_connected_state:
  "id_map demo_connected = [0 \<mapsto> 0, 1 \<mapsto> 1]" "conns demo_connected = [1 \<mapsto> gk_conn]"
  "sessions demo_connected = [0 \<mapsto> demo_session]" "proto_data demo_connected = [0 \<mapsto> 0]"
  "id_counter demo_connected = 2" "next_addr demo_connected = 2"
  "history demo_connected = [SysWrite 1 7 gk_request (len gk_request), InputAdd 1 7 CondRead 1,
     ProxyConnect 0 GATEKEEPER 1863 1 1, UpdateProgress 0 ''Connecting'' 0 2]"
  by (simp_all add: demo_connected_def demo_login_state)

lemma demo_gk_reply:
  "ne_read (picky_env refuse d) (history demo_connected) fd = ReadData (put_string (gk_frame demo_answer))"
  "length (put_string (gk_frame demo_answer)) < 2 ^ 31" "gk_ok demo_answer"
  by (simp_all add: picky_env_def demo_connected_state gk_frame_def demo_answer_def put_items_def
      put_cap_def CAP_DIR_def gk_ok_def cint_def)

definition switched_in :: "(string \<Rightarrow> bool) \<Rightarrow> string \<Rightarrow> string world" where
  "switched_in refuse d = snd (the (run_callback (picky_env refuse d) (Readable 1 7) demo_connected))"

lemma demo_switched_run:
  assumes "lets_in refuse"
  shows "\<exists>tr. run_callback (picky_env refuse d) (Readable 1 7) demo_connected
      = Some (Ok (), switched (picky_env refuse d) 0 demo_session 1 1 1 tr demo_connected)
    \<and> ProxyConnect 0 ''cs'' 5555 1 2 \<in> set tr"
proof -
  have "\<exists>u. run_callback (picky_env refuse d) (Readable 1 7) demo_connected
      = Some (Ok (), switched (picky_env refuse d) 0 demo_session 1 (obj_id gk_conn) 1
        (u @ ProxyConnect (s_account demo_session) (c_str ''cs'') 5555 1 (id_counter demo_connected)
          # SysRead (obj_id gk_conn) 7 # history demo_connected) demo_connected) \<and> quiet u"
  proof (rule gatekeeper_callback [where servers = "[''cs:5555'']" and digits = "''5555''"
        and g = demo_answer and t = "[]" and c = gk_conn and pre = "[]"
        and d = "put_string (gk_frame demo_answer)"])
    show "sound (picky_env refuse d) demo_connected" by (rule reachable_sound [OF peer_reachable [OF assms] peer_fresh])
    show "atoi ''5555'' = Some 5555" by (rule demo_port)
    show "[''cs:5555''] = chat_servers (gk_directory demo_answer)" by (simp add: demo_servers)
    show "gk_ok demo_answer" by (rule demo_gk_reply(3))
    show "length (put_string (gk_frame demo_answer) @ []) < 2 ^ 31" using demo_gk_reply(2) by simp
    show "ne_read (picky_env refuse d) (history demo_connected) 7 = ReadData (put_string (gk_frame demo_answer))"
      by (rule demo_gk_reply(1))
  qed (simp_all add: demo_connected_state demo_conn_def demo_session_def peer_sel int_max_def)
  then obtain u where "run_callback (picky_env refuse d) (Readable 1 7) demo_connected
      = Some (Ok (), switched (picky_env refuse d) 0 demo_session 1 1 1
        (u @ ProxyConnect 0 ''cs'' 5555 1 2 # SysRead 1 7 # history demo_connected) demo_connected)"
    by (auto simp: demo_conn_def demo_session_def demo_connected_state(5) c_str_def)
  then show ?thesis by - (rule exI, rule conjI, assumption, simp)
qed

abbreviation chat_session :: sess where
  "chat_session \<equiv> demo_session\<lparr>s_connection := Some 2\<rparr>"

lemma switched_state:
  assumes "lets_in refuse"
  shows "run_callback (picky_env refuse d) (Readable 1 7) demo_connected = Some (Ok (), switched_in refuse d)"
  "id_map (switched_in refuse d) = [0 \<mapsto> 0, 2 \<mapsto> 2]"
  "conns (switched_in refuse d) = [2 \<mapsto> attempted (picky_env refuse d) 2 0 1]"
  "sessions (switched_in refuse d) = [0 \<mapsto> chat_session]"
  "ProxyConnect 0 ''cs'' 5555 1 2 \<in> set (history (switched_in refuse d))"
  "proto_data (switched_in refuse d) 0 = Some 0"
  using demo_switched_run [OF assms, of d]
  by (auto simp: switched_in_def switched_def demo_connected_state demo_session_def fun_eq_iff)

section \<open>Connected to the chat server\<close>

definition chatting_in :: "(string \<Rightarrow> bool) \<Rightarrow> string \<Rightarrow> string world" where
  "chatting_in refuse d = snd (the (run_callback (picky_env refuse d) (Connected 2 8 None) (switched_in refuse d)))"

lemma cs_packet_not_Nil: "connectToCS_packet name pass \<noteq> []"
  by (simp add: connectToCS_packet_def Let_def write_int_def)

abbreviation demo_chatting :: "string \<Rightarrow> string world" where
  "demo_chatting \<equiv> chatting_in (\<lambda>x. False)"

lemma chatting_state:
  assumes "lets_in refuse"
  shows "run_callback (picky_env refuse d) (Connected 2 8 None) (switched_in refuse d) = Some (Ok (), chatting_in refuse d)"
  "id_map (chatting_in refuse d) = [0 \<mapsto> 0, 2 \<mapsto> 2]"
  "\<exists>c. conns (chatting_in refuse d) 2 = Some c \<and> \<not> invalid c \<and> c_parse_mode c = 0
     \<and> c_awaiting c = MessageBuffer [] \<and> c_handler_id c = 0 \<and> obj_id c = 2
     \<and> c_tx c = 0 \<and> c_fd c = Some 8"
  "sessions (chatting_in refuse d) = [0 \<mapsto> chat_session]"
  "list_ex to_server (history (chatting_in refuse d))"
  "proto_data (chatting_in refuse d) 0 = Some 0"
  using assms switched_state [OF assms, of d]
  by (simp_all add: chatting_in_def connected_exec connectToCS_def string_of_ptr_def peer_sel
      attempted_def fresh_conn_def demo_session_def cs_packet_not_Nil set_conn_def emit_def list_ex_iff lets_in_def)
    force+

lemma chatting_reachable:
  assumes "lets_in refuse"
  shows "reachable (picky_env refuse d) (chatting_in refuse d)"
  by (rule reachable.more [OF reachable.more [OF peer_reachable [OF assms]
        step.event [OF switched_state(1) [OF assms]]] step.event [OF chatting_state(1) [OF assms]]])

lemma chatting_read:
  "lets_in refuse \<Longrightarrow> ne_read (picky_env refuse d) (history (chatting_in refuse d)) fd = ReadData d"
  using chatting_state(5) by (simp add: picky_env_def)

lemmas demo_chatting_state = chatting_state [OF lets_in_all]
lemmas demo_chatting_reachable = chatting_reachable [OF lets_in_all]
lemmas demo_chatting_read = chatting_read [OF lets_in_all]

end
