(* ===== verification/Events.thy ===== *)
theory Events
  imports Outcomes
begin

text \<open>
  Packets of the chat server that change more than the display: the notice that the
  account has logged in elsewhere, and a buddy's change of status.
\<close>

section \<open>A packet, and the beginning of another\<close>

lemma packet_ends:
  assumes c: "id_map w i = Some a" "conns w a = Some c" "\<not> invalid c" "c_parse_mode c = 0"
      "c_awaiting c = MessageBuffer pre"
    and p: "id_map w (c_handler_id c) = Some p"
    and s: "sessions w p = Some s" "s_connection s = Some a"
    and fd: "0 \<le> fd" "ne_input_error E (history w) fd = 0"
    and data: "ne_read E (history w) fd = ReadData d" "d \<noteq> []" "pre @ d = put_string frame @ t"
      "length (put_string frame @ t) < 2 ^ 31"
    and parse: "with_local (MessageBuffer frame) (parseCSResponse E p) (taken a c fd t w) = Some (x, w')"
    and loop: "(case x of Ok u \<Rightarrow> read_loop E p a w' | Throw e \<Rightarrow> Some (Throw e, w')) = Some (y, w'')"
    and y: "y \<noteq> Throw Overflow"
  shows "run_callback E (Readable i fd) w = Some (y, w'')"
proof -
  let ?w = "received a fd d w"
  let ?c = "c\<lparr>c_awaiting := MessageBuffer (put_string frame @ t)\<rparr>"
  have c': "conns ?w a = Some ?c" "c_parse_mode ?c = 0" "sessions ?w p = Some s"
    using c s data(3) by simp_all
  have at: "at (c_awaiting ?c) (put_string frame @ t)" using at_new [OF data(4)] by simp
  have "set_conn a (Some (?c\<lparr>c_awaiting := MessageBuffer t\<rparr>)) ?w = taken a c fd t w"
    using received_taken [OF c(2), of t fd d] by simp
  then have "loop_turn E p a ?w = (case x of Ok u \<Rightarrow> Some (Ok True, w') | Throw e \<Rightarrow> Some (Throw e, w'))"
    using loop_turn_frame [OF c'(3) s(2) c'(1,2) at] parse
    by (simp add: thenM_run ret_run split: outcome.split)
  then have "read_loop E p a ?w
      = (case x of Ok u \<Rightarrow> read_loop E p a w' | Throw e \<Rightarrow> Some (Throw e, w'))"
    by (subst read_loop.simps) (simp add: bindM_run split: outcome.split)
  then have "read_loop E p a ?w = Some (y, w'')" using loop by simp
  then have "readCallback E p a ?w = Some (y, w'')"
    using c'(2) y by (intro readCallback_loop [OF c'(3) s(2) c'(1)]) simp_all
  then show ?thesis unfolding read_data_run [OF c(1-3) p fd data(1,2)] .
qed

text \<open>Nothing but the beginning of a frame is left to read, or there is no connection any more.\<close>

lemma partial_length: "partial t \<Longrightarrow> length t < 2 ^ 31"
proof -
  assume "partial t"
  then obtain frame u where f: "put_string frame = t @ u" "length frame + 4 < 2 ^ 31"
    by (auto simp: partial_def)
  have "length (put_string frame) = length t + length u" by (simp add: f(1))
  then show ?thesis using f(2) by simp
qed

lemma read_loop_rest:
  assumes "sessions w p = Some s" and "s_connection s = Some a" and "conns w a = Some c"
    and "c_awaiting c = MessageBuffer t" and "partial t"
  shows "read_loop E p a w = Some (Ok (), w)"
proof -
  have "at (c_awaiting c) t" unfolding assms(4) by (rule at_new [OF partial_length [OF assms(5)]])
  then show ?thesis by (intro read_loop_stop loop_turn_wait [OF assms(1-3) _ assms(5)])
qed

lemma read_loop_disconnected:
  "sessions w p = Some s \<Longrightarrow> s_connection s = None \<Longrightarrow> read_loop E p a w = Some (Ok (), w)"
  by (rule read_loop_stop) (simp add: loop_turn_def bindM_run get_sess_run ret_run)

section \<open>Logged in elsewhere\<close>

lemma ends_disconnect:
  assumes w: "sound E w" and s: "sessions w p = Some s" "\<not> invalid s"
  obtains w' s' tr where "ends (intToDWord 3 @ put_string header @ put_string ''Disconnect'' @ r) w
      (parseCSResponse E p) (Ok ()) w'"
    and "sessions w' p = Some s'" and "invalid s'" and "s_connection s' = None"
    and "history w' = ConnectionError (s_account s) NameInUse
      (c_str (logged_in_elsewhere @ [CHR 0x0A])) # tr"
    and "\<And>a. s_connection s = Some a \<Longrightarrow> conns w' a = None"
proof -
  obtain w' s' tr where e: "setStateNetworkError E p NameInUse logged_in_elsewhere w = Some (Ok (), w')"
    and w': "sessions w' p = Some s'" "invalid s'" "s_connection s' = None"
    "history w' = ConnectionError (s_account s) NameInUse (c_str (logged_in_elsewhere @ [CHR 0x0A])) # tr"
    "\<And>a. s_connection s = Some a \<Longrightarrow> conns w' a = None"
    by (rule setStateNetworkError_ends [OF w s]) blast
  have "yields w (setStateNetworkError E p NameInUse logged_in_elsewhere) () w'"
    using e by (simp add: yields_def)
  then have "eats (put_string header @ put_string ''Disconnect'' @ r) w (parse_type3 E p) () r w'"
    unfolding parse_type3_def by - (rule eats_rules | assumption | simp)+
  then show ?thesis by (rule that [OF ends_eats [OF eats_type3 [OF s]] w'])
qed

section \<open>A change of status\<close>

definition status_body :: "string \<Rightarrow> int \<Rightarrow> string \<Rightarrow> int \<Rightarrow> string \<Rightarrow> string" where
  "status_body name status msg code version = put_string name @ intToDWord status
     @ put_string msg @ intToDWord code @ put_string version"

definition with_status :: "string \<Rightarrow> string \<Rightarrow> sess \<Rightarrow> sess" where
  "with_status name msg s = s\<lparr>s_status_text := (s_status_text s)(name \<mapsto> msg)\<rparr>"

definition status_changed ::
  "'b env \<Rightarrow> nat \<Rightarrow> sess \<Rightarrow> string \<Rightarrow> int \<Rightarrow> string \<Rightarrow> 'b world \<Rightarrow> 'b world" where
  "status_changed E p s name status msg w =
     (let shown = emit (GotUserStatus (s_account s) (c_str name) (getStatusFromID status)
                    (Some (c_str msg))) w;
          noted = set_sess p (Some (with_status name msg s)) shown
      in if ev_find_buddy E (history noted) (s_account s) (c_str name)
         then emit (UpdateBuddyStatus (s_account s) (c_str name)) noted else noted)"

lemma eats_parseContactStatusChange:
  assumes s: "sessions w p = Some s" "\<not> invalid s" and n: "cint status" "cint code"
  shows "eats (put_string (status_body name status msg code version)) w
    (parseContactStatusChange E p) () [] (status_changed E p s name status msg w)"
proof (rule eats_result)
  show "eats (put_string (status_body name status msg code version)) w (parseContactStatusChange E p) () []
     (let shown = emit (GotUserStatus (s_account s) (c_str name) (getStatusFromID status)
                    (Some (c_str msg))) w;
          noted = set_sess p (Some (with_status name msg s)) shown
      in if ev_find_buddy E (history noted) (s_account s) (c_str name)
         then emit (UpdateBuddyStatus (s_account s) (c_str name)) noted else noted)"
    unfolding parseContactStatusChange_def status_body_def with_status_def Let_def
    by (rule eats_enter eats_rules yields_rules s n | simp add: s)+
qed (simp add: status_changed_def)

lemma ends_status_change:
  assumes s: "sessions w p = Some s" "\<not> invalid s" and n: "cint status" "cint code"
  shows "ends (intToDWord 3 @ put_string header @ put_string ''ContactStatusChange2''
      @ put_string (status_body name status msg code version)) w
    (parseCSResponse E p) (Ok ()) (status_changed E p s name status msg w)"
  by (rule ends_eats, rule eats_type3 [OF s], unfold parse_type3_def)
    (rule eats_rules eats_parseContactStatusChange [OF s n] | simp)+

text \<open>The new text is what is shown from then on.\<close>

lemma noted_status:
  assumes "sessions w p = Some (with_status name msg s)"
  shows "getBuddyStatusMessage p name w = Some (Ok msg, w)"
proof -
  have "set_sess p (Some (with_status name msg s)) w = w"
    using assms by (simp add: set_sess_def fun_upd_idem)
  then show ?thesis
    using assms by (simp add: getBuddyStatusMessage_def bindM_run thenM_run get_sess_run upd_sess_run
        ret_run map_index_def with_status_def)
qed

end
