(* ===== verification/Online.thy ===== *)
theory Online
  imports Events
begin

text \<open>
  A session that is connected to the chat server, on a network that takes what it is
  given: what sending does, what a frame that arrives does, and the list of contacts.
\<close>

section \<open>Nested buffers, and packets of type 1\<close>

text \<open>A length-prefixed buffer of its own, \<^verbatim>\<open>readMessageBuffer(readInt())\<close>.\<close>

lemma eats_sub_buffer:
  assumes "length s < 2 ^ 31 \<Longrightarrow> eats r w (f (MessageBuffer s)) x r' w'"
  shows "eats (put_string s @ r) w
    (bindM (onL readInt) (\<lambda>n. bindM (onL (readMessageBuffer n)) f)) x r' w'"
  unfolding eats_def
proof (intro allI impI)
  fix b assume b: "at b (put_string s @ r)"
  have ok: "str_ok s" using at_str_ok b .
  have "at b (intToDWord (len s) @ (s @ r))" using b by (simp add: put_string_def)
  then obtain b1 where b1: "yields b readInt (len s) b1" "at b1 (s @ r)"
    using readInt_at [OF _ str_ok_cint [OF ok]] by blast
  obtain b2 where b2: "readMessageBuffer (len s) b1 = Some (Ok (MessageBuffer s), b2)" "at b2 r"
    using readMessageBuffer_at [OF b1(2) ok] by blast
  have "eats r w (f (MessageBuffer s)) x r' w'" using ok by (intro assms) (simp add: str_ok_def)
  note eatsD [OF this b2(2)]
  then show "\<exists>b'. bindM (onL readInt) (\<lambda>n. bindM (onL (readMessageBuffer n)) f) (b, w)
      = Some (Ok x, (b', w')) \<and> at b' r'"
    using b1(1) b2(1) by (simp add: bindM_run onL_run yields_def) metis
qed

text \<open>Packets of type 1 begin with a request number; those of twelve bytes are keep-alives.\<close>

lemma ends_type1:
  assumes s: "sessions w p = Some s" "\<not> invalid s" and n: "cint n" and len: "4 < length r"
    and body: "ends r w (if n = 0 \<and> s_connection_state s < 2 then on_copy (parseCSLoginResponse E p)
      else if n = 1 \<or> n = 0 then parseOfflineMessages E p
      else if n = 2 then parseOfflineAddContactResponse p
      else if n = 7 then parseChatRoomsResponse p
      else if n = 14 then parseGetContactIdResponse else skip_payload) x w'"
  shows "ends (intToDWord 1 @ intToDWord n @ r) w (parseCSResponse E p) x w'"
  unfolding ends_def
proof (intro allI impI)
  fix b assume b: "at b (intToDWord 1 @ intToDWord n @ r)"
  let ?b = "mb_adv (int (length (intToDWord 1))) b" and ?r = "intToDWord n @ r"
  have wf: "mb_wf b" "rest b = intToDWord 1 @ ?r" "cint 1" using b by (simp_all add: at_def cint_def)
  have one: "readInt b = Some (Ok 1, ?b)" "at ?b ?r"
    using int_codec.get_put [OF wf(1,3,2)] int_codec.get_then(2,3) [OF wf(1,3,2)]
    by (simp_all add: readInt_def at_def)
  have "length (intToDWord 1 @ ?r) \<le> length (mb_str b)"
    using wf(2) [symmetric] by (simp add: rest_def)
  then have twelve: "getLength ?b = Some (Ok (int (length (mb_str b))), ?b)" "length (mb_str b) \<noteq> 12"
    using len wf(1) by (simp_all add: getLength_def exec to_int32_id cint_def mb_wf_def mb_adv_def)
  have "ends ?r w (bindM (onL readInt) (\<lambda>subtype. bindM (onR (get_sess p)) (\<lambda>s.
       if subtype = 0 \<and> s_connection_state s < 2 then on_copy (parseCSLoginResponse E p)
       else if subtype = 1 \<or> subtype = 0 then parseOfflineMessages E p
       else if subtype = 2 then parseOfflineAddContactResponse p
       else if subtype = 7 then parseChatRoomsResponse p
       else if subtype = 14 then parseGetContactIdResponse
       else skip_payload))) x w'" (is "ends _ _ ?m _ _")
    by (rule ends_bindM, rule eats_int(1), rule n, rule ends_bindM, rule eats_onR,
        rule yields_basic, rule s, rule body)
  then obtain b' where "?m (?b, w) = Some (x, (b', w'))"
    using one(2) unfolding ends_def by blast
  moreover have "parse_type1 E p (?b, w) = ?m (?b, w)"
    using twelve by (simp add: parse_type1_def bindM_run [of "onL getLength"] onL_run [of getLength])
  ultimately have "parse_type1 E p (?b, w) = Some (x, (b', w'))" by simp
  then show "\<exists>b'. parseCSResponse E p (b, w) = Some (x, (b', w'))"
    using s one(1) by (simp add: parseCSResponse_def thenM_run bindM_run onL_run onR_run assert_valid_run)
qed

section \<open>A network that keeps up\<close>

text \<open>
  The operating system takes whatever it is offered, so nothing is queued.  \<open>online\<close>: the
  session at \<open>p\<close>, of the account \<open>acct\<close> and with the number \<open>j\<close>, has a connection with the
  number \<open>i\<close> and the descriptor \<open>fd\<close>, and nothing is queued on it.
\<close>

definition eager :: "('b, 'e) net_env_scheme \<Rightarrow> bool" where
  "eager E \<longleftrightarrow> (\<forall>tr fd d. fst (ne_write E tr fd d) = int (length d))"

definition online :: "nat \<Rightarrow> nat \<Rightarrow> int \<Rightarrow> int \<Rightarrow> int \<Rightarrow> 'b world \<Rightarrow> bool" where
  "online p acct j i fd w \<longleftrightarrow>
     (\<exists>s a c. sessions w p = Some s \<and> \<not> invalid s \<and> s_account s = acct \<and> obj_id s = j
        \<and> s_connection s = Some a \<and> conns w a = Some c \<and> \<not> invalid c \<and> c_tx c = 0
        \<and> c_fd c = Some fd \<and> obj_id c = i)"

lemma onlineE:
  assumes "online p acct j i fd w"
  obtains s where "sessions w p = Some s" and "\<not> invalid s" and "s_account s = acct" and "obj_id s = j"
  using assms by (auto simp: online_def)

lemma online_emit [simp]: "online p acct j i fd (emit e w) = online p acct j i fd w"
  by (simp add: online_def)

lemma history_fold:
  "fold (\<lambda>x w. w\<lparr>history := g x (history w)\<rparr>) xs w = w\<lparr>history := fold g xs (history w)\<rparr>"
  by (induction xs arbitrary: w) simp_all

lemma online_history [simp]:
  "online p acct j i fd (w\<lparr>history := tr\<rparr>) = online p acct j i fd w"
  by (simp add: online_def)

text \<open>A change of the session's fields that leaves its identity alone.\<close>

definition edit :: "nat \<Rightarrow> (sess \<Rightarrow> sess) \<Rightarrow> 'b world \<Rightarrow> 'b world" where
  "edit p g w = set_sess p (map_option g (sessions w p)) w"

lemma edit_simps [simp]:
  "sessions (edit p g w) = (sessions w)(p := map_option g (sessions w p))"
  "conns (edit p g w) = conns w" "history (edit p g w) = history w"
  "id_map (edit p g w) = id_map w" "proto_data (edit p g w) = proto_data w"
  by (simp_all add: edit_def)

lemma online_edit:
  "(\<And>s. sess_shape (g s) = sess_shape s) \<Longrightarrow> online p acct j i fd w \<Longrightarrow> online p acct j i fd (edit p g w)"
  by (fastforce simp: online_def sess_shape_def)

lemma yields_edit:
  "online p acct j i fd w \<Longrightarrow> yields w (upd_sess p g) () (edit p g w)"
  by (elim onlineE) (simp add: yields_def upd_sess_run edit_def)

text \<open>A packet that is sent is taken whole, and nothing else changes.\<close>

definition wrote :: "int \<Rightarrow> int \<Rightarrow> string \<Rightarrow> 'b world \<Rightarrow> 'b world" where
  "wrote i fd d = emit (SysWrite i fd d (len d))"

lemma wrote_simps [simp]:
  "sessions (wrote i fd d w) = sessions w" "conns (wrote i fd d w) = conns w"
  "history (wrote i fd d w) = SysWrite i fd d (len d) # history w"
  "online p acct j k x (wrote i fd d w) = online p acct j k x w"
  by (simp_all add: wrote_def)

lemma yields_sess_write:
  assumes "eager E" and "online p acct j i fd w" and "d \<noteq> []"
  shows "yields w (sess_write E p d) () (wrote i fd d w)"
proof -
  obtain s a c where c: "sessions w p = Some s" "s_connection s = Some a" "conns w a = Some c"
    "\<not> invalid c" "c_tx c = 0" "c_fd c = Some fd" "obj_id c = i"
    using assms(2) by (auto simp: online_def)
  then show ?thesis
    using assms(1,3)
    by (simp add: yields_def sess_write_def conn_write_def sys_write_def bindM_run thenM_run
        the_connection_run get_conn_run isInvalid_def fd_of_run ask_run out_run ret_run whenM_run
        wrote_def eager_def Let_def)
qed

lemma yields_assert_valid:
  "online p acct j i fd w \<Longrightarrow> yields w (assert_valid p) () w"
  by (elim onlineE) (simp add: yields_def assert_valid_run)

section \<open>The list of contacts\<close>

record contact =
  ct_name :: string
  ct_name2 :: string
  ct_name3 :: string
  ct_code1 :: int
  ct_status :: int
  ct_text :: string
  ct_code3 :: int
  ct_version :: string

definition put_contact :: "contact \<Rightarrow> string" where
  "put_contact k = put_string (ct_name k) @ put_string (ct_name2 k) @ put_string (ct_name3 k)
     @ intToDWord (ct_code1 k) @ intToDWord (ct_status k) @ put_string (ct_text k)
     @ intToDWord (ct_code3 k) @ put_string (ct_version k)"

definition contact_ok :: "contact \<Rightarrow> bool" where
  "contact_ok k \<longleftrightarrow> cint (ct_code1 k) \<and> cint (ct_status k) \<and> cint (ct_code3 k)"

definition contact_event :: "nat \<Rightarrow> contact \<Rightarrow> event" where
  "contact_event acct k =
     GotUserStatus acct (c_str (ct_name k)) (getStatusFromID (ct_status k)) None"

lemma eats_read_contact:
  assumes s: "sessions w p = Some s" and k: "contact_ok k"
  shows "eats (put_contact k @ r) w (read_contact p u) () r (emit (contact_event (s_account s) k) w)"
proof -
  have n: "cint (ct_code1 k)" "cint (ct_status k)" "cint (ct_code3 k)"
    using k by (simp_all add: contact_ok_def)
  show ?thesis
    unfolding read_contact_def put_contact_def contact_event_def append_assoc
    by (rule eats_rules yields_rules s n)+
qed

lemma emits_fold: "fold (\<lambda>x. emit (f x)) xs w = w\<lparr>history := rev (map f xs) @ history w\<rparr>"
  by (induction xs arbitrary: w) (simp_all add: emit_def)

lemma eats_length [eats_rules]: "eats (put_string s @ r) w (onL readInt) (len s) (s @ r) w"
proof (rule eats_onL)
  fix b assume b: "at b (put_string s @ r)"
  have "cint (len s)" by (rule str_ok_cint [OF at_str_ok [OF b]])
  moreover have "at b (intToDWord (len s) @ (s @ r))" using b by (simp add: put_string_def)
  ultimately show "\<exists>b'. yields b readInt (len s) b' \<and> at b' (s @ r)" by (metis readInt_at)
qed

lemma put_contact_not_Nil [simp]: "put_contact k \<noteq> []"
  by (simp add: put_contact_def)

definition contacts_body :: "contact list \<Rightarrow> string \<Rightarrow> string" where
  "contacts_body ks cid = put_items put_contact ks @ put_string cid"

lemma eats_parseCSContacts:
  assumes s: "sessions w p = Some s" "\<not> invalid s" and ks: "list_all contact_ok ks"
  shows "eats (put_string (contacts_body ks cid)) w (parseCSContacts p) () []
    (w\<lparr>history := rev (map (contact_event (s_account s)) ks) @ history w\<rparr>)"
proof -
  let ?w = "fold (\<lambda>k. emit (contact_event (s_account s) k)) ks w"
  have loop: "eats (concat (map put_contact ks) @ r) w (forM (int (length ks)) (read_contact p) ()) () r ?w" for r
    by (rule eats_forM_do [where P = "\<lambda>w. sessions w p = Some s"])
      (use ks s(1) in \<open>auto simp: list_all_iff intro: eats_read_contact\<close>)
  have "eats (put_string (contacts_body ks cid) @ []) w (parseCSContacts p) () [] ?w"
    unfolding parseCSContacts_def
    by (rule eats_thenM, rule eats_onR, rule yields_basic(7) [OF s], rule eats_bindM, rule eats_length,
        unfold contacts_body_def append_assoc, rule eats_bindM, rule eats_count(1), simp,
        rule eats_thenM, rule loop, rule eats_bindM, simp, rule eats_string, rule eats_ret)
  then show ?thesis by (simp add: emits_fold)
qed

lemma ends_Contacts:
  assumes s: "sessions w p = Some s" "\<not> invalid s" and ks: "list_all contact_ok ks"
  shows "ends (intToDWord 3 @ put_string header @ put_string ''Contacts'' @ put_string (contacts_body ks cid))
    w (parseCSResponse E p) (Ok ()) (w\<lparr>history := rev (map (contact_event (s_account s)) ks) @ history w\<rparr>)"
  by (rule ends_eats, rule eats_type3 [OF s], unfold parse_type3_def)
    (rule eats_rules eats_parseCSContacts [OF s ks] | simp)+

section \<open>A frame arrives\<close>

text \<open>
  On the open chat connection \<open>c\<close> bytes arrive that complete one frame, of which some may have
  been there before; the bytes \<open>t\<close> after it are the beginning of another.
\<close>

definition arrives ::
  "'b env \<Rightarrow> 'b world \<Rightarrow> nat \<Rightarrow> 'b conn \<Rightarrow> int \<Rightarrow> string \<Rightarrow> string \<Rightarrow> bool" where
  "arrives E w a c fd frame t \<longleftrightarrow>
     conns w a = Some c \<and> \<not> invalid c \<and> c_parse_mode c = 0
   \<and> 0 \<le> fd \<and> ne_input_error E (history w) fd = 0
   \<and> (\<exists>pre d. c_awaiting c = MessageBuffer pre \<and> ne_read E (history w) fd = ReadData d
        \<and> d \<noteq> [] \<and> pre @ d = put_string frame @ t)
   \<and> length (put_string frame @ t) < 2 ^ 31 \<and> partial t"

lemma sound_taken:
  assumes "sound E w" and "conns w a = Some c"
  shows "sound E (taken a c fd t w)"
  unfolding taken_def by (rule sound_emit [OF both.I_awaiting [OF assms]]) simp

text \<open>What the parser makes of the frame is what the callback does.\<close>

lemma serves:
  assumes w: "sound E w" and arr: "arrives E w a c fd frame t"
    and s: "sessions w p = Some s" "s_connection s = Some a"
    and e: "ends frame (taken a c fd t w) (parseCSResponse E p) x w'"
    and x: "x \<noteq> Throw Overflow"
    and loop: "x = Ok () \<Longrightarrow> partial t \<Longrightarrow> read_loop E p a w' = Some (Ok (), w')"
  shows "run_callback E (Readable (obj_id c) fd) w = Some (x, w')"
proof -
  obtain pre d where b: "c_awaiting c = MessageBuffer pre"
    and data: "ne_read E (history w) fd = ReadData d" "d \<noteq> []" "pre @ d = put_string frame @ t"
    using arr by (auto simp: arrives_def)
  have c: "conns w a = Some c" "\<not> invalid c" "c_parse_mode c = 0"
    and fd: "0 \<le> fd" "ne_input_error E (history w) fd = 0"
    and t: "length (put_string frame @ t) < 2 ^ 31" "partial t"
    using arr by (simp_all add: arrives_def)
  have o: "owned w" using w by (simp add: own_def)
  have p: "id_map w (c_handler_id c) = Some p"
    using owned_connected(2) [OF o s] owned_session(1) [OF o s(1)] c(1) by auto
  have id: "id_map w (obj_id c) = Some a"
    by (rule net_inv_conn(1) [OF conjunct1 [OF conjunct1 [OF w]] c(1)])
  have len: "length frame < 2 ^ 31" using t(1) by simp
  have "(case x of Ok u \<Rightarrow> read_loop E p a w' | Throw e \<Rightarrow> Some (Throw e, w')) = Some (x, w')"
    using loop [OF _ t(2)] by (cases x) simp_all
  then show ?thesis by (rule packet_ends [OF id c b p s fd data t(1) ends_packet [OF e len]]) (rule x)
qed

lemma served:
  assumes "sound E w" and "arrives E w a c fd frame t"
    and "sessions w p = Some s" and "s_connection s = Some a"
    and "ends frame (taken a c fd t w) (parseCSResponse E p) (Ok ()) w'"
    and s': "sessions w' p = Some s'"
      "s_connection s' = None \<or> s_connection s' = Some a \<and> conns w' = (conns w)(a \<mapsto> c\<lparr>c_awaiting := MessageBuffer t\<rparr>)"
  shows "run_callback E (Readable (obj_id c) fd) w = Some (Ok (), w')"
  by (rule serves [OF assms(1-5)])
    (use s' read_loop_disconnected read_loop_rest [OF s'(1)] in auto)

lemma session_valid:
  assumes "sound E w" and "sessions w p = Some s" and "s_connection s = Some a"
  shows "\<not> invalid s"
proof -
  have "owned w" using assms(1) by (simp add: own_def)
  then show ?thesis by (rule owned_connected(1) [OF _ assms(2,3)])
qed

lemma arrives_online:
  assumes "arrives E w a c fd frame t" and "c_tx c = 0" and "c_fd c = Some cfd"
    and "sessions w p = Some s" and "s_connection s = Some a" and "\<not> invalid s"
  shows "online p (s_account s) (obj_id s) (obj_id c) cfd (taken a c fd t w)"
  using assms by (auto simp: arrives_def online_def)

end
