(* ===== verification/Deliveries.thy ===== *)
theory Deliveries
  imports Online
begin

text \<open>
  What the server has kept for the user while he was away: messages and requests of
  others to be added to his contacts.
\<close>

section \<open>Stored messages\<close>

datatype stored_text = Plain string | Formatted int "chat_part list"

record stored =
  st_id :: string
  st_from :: string
  st_text :: stored_text
  st_time :: int

text \<open>A message of kind 0 is plain text; any other kind is a formatted message.\<close>

definition put_stored :: "stored \<Rightarrow> string" where
  "put_stored m = put_string (st_id m) @ put_string (st_from m)
     @ (case st_text m of
          Plain t \<Rightarrow> put_string t @ intToDWord 0
        | Formatted n ps \<Rightarrow> put_string (concat (map put_part ps)) @ intToDWord n)
     @ intToDWord (st_time m)"

definition stored_ok :: "'b env \<Rightarrow> stored \<Rightarrow> bool" where
  "stored_ok E m \<longleftrightarrow> cint (st_time m) \<and>
     (case st_text m of
        Plain t \<Rightarrow> True
      | Formatted n ps \<Rightarrow> cint n \<and> n \<noteq> 0 \<and> list_all (part_ok E) ps)"

text \<open>How it is shown: a plain message with the present time, any other with its own.\<close>

definition stored_event :: "'b env \<Rightarrow> nat \<Rightarrow> stored \<Rightarrow> event list \<Rightarrow> event" where
  "stored_event E acct m tr =
     (case st_text m of
        Plain t \<Rightarrow> GotIm acct (c_str (st_from m)) (c_str t) (ev_time E tr)
      | Formatted n ps \<Rightarrow>
          GotIm acct (c_str (st_from m)) (c_str (concat (map (render E) ps))) (st_time m))"

definition delivered :: "'b env \<Rightarrow> nat \<Rightarrow> int \<Rightarrow> int \<Rightarrow> stored \<Rightarrow> event list \<Rightarrow> event list" where
  "delivered E acct i fd m tr =
     SysWrite i fd (deleteOfflineMessage_packet (st_id m)) (len (deleteOfflineMessage_packet (st_id m)))
     # stored_event E acct m tr # tr"

lemma yields_plain_text:
  assumes "length s < 2 ^ 31"
  shows "yields w (with_local (MessageBuffer s) (onL (bindM getLength readStringn))) s w"
proof -
  have "cint (len s)" using assms by (simp add: cint_def)
  then show ?thesis
    using at_new [OF assms]
    by (simp add: yields_def with_local_run onL_run bindM_run getLength_def getM_run to_int32_id
        readStringn_run at_def) (simp add: MessageBuffer_def to_int32_id)
qed

lemma yields_formatted_text:
  assumes "length (concat (map put_part ps)) < 2 ^ 31" and "list_all (part_ok E) ps"
  shows "yields w (with_local (MessageBuffer (concat (map put_part ps))) (onL (parseChatMessage E)))
    (concat (map (render E) ps)) w"
  using eats_packet [OF eats_parseChatMessage [OF assms(2)] assms(1)] by (simp add: yields_def)

lemma deletion_not_Nil [simp]: "deleteOfflineMessage_packet i \<noteq> []"
  by (simp add: deleteOfflineMessage_layout command_def)

lemma yields_deleteOfflineMessage:
  assumes "eager E" and "online p acct j i fd w"
  shows "yields w (deleteOfflineMessage E p m) () (wrote i fd (deleteOfflineMessage_packet m) w)"
  unfolding deleteOfflineMessage_def
  by (rule yields_rules yields_assert_valid yields_sess_write assms | simp)+

lemma eats_read_offline_message:
  assumes E: "eager E" and w: "online p acct j i fd w" and m: "stored_ok E m"
  shows "eats (put_stored m @ r) w (read_offline_message E p u) () r
    (w\<lparr>history := delivered E acct i fd m (history w)\<rparr>)"
proof -
  obtain s where s: "sessions w p = Some s" "s_account s = acct" using w by (rule onlineE)
  let ?g = "emit (stored_event E acct m (history w)) w"
  have del: "yields ?g (deleteOfflineMessage E p (st_id m)) ()
      (w\<lparr>history := delivered E acct i fd m (history w)\<rparr>)"
    using yields_deleteOfflineMessage [OF E, of p acct j i fd ?g "st_id m"] w
    by (simp add: wrote_def delivered_def emit_def)
  have t: "cint (st_time m)" using m by (simp add: stored_ok_def)
  show ?thesis
  proof (cases "st_text m")
    case (Plain t)
    note rules = eats_rules yields_rules
    show ?thesis
      unfolding read_offline_message_def put_stored_def append_assoc Plain stored_text.case
      by (rule eats_bindM, rule eats_string, rule eats_bindM, rule eats_string, rule eats_sub_buffer,
          rule eats_bindM, rule eats_int(1), simp add: cint_def, rule eats_bindM, rule eats_int(1),
          rule t, rule eats_thenM, unfold simp_thms if_True, rule eats_bindM, rule eats_onR,
          erule yields_plain_text, rule eats_bindM, rule eats_onR, rule yields_basic,
          rule eats_onR, rule yields_got_im, rule s, rule eats_onR,
          use del Plain s in \<open>simp add: stored_event_def\<close>)
  next
    case (Formatted n ps)
    then have n: "cint n" "n \<noteq> 0" "list_all (part_ok E) ps" using m by (simp_all add: stored_ok_def)
    show ?thesis
      unfolding read_offline_message_def put_stored_def append_assoc Formatted stored_text.case
      by (rule eats_bindM, rule eats_string, rule eats_bindM, rule eats_string, rule eats_sub_buffer,
          rule eats_bindM, rule eats_int(1), rule n, rule eats_bindM, rule eats_int(1),
          rule t, rule eats_thenM, unfold if_not_P [OF n(2)], rule eats_bindM, rule eats_onR,
          erule yields_formatted_text [OF _ n(3)], 
          rule eats_onR, rule yields_got_im, rule s, rule eats_onR,
          use del Formatted s in \<open>simp add: stored_event_def\<close>)
  qed
qed

lemma put_stored_not_Nil [simp]: "put_stored m \<noteq> []"
  by (simp add: put_stored_def)

lemma eats_parseOfflineMessages:
  assumes E: "eager E" and w: "online p acct j i fd w" and ms: "list_all (stored_ok E) ms"
  shows "eats (put_string (put_items put_stored ms)) w (parseOfflineMessages E p) () []
    (w\<lparr>history := fold (delivered E acct i fd) ms (history w)\<rparr>)"
proof -
  have "eats (concat (map put_stored ms) @ []) w (forM (int (length ms)) (read_offline_message E p) ()) () []
      (fold (\<lambda>m w. w\<lparr>history := delivered E acct i fd m (history w)\<rparr>) ms w)"
    by (rule eats_forM_do [where P = "online p acct j i fd"])
      (use ms w in \<open>auto simp: list_all_iff intro: eats_read_offline_message [OF E]\<close>)
  then have loop: "eats (concat (map put_stored ms) @ []) w (forM (int (length ms)) (read_offline_message E p) ()) () []
      (w\<lparr>history := fold (delivered E acct i fd) ms (history w)\<rparr>)"
    by (simp only: history_fold)
  have n: "eats (put_items put_stored ms) w (onL readInt) (int (length ms)) (concat (map put_stored ms) @ []) w"
    using eats_count(1) [of put_stored ms "[]" w] by simp
  show ?thesis
    unfolding parseOfflineMessages_def
    by (rule eats_enter, rule eats_bindM, rule n, rule loop)
qed

lemma ends_offline_messages:
  assumes E: "eager E" and w: "online p acct j i fd w" and ms: "list_all (stored_ok E) ms"
  shows "ends (intToDWord 1 @ intToDWord 1 @ put_string (put_items put_stored ms)) w
    (parseCSResponse E p) (Ok ()) (w\<lparr>history := fold (delivered E acct i fd) ms (history w)\<rparr>)"
proof -
  obtain s where s: "sessions w p = Some s" "\<not> invalid s" using w by (rule onlineE)
  show ?thesis
    by (rule ends_type1 [OF s])
      (use ends_eats [OF eats_parseOfflineMessages [OF assms]] in \<open>simp_all add: cint_def put_items_def\<close>)
qed

text \<open>The deletions are asked for in the order of the messages.\<close>

lemma sent_delivered:
  "sent (fold (delivered E acct i fd) ms tr) i
     = sent tr i @ concat (map (\<lambda>m. deleteOfflineMessage_packet (st_id m)) ms)"
  by (induction ms arbitrary: tr)
    (simp_all add: delivered_def stored_event_def split: stored_text.split)

section \<open>Requests to be added\<close>

record asked =
  as_id :: string
  as_from :: string
  as_code :: int
  as_to :: string

definition put_asked :: "asked \<Rightarrow> string" where
  "put_asked q = put_string (as_id q) @ put_string (as_from q) @ intToDWord (as_code q)
     @ put_string (as_to q)"

text \<open>What libpurple is given to ask the user with: the raw pointer to the session included.\<close>

definition asked_event :: "nat \<Rightarrow> nat \<Rightarrow> asked \<Rightarrow> event" where
  "asked_event p acct q = RequestAuthorization acct \<lparr>ar_conn = p, ar_localid = as_to q,
     ar_from = as_from q, ar_from2 = [], ar_reqId = as_id q\<rparr>"

lemma yields_request_authorization [yields_rules]:
  "sessions w p = Some s \<Longrightarrow> yields w (request_authorization p ar) () (emit (RequestAuthorization (s_account s) ar) w)"
  by (simp add: yields_def request_authorization_def exec)

lemma put_asked_not_Nil [simp]: "put_asked q \<noteq> []"
  by (simp add: put_asked_def)

lemma eats_read_add_request:
  assumes s: "sessions w p = Some s" and q: "cint (as_code q)"
  shows "eats (put_asked q @ r) w (read_add_request p u) () r (emit (asked_event p (s_account s) q) w)"
  unfolding read_add_request_def put_asked_def asked_event_def append_assoc
  by (rule eats_rules yields_rules s q)+

lemma ends_add_requests:
  assumes s: "sessions w p = Some s" "\<not> invalid s" and qs: "list_all (\<lambda>q. cint (as_code q)) qs"
  shows "ends (intToDWord 1 @ intToDWord 2 @ put_string (put_items put_asked qs)) w
    (parseCSResponse E p) (Ok ()) (w\<lparr>history := rev (map (asked_event p (s_account s)) qs) @ history w\<rparr>)"
proof -
  have "eats (concat (map put_asked qs) @ []) w (forM (int (length qs)) (read_add_request p) ()) () []
      (fold (\<lambda>q. emit (asked_event p (s_account s) q)) qs w)"
    by (rule eats_forM_do [where P = "\<lambda>w. sessions w p = Some s"])
      (use qs s in \<open>auto simp: list_all_iff intro: eats_read_add_request\<close>)
  note this [unfolded emits_fold]
  then have loop: "eats (concat (map put_asked qs) @ []) w
      (if int (length qs) = 0 then ret () else forM (int (length qs)) (read_add_request p) ()) () []
      (w\<lparr>history := rev (map (asked_event p (s_account s)) qs) @ history w\<rparr>)"
    using eats_ret [of "[]" w "()"] by (cases "qs = []") simp_all
  have n: "eats (put_items put_asked qs) w (onL readInt) (int (length qs)) (concat (map put_asked qs) @ []) w"
    using eats_count(1) [of put_asked qs "[]" w] by simp
  have "eats (put_string (put_items put_asked qs)) w (parseOfflineAddContactResponse p) () []
      (w\<lparr>history := rev (map (asked_event p (s_account s)) qs) @ history w\<rparr>)"
    unfolding parseOfflineAddContactResponse_def
    by (rule eats_enter, rule eats_bindM, rule n, rule loop)
  note ends_eats [OF this]
  then show ?thesis
    by (intro ends_type1 [OF s]) (simp_all add: cint_def put_items_def)
qed

end
