(* ===== verification/Login.thy ===== *)
theory Login
  imports Online
begin

text \<open>
  The chat server's answer to the login: a refusal ends the session; otherwise the
  answer's contacts are added to libpurple's and the client announces itself.
\<close>

section \<open>The answer\<close>

record login_group =
  lg_key :: string      \<comment> \<open>\<^verbatim>\<open>groupname1\<close>\<close>
  lg_name :: string     \<comment> \<open>\<^verbatim>\<open>groupname2\<close>\<close>
  lg_members :: "string list"

record login_answer =
  la_userId :: string
  la_displayname :: string
  la_nickname :: string
  la_code1 :: int
  la_code2 :: int
  la_props :: "(string \<times> string) list"
  la_roster :: "(string \<times> int) list"
  la_tels :: "(string \<times> string) list"
  la_blocked :: "(string \<times> int) list"
  la_allowed :: "(string \<times> int) list"
  la_skipped :: string
  la_session :: string
  la_visibleIP :: string
  la_code3 :: int
  la_code4 :: char
  la_unknown :: string
  la_code6 :: string
  la_code7 :: string
  la_groups :: "login_group list"
  la_id :: string

definition put_pair :: "string \<times> string \<Rightarrow> string" where
  "put_pair x = put_string (fst x) @ put_string (snd x)"

definition put_entry :: "string \<times> int \<Rightarrow> string" where
  "put_entry x = put_string (fst x) @ intToDWord (snd x)"

definition put_group :: "login_group \<Rightarrow> string" where
  "put_group g = put_string (lg_key g) @ put_string (lg_name g) @ put_items put_string (lg_members g)"

definition put_lists :: "login_answer \<Rightarrow> string" where
  "put_lists l = put_items put_entry (la_roster l) @ put_items put_pair (la_tels l)
     @ put_items put_entry (la_blocked l) @ put_items put_entry (la_allowed l)"

definition login_body :: "login_answer \<Rightarrow> string" where
  "login_body l = intToDWord 0
     @ put_string (la_userId l) @ put_string (la_displayname l) @ put_string (la_nickname l)
     @ intToDWord (la_code1 l) @ intToDWord (la_code2 l) @ put_items put_pair (la_props l)
     @ put_lists l @ la_skipped l @ put_string (la_session l) @ put_string (la_visibleIP l)
     @ intToDWord (la_code3 l) @ [la_code4 l]
     @ put_string (la_unknown l) @ put_string (la_code6 l) @ put_string (la_code7 l)
     @ put_items put_group (la_groups l) @ put_string (la_id l)"

definition login_ok :: "login_answer \<Rightarrow> bool" where
  "login_ok l \<longleftrightarrow> cint (la_code1 l) \<and> cint (la_code2 l) \<and> cint (la_code3 l)
     \<and> length (la_skipped l) = 6
     \<and> list_all (\<lambda>x. cint (snd x)) (la_roster l @ la_blocked l @ la_allowed l)"

section \<open>Reading the lists\<close>

lemma put_item_not_Nil [simp]: "put_pair x \<noteq> []" "put_entry y \<noteq> []" "put_group g \<noteq> []"
  by (simp_all add: put_pair_def put_entry_def put_group_def)

lemma eats_read_pair: "eats (put_pair x @ r) w (read_pair u) () r w"
  unfolding read_pair_def put_pair_def append_assoc by (rule eats_rules)+

lemma eats_read_string_int:
  "cint (snd x) \<Longrightarrow> eats (put_entry x @ r) w (read_string_int acc) (acc @ [fst x]) r w"
  unfolding read_string_int_def put_entry_def append_assoc by (rule eats_rules | assumption)+

lemma eats_pairs:
  "eats (concat (map put_pair xs) @ r) w (forM (int (length xs)) read_pair ()) () r w"
  using eats_forM_read [where h = "\<lambda>x u. ()" and put = put_pair and xs = xs and f = read_pair
    and acc = "()" and w = w and r = r] by (simp add: eats_read_pair)

lemma eats_entries:
  assumes "list_all (\<lambda>x. cint (snd x)) xs" and "eats r w (k (map fst xs)) x r' w'"
  shows "eats (put_items put_entry xs @ r) w
    (bindM (onL readInt) (\<lambda>n. bindM (forM n read_string_int []) k)) x r' w'"
proof -
  have "eats (concat (map put_entry xs) @ r) w (forM (int (length xs)) read_string_int [])
      (fold (\<lambda>x acc. acc @ [fst x]) xs []) r w"
    by (rule eats_forM_read, rule eats_read_string_int) (use assms(1) in \<open>simp add: list_all_iff\<close>)
  moreover have "fold (\<lambda>x acc. acc @ [fst x]) xs acc = acc @ map fst xs" for acc
    by (induction xs arbitrary: acc) simp_all
  ultimately show ?thesis
    by - (rule eats_bindM, rule eats_count(1), simp, rule eats_bindM, simp, rule assms(2))
qed

lemma eats_read_contact_lists:
  assumes "login_ok l"
  shows "eats (put_lists l @ r) w read_contact_lists (map fst (la_roster l)) r w"
  using assms unfolding read_contact_lists_def put_lists_def append_assoc login_ok_def list_all_append
  by - (elim conjE, rule eats_entries, assumption, rule eats_bindM, rule eats_count(1), simp,
      rule eats_thenM, rule eats_pairs, rule eats_entries, assumption,
      rule eats_entries, assumption, rule eats_ret)

section \<open>Groups and their members\<close>

definition member_events :: "'b env \<Rightarrow> nat \<Rightarrow> string \<Rightarrow> string \<Rightarrow> event list \<Rightarrow> event list" where
  "member_events E acct grp member tr =
     (if ev_find_buddy E tr acct (c_str member) then tr
      else AddBuddy acct (c_str member) (c_str grp)
        # (if ev_find_group E tr (c_str grp) then tr else NewGroup (c_str grp) # tr))"

definition group_events :: "'b env \<Rightarrow> nat \<Rightarrow> login_group \<Rightarrow> event list \<Rightarrow> event list" where
  "group_events E acct g = fold (member_events E acct (lg_name g)) (lg_members g)"

definition join_group :: "string \<Rightarrow> sess \<Rightarrow> sess" where
  "join_group k s = s\<lparr>s_groups := insert k (s_groups s)\<rparr>"

lemma eats_add_member:
  assumes s: "sessions w p = Some s"
  shows "eats (put_string m @ r) w (add_member E p grp u) () r
    (w\<lparr>history := member_events E (s_account s) grp m (history w)\<rparr>)"
proof -
  have "yields w
       (bindM (get_sess p) (\<lambda>s.
       bindM (ask (\<lambda>tr. ev_find_buddy E tr (s_account s) (c_str m))) (\<lambda>buddy.
       whenM (\<not> buddy) (
         bindM (ask (\<lambda>tr. ev_find_group E tr (c_str grp))) (\<lambda>g.
         thenM (whenM (\<not> g) (out (NewGroup (c_str grp))))
         (out (AddBuddy (s_account s) (c_str m) (c_str grp))))))))
       () (w\<lparr>history := member_events E (s_account s) grp m (history w)\<rparr>)"
    using s by (simp add: yields_def bindM_run thenM_run whenM_run get_sess_run ask_run out_run ret_run
        member_events_def emit_def)
  then show ?thesis
    unfolding add_member_def by - (rule eats_bindM, rule eats_string, erule eats_onR)
qed

lemma eats_read_group:
  assumes w: "online p acct j i fd w"
  shows "eats (put_group g @ r) w (read_group E p u) () r
    ((edit p (join_group (lg_key g)) w)\<lparr>history := group_events E acct g (history w)\<rparr>)"
proof -
  let ?w = "edit p (join_group (lg_key g)) w"
  have w1: "online p acct j i fd ?w" by (rule online_edit [OF _ w]) (simp add: join_group_def sess_shape_def)
  then obtain s where s: "sessions ?w p = Some s" "s_account s = acct" by (rule onlineE)
  have "eats (concat (map put_string (lg_members g)) @ r) ?w
      (forM (int (length (lg_members g))) (add_member E p (lg_name g)) ()) () r
      (fold (\<lambda>m w. w\<lparr>history := member_events E acct (lg_name g) m (history w)\<rparr>) (lg_members g) ?w)"
    by (rule eats_forM_do [where P = "\<lambda>w. sessions w p = Some s"])
      (use s eats_add_member in \<open>auto intro!: eats_add_member\<close>)
  then have loop: "eats (concat (map put_string (lg_members g)) @ r) ?w
      (forM (int (length (lg_members g))) (add_member E p (lg_name g)) ()) () r
      (?w\<lparr>history := group_events E acct g (history w)\<rparr>)"
    by (simp add: history_fold group_events_def)
  have join: "yields w (upd_sess p (\<lambda>s. s\<lparr>s_groups := insert (lg_key g) (s_groups s)\<rparr>)) () ?w"
    using yields_edit [OF w, of "join_group (lg_key g)"] by (simp only: join_group_def [abs_def])
  show ?thesis
    unfolding read_group_def put_group_def append_assoc
    by (rule eats_bindM, rule eats_string, rule eats_bindM, rule eats_string, rule eats_bindM,
        rule eats_count(1), simp, rule eats_thenM, rule eats_onR, rule join, rule loop)
qed

text \<open>All groups, one after the other.\<close>

definition join_all :: "login_group list \<Rightarrow> sess \<Rightarrow> sess" where
  "join_all gs s = s\<lparr>s_groups := set (map lg_key gs) \<union> s_groups s\<rparr>"

definition roster_events :: "'b env \<Rightarrow> nat \<Rightarrow> login_group list \<Rightarrow> event list \<Rightarrow> event list" where
  "roster_events E acct = fold (group_events E acct)"

lemma fold_groups:
  assumes "sessions w p = Some s"
  shows "fold (\<lambda>g w. (edit p (join_group (lg_key g)) w)\<lparr>history := group_events E acct g (history w)\<rparr>) gs w
    = (edit p (join_all gs) w)\<lparr>history := roster_events E acct gs (history w)\<rparr>"
  using assms
proof (induction gs arbitrary: w s)
  case Nil
  then show ?case
    by (cases w) (simp add: edit_def join_all_def roster_events_def set_sess_def fun_upd_idem)
next
  case (Cons g gs)
  let ?w = "(edit p (join_group (lg_key g)) w)\<lparr>history := group_events E acct g (history w)\<rparr>"
  have w: "sessions ?w p = Some (join_group (lg_key g) s)" using Cons.prems by simp
  have "(edit p (join_all gs) ?w)\<lparr>history := roster_events E acct gs (history ?w)\<rparr>
      = (edit p (join_all (g # gs)) w)\<lparr>history := roster_events E acct (g # gs) (history w)\<rparr>"
    using Cons.prems by (simp add: edit_def join_all_def join_group_def roster_events_def set_sess_def)
  then show ?case by (simp only: fold_Cons o_apply Cons.IH [OF w])
qed

lemma eats_groups:
  assumes w: "online p acct j i fd w"
  shows "eats (concat (map put_group gs) @ r) w (forM (int (length gs)) (read_group E p) ()) () r
    ((edit p (join_all gs) w)\<lparr>history := roster_events E acct gs (history w)\<rparr>)"
proof -
  obtain s where "sessions w p = Some s" using w by (rule onlineE)
  moreover have "online p acct j i fd (edit p (join_group k) w)" if "online p acct j i fd w"
    for k and w :: "'a world"
    by (rule online_edit [OF _ that]) (simp add: join_group_def sess_shape_def)
  then have "eats (concat (map put_group gs) @ r) w (forM (int (length gs)) (read_group E p) ()) () r
      (fold (\<lambda>g w. (edit p (join_group (lg_key g)) w)\<lparr>history := group_events E acct g (history w)\<rparr>) gs w)"
    by (intro eats_forM_do [where P = "online p acct j i fd"] conjI eats_read_group) (simp_all add: w)
  ultimately show ?thesis by (simp only: fold_groups)
qed

section \<open>What the client then does\<close>

definition sys_write_all :: "int \<Rightarrow> int \<Rightarrow> string \<Rightarrow> event" where
  "sys_write_all i fd d = SysWrite i fd d (len d)"

lemma wrote_eq: "wrote i fd d w = emit (sys_write_all i fd d) w"
  by (simp add: wrote_def sys_write_all_def)

definition avatar_fetch :: "sess \<Rightarrow> string \<Rightarrow> event" where
  "avatar_fetch s name = FetchUrl (c_str (''http://avatars.rediff.com/avatars/getkey.asp?username='' @ name
     @ ''&secret=rediffbol&login='' @ s_server_userId s @ ''&session_id='' @ s_session s))
     AvatarKey (obj_id s) name"

text \<open>The status of the account, as far as the protocol has a code for it.\<close>

definition status_events :: "'b env \<Rightarrow> nat \<Rightarrow> int \<Rightarrow> int \<Rightarrow> event list \<Rightarrow> event list" where
  "status_events E acct i fd tr =
     (let status = SAFE (ev_status_id E tr acct); msg = SAFE (ev_status_message E tr acct) in
      case status_code status of
        None \<Rightarrow> tr
      | Some code \<Rightarrow> sys_write_all i fd (setStatus_packet code (if msg = [] then status else msg)) # tr)"

definition announce_events ::
  "'b env \<Rightarrow> sess \<Rightarrow> int \<Rightarrow> int \<Rightarrow> string list \<Rightarrow> event list \<Rightarrow> event list" where
  "announce_events E s i fd roster tr =
     rev (map (avatar_fetch s) roster)
     @ sys_write_all i fd sendGetAddRequest_packet
     # sys_write_all i fd sendOfflineMessagesRequest_packet
     # sys_write_all i fd (sendKeepAlive_packet (s_keep_alive_counter s))
     # status_events E (s_account s) i fd tr"

definition running :: "int \<Rightarrow> sess \<Rightarrow> sess" where
  "running h s = s\<lparr>s_keep_alive_counter := s_keep_alive_counter s + 1, s_keep_alive_timer := h\<rparr>"

definition announced :: "'b env \<Rightarrow> nat \<Rightarrow> sess \<Rightarrow> int \<Rightarrow> int \<Rightarrow> string list \<Rightarrow> 'b world \<Rightarrow> 'b world" where
  "announced E p s i fd roster w =
     (let tr = announce_events E s i fd roster (history w); h = ev_timeout_add E tr
      in edit p (running h) (w\<lparr>history := TimeoutAdd h 30 (obj_id s) # tr\<rparr>))"

lemma packets_not_Nil [simp]:
  "setStatus_packet code msg \<noteq> []" "sendKeepAlive_packet n \<noteq> []"
  "sendOfflineMessagesRequest_packet \<noteq> []" "sendGetAddRequest_packet \<noteq> []"
  by (simp_all add: setStatus_layout sendKeepAlive_layout sendOfflineMessagesRequest_layout
      sendGetAddRequest_layout command_def)

text \<open>The four packets it sends.\<close>

lemma yields_setStatus:
  assumes E: "eager E" and w: "online p acct j i fd w"
  shows "yields w (setStatus E p status msg) () (case status_code status of None \<Rightarrow> w
    | Some code \<Rightarrow> wrote i fd (setStatus_packet code (if msg = [] then status else msg)) w)"
proof (cases "status_code status")
  case None
  then show ?thesis
    using yields_assert_valid [OF w] by (simp add: setStatus_def yields_def thenM_run ret_run)
next
  case (Some code)
  then show ?thesis
    unfolding setStatus_def Let_def Some option.case
    by (intro yields_thenM [OF yields_assert_valid [OF w]] yields_sess_write [OF E w]) simp
qed

lemma yields_requests:
  assumes E: "eager E" and w: "online p acct j i fd w"
  shows "yields w (sendOfflineMessagesRequest E p) () (wrote i fd sendOfflineMessagesRequest_packet w)"
    and "yields w (sendGetAddRequest E p) () (wrote i fd sendGetAddRequest_packet w)"
  unfolding sendOfflineMessagesRequest_def sendGetAddRequest_def
  by (intro yields_thenM [OF yields_assert_valid [OF w]] yields_sess_write [OF E w]; simp)+

lemma yields_sendKeepAlive:
  assumes E: "eager E" and w: "online p acct j i fd w" and s: "sessions w p = Some s"
    and n: "s_keep_alive_counter s < int_max"
  shows "yields w (sendKeepAlive E p) () (wrote i fd (sendKeepAlive_packet (s_keep_alive_counter s))
    (edit p (\<lambda>s. s\<lparr>s_keep_alive_counter := s_keep_alive_counter s + 1\<rparr>) w))"
proof -
  let ?w = "edit p (\<lambda>s. s\<lparr>s_keep_alive_counter := s_keep_alive_counter s + 1\<rparr>) w"
  have w1: "online p acct j i fd ?w" by (rule online_edit [OF _ w]) (simp add: sess_shape_def)
  show ?thesis
    unfolding sendKeepAlive_def
    by (rule yields_thenM, rule yields_assert_valid [OF w], rule yields_bindM, rule yields_basic(5) [OF s],
        rule yields_thenM, rule yields_basic(2) [OF n], rule yields_thenM, rule yields_edit [OF w],
        rule yields_sess_write [OF E w1], simp)
qed

lemma yields_avatars:
  assumes "sessions w p = Some s"
  shows "yields w (eachM names (loadAvatar p)) () (w\<lparr>history := rev (map (avatar_fetch s) names) @ history w\<rparr>)"
  using assms
proof (induction names arbitrary: w)
  case (Cons x xs)
  have "yields w (loadAvatar p x) () (emit (avatar_fetch s x) w)"
    using Cons.prems by (simp add: yields_def loadAvatar_def exec avatar_fetch_def)
  then show ?case
    using Cons.IH [of "emit (avatar_fetch s x) w"] Cons.prems
    by (simp add: yields_def bindM_run emit_def)
qed (simp add: yields_def ret_run)

lemma yields_login_complete:
  assumes E: "eager E" and w: "online p acct j i fd w" and s: "sessions w p = Some s"
    and n: "s_keep_alive_counter s < int_max"
  shows "yields w (login_complete E p roster) () (announced E p s i fd roster w)"
proof -
  have acct: "s_account s = acct" "obj_id s = j" using w s by (auto simp: online_def)
  let ?inc = "\<lambda>s. s\<lparr>s_keep_alive_counter := s_keep_alive_counter s + 1\<rparr>"
  let ?status = "status_events E acct i fd (history w)"
  define w1 where "w1 = w\<lparr>history := ?status\<rparr>"
  define w2 where "w2 = wrote i fd (sendKeepAlive_packet (s_keep_alive_counter s)) (edit p ?inc w1)"
  define w4 where "w4 = wrote i fd sendGetAddRequest_packet (wrote i fd sendOfflineMessagesRequest_packet w2)"
  define w5 where "w5 = w4\<lparr>history := rev (map (avatar_fetch (?inc s)) roster) @ history w4\<rparr>"
  have s1: "sessions w1 p = Some s" using s by (simp add: w1_def)
  have on: "online p acct j i fd w1" "online p acct j i fd w2"
    using w online_edit [of ?inc p acct j i fd w1] by (simp_all add: w1_def w2_def sess_shape_def)
  have s4: "sessions w4 p = Some (?inc s)" "sessions w5 p = Some (?inc s)"
    by (simp_all add: w4_def w2_def w5_def s1)
  let ?id = "SAFE (ev_status_id E (history w) acct)" and ?msg = "SAFE (ev_status_message E (history w) acct)"
  have "(case status_code ?id of None \<Rightarrow> w
      | Some code \<Rightarrow> wrote i fd (setStatus_packet code (if ?msg = [] then ?id else ?msg)) w) = w1"
    by (simp add: w1_def status_events_def Let_def wrote_eq emit_def split: option.split)
  then have status: "yields w (setStatus E p ?id ?msg) () w1"
    using yields_setStatus [OF E w, of ?id ?msg] by (simp only:)
  have keep: "yields w1 (sendKeepAlive E p) () w2"
    unfolding w2_def by (rule yields_sendKeepAlive [OF E on(1) s1 n])
  have req: "yields w2 (sendOfflineMessagesRequest E p) () (wrote i fd sendOfflineMessagesRequest_packet w2)"
      "yields (wrote i fd sendOfflineMessagesRequest_packet w2) (sendGetAddRequest E p) () w4"
    unfolding w4_def using yields_requests(1) [OF E on(2)]
      yields_requests(2) [OF E, of p acct j i fd "wrote i fd sendOfflineMessagesRequest_packet w2"] on(2)
    by simp_all
  have fetch: "yields w4 (eachM roster (loadAvatar p)) () w5"
    unfolding w5_def by (rule yields_avatars [OF s4(1)])
  have fin: "yields w5 (bindM (get_sess p) (\<lambda>s. bindM (ask (ev_timeout_add E)) (\<lambda>h.
      thenM (out (TimeoutAdd h 30 (obj_id s))) (upd_sess p (\<lambda>s. s\<lparr>s_keep_alive_timer := h\<rparr>))))) ()
      (announced E p s i fd roster w)"
  proof -
    have "avatar_fetch (?inc s) = avatar_fetch s" by (rule ext) (simp add: avatar_fetch_def)
    then have h5: "history w5 = announce_events E s i fd roster (history w)"
      by (simp add: w5_def w4_def w2_def w1_def announce_events_def acct sys_write_all_def)
    have w5: "w5 = (edit p ?inc w)\<lparr>history := history w5\<rparr>"
      by (simp add: w5_def w4_def w2_def w1_def edit_def set_sess_def wrote_def emit_def)
    show ?thesis
      using s4(2) unfolding yields_def announced_def Let_def h5 [symmetric]
      by (subst w5) (simp add: s bindM_run thenM_run get_sess_run ask_run out_run upd_sess_run
        edit_def set_sess_def emit_def running_def)
  qed
  show ?thesis
    unfolding login_complete_def
    by (rule yields_bindM, rule yields_basic(5) [OF s], rule yields_bindM, rule yields_basic(3),
        rule yields_bindM, rule yields_basic(3), unfold acct, rule yields_thenM, rule status,
        rule yields_thenM, rule keep, rule yields_thenM, rule req, rule yields_thenM, rule req,
        rule yields_thenM, rule fetch, rule fin)
qed

section \<open>The whole answer\<close>

definition named :: "login_answer \<Rightarrow> sess \<Rightarrow> sess" where
  "named l s = s\<lparr>s_connection_state := 2, s_server_userId := la_userId l,
     s_server_displayname := la_displayname l, s_server_nickname := la_nickname l,
     s_session := la_session l, s_visibleIP := la_visibleIP l\<rparr>"

definition signed_on :: "login_answer \<Rightarrow> sess \<Rightarrow> sess" where
  "signed_on l s = join_all (la_groups l) (named l s)"

definition connected_events :: "nat \<Rightarrow> event list" where
  "connected_events acct = [SetConnected acct, UpdateProgress acct ''Connected'' 1 2]"

text \<open>The state in which the client announces itself, and what it comes to when nothing fails.\<close>

definition logged_on :: "'b env \<Rightarrow> nat \<Rightarrow> sess \<Rightarrow> login_answer \<Rightarrow> 'b world \<Rightarrow> 'b world" where
  "logged_on E p s l w = (edit p (signed_on l) w)
     \<lparr>history := roster_events E (s_account s) (la_groups l) (connected_events (s_account s) @ history w)\<rparr>"

definition accepted :: "'b env \<Rightarrow> nat \<Rightarrow> sess \<Rightarrow> int \<Rightarrow> int \<Rightarrow> login_answer \<Rightarrow> 'b world \<Rightarrow> 'b world" where
  "accepted E p s i fd l w =
     announced E p (signed_on l s) i fd (map fst (la_roster l)) (logged_on E p s l w)"

lemma online_logged_on:
  "online p acct j i fd w \<Longrightarrow> online p acct j i fd (logged_on E p s l w)"
  using online_edit [of "signed_on l" p acct j i fd w]
  by (simp add: logged_on_def signed_on_def join_all_def named_def sess_shape_def)

lemma edit_edit: "edit p f (edit p g w) = edit p (\<lambda>s. f (g s)) w"
  by (simp add: edit_def option.map_comp comp_def)

lemma ends_login_accepted:
  assumes w: "online p acct j i fd w" and s: "sessions w p = Some s" and l: "login_ok l"
    and fin: "login_complete E p (map fst (la_roster l)) (logged_on E p s l w) = Some (x, w')"
  shows "ends (drop 4 (login_body l)) w (login_accepted E p) x w'"
proof -
  have acct: "s_account s = acct" using w s by (auto simp: online_def)
  have c: "cint (la_code1 l)" "cint (la_code2 l)" "cint (la_code3 l)" and six: "length (la_skipped l) = 6"
    using l by (simp_all add: login_ok_def)
  let ?g1 = "\<lambda>s. s\<lparr>s_connection_state := 2\<rparr> :: sess"
  let ?g2 = "\<lambda>s. s\<lparr>s_server_userId := la_userId l, s_server_displayname := la_displayname l,
    s_server_nickname := la_nickname l\<rparr> :: sess"
  let ?g3 = "\<lambda>s. s\<lparr>s_session := la_session l\<rparr> :: sess"
  let ?g4 = "\<lambda>s. s\<lparr>s_visibleIP := la_visibleIP l\<rparr> :: sess"
  define w1 w2 w3 w4 where "w1 = edit p ?g1 w" and "w2 = edit p ?g2 w1" and "w3 = edit p ?g3 w2"
    and "w4 = edit p ?g4 w3"
  define w6 where "w6 = emit (SetConnected acct) (emit (UpdateProgress acct ''Connected'' 1 2) w4)"
  define w7 where "w7 = (edit p (join_all (la_groups l)) w6)
    \<lparr>history := roster_events E acct (la_groups l) (history w6)\<rparr>"
  have on1: "online p acct j i fd w1" unfolding w1_def by (rule online_edit [OF _ w]) (simp add: sess_shape_def)
  have on2: "online p acct j i fd w2" unfolding w2_def by (rule online_edit [OF _ on1]) (simp add: sess_shape_def)
  have on3: "online p acct j i fd w3" unfolding w3_def by (rule online_edit [OF _ on2]) (simp add: sess_shape_def)
  have on4: "online p acct j i fd w4" unfolding w4_def by (rule online_edit [OF _ on3]) (simp add: sess_shape_def)
  have on6: "online p acct j i fd w6" by (simp add: w6_def on4)
  note up = yields_edit [OF w, of ?g1, folded w1_def] yields_edit [OF on1, of ?g2, folded w2_def]
    yields_edit [OF on2, of ?g3, folded w3_def] yields_edit [OF on3, of ?g4, folded w4_def]
  obtain s4 where s4: "sessions w4 p = Some s4" "s_account s4 = acct" using on4 by (rule onlineE)
  have w4: "w4 = edit p (named l) w"
    by (simp add: w4_def w3_def w2_def w1_def edit_edit named_def [abs_def])
  have w7: "w7 = logged_on E p s l w"
    unfolding w7_def w6_def w4 logged_on_def
    by (simp add: acct connected_events_def signed_on_def edit_def set_sess_def emit_def s)
  have skip: "eats (la_skipped l @ put_string (la_session l) @ r) u (onL (seek 6)) () (put_string (la_session l) @ r) u"
    for r and u :: "'a world"
    using eats_seek [of "put_string (la_session l) @ r" "la_skipped l" u] by (simp add: six)
  have d: "drop 4 (login_body l) = put_string (la_userId l) @ put_string (la_displayname l) @ put_string (la_nickname l)
     @ intToDWord (la_code1 l) @ intToDWord (la_code2 l) @ put_items put_pair (la_props l)
     @ put_lists l @ la_skipped l @ put_string (la_session l) @ put_string (la_visibleIP l)
     @ intToDWord (la_code3 l) @ la_code4 l #
       put_string (la_unknown l) @ put_string (la_code6 l) @ put_string (la_code7 l)
     @ put_items put_group (la_groups l) @ put_string (la_id l)"
    by (simp add: login_body_def intToDWord_def)
  show ?thesis
    unfolding login_accepted_def d
    by (rule ends_thenM, rule eats_onR, rule up,
        (rule ends_bindM, rule eats_string(1))+, rule ends_thenM, rule eats_onR, rule up,
        rule ends_bindM, rule eats_int(1), rule c, rule ends_bindM, rule eats_int(1), rule c,
        rule ends_bindM, rule eats_count(1), simp, rule ends_thenM, rule eats_pairs, rule ends_bindM, rule eats_read_contact_lists [OF l], rule ends_thenM, rule skip,
        rule ends_bindM, rule eats_string(1), rule ends_thenM, rule eats_onR, rule up,
        rule ends_bindM, rule eats_string(1), rule ends_thenM, rule eats_onR, rule up,
        rule ends_bindM, rule eats_int(1), rule c, rule ends_bindM, rule eats_readByte,
        (rule ends_bindM, rule eats_string(1))+,
        rule ends_bindM, rule eats_count(1), simp,
        rule ends_bindM, rule eats_onR, rule yields_basic(5) [OF s4(1)], unfold s4(2),
        rule ends_thenM, rule eats_onR, rule yields_basic, rule ends_thenM, rule eats_onR, rule yields_basic,
        fold w6_def, rule ends_thenM, rule eats_groups [OF on6], fold w7_def,
        rule ends_bindM, rule eats_string(2), rule ends_onR, unfold w7, rule fin)
qed

text \<open>The answer is only looked at while the session is not logged in.\<close>

lemma ends_login_response:
  assumes s: "sessions w p = Some s" "\<not> invalid s" "s_connection_state s < 2" and n: "cint code"
    and body: "ends t w (if code \<noteq> 0 then onR (login_failed E p code) else login_accepted E p) x w'"
  shows "ends (intToDWord 1 @ intToDWord 0 @ put_string (intToDWord code @ t)) w (parseCSResponse E p) x w'"
proof (rule ends_type1 [OF s(1,2)])
  let ?b = "intToDWord code @ t"
  have st: "\<not> 2 \<le> s_connection_state s" using s(3) by simp
  have len: "eats (put_string ?b) w (onL readInt) (len ?b) ?b w"
    using eats_length [of ?b "[]" w] by simp
  have "ends (put_string ?b) w (parseCSLoginResponse E p) x w'"
    unfolding parseCSLoginResponse_def
    by (rule ends_bindM, rule eats_onR, rule yields_basic(5) [OF s(1)], unfold if_not_P [OF st],
        rule ends_bindM, rule len, rule ends_bindM, rule eats_left, rule ends_thenM, rule eats_ensure,
        simp, rule ends_bindM, rule eats_int(1), rule n, rule body)
  then show "ends (put_string ?b) w
     (if (0::int) = 0 \<and> s_connection_state s < 2 then on_copy (parseCSLoginResponse E p)
      else if 0 = (1::int) \<or> 0 = (0::int) then parseOfflineMessages E p
      else if 0 = (2::int) then parseOfflineAddContactResponse p
      else if 0 = (7::int) then parseChatRoomsResponse p
      else if 0 = (14::int) then parseGetContactIdResponse else skip_payload) x w'"
    using s(3) by (simp add: ends_on_copy)
qed (simp_all add: cint_def)

lemma ends_login:
  assumes w: "online p acct j i fd w" and s: "sessions w p = Some s"
    and state: "s_connection_state s < 2" and l: "login_ok l"
    and fin: "login_complete E p (map fst (la_roster l)) (logged_on E p s l w) = Some (x, w')"
  shows "ends (intToDWord 1 @ intToDWord 0 @ put_string (login_body l)) w (parseCSResponse E p) x w'"
proof -
  have v: "\<not> invalid s" using w s by (auto simp: online_def)
  have b: "login_body l = intToDWord 0 @ drop 4 (login_body l)"
    by (simp add: login_body_def intToDWord_def)
  show ?thesis
    by (subst b, rule ends_login_response [OF s v state])
      (use ends_login_accepted [OF w s l fin] in \<open>simp_all add: cint_def\<close>)
qed

text \<open>When the network takes what it is given, the client ends up connected.\<close>

lemma login_complete_accepted:
  assumes E: "eager E" and w: "online p acct j i fd w" and s: "sessions w p = Some s"
    and n: "s_keep_alive_counter s < int_max"
  shows "login_complete E p (map fst (la_roster l)) (logged_on E p s l w) = Some (Ok (), accepted E p s i fd l w)"
proof -
  have "sessions (logged_on E p s l w) p = Some (signed_on l s)" by (simp add: logged_on_def s)
  moreover have "s_keep_alive_counter (signed_on l s) < int_max"
    using n by (simp add: signed_on_def join_all_def named_def)
  ultimately show ?thesis
    using yields_login_complete [OF E online_logged_on [OF w]] unfolding yields_def accepted_def by blast
qed

section \<open>A refusal\<close>

definition refusal :: "int \<Rightarrow> reason \<times> string" where
  "refusal code = (if code = 1 then (AuthenticationFailed, ''Authentication failed'')
     else (NetworkError, ''CS Login error '' @ dec_of_int code @ [CHR 0x0A]))"

lemma ends_login_refused:
  assumes w: "sound E w" and s: "sessions w p = Some s" "\<not> invalid s" "s_connection_state s < 2"
    and code: "cint code" "code \<noteq> 0"
  obtains w' s' tr where "ends (intToDWord 1 @ intToDWord 0 @ put_string (intToDWord code @ t)) w
      (parseCSResponse E p) (Ok ()) w'"
    and "sessions w' p = Some s'" and "invalid s'" and "s_connection s' = None"
    and "history w' = ConnectionError (s_account s) (fst (refusal code))
      (c_str (snd (refusal code) @ [CHR 0x0A])) # tr"
    and "\<And>a. s_connection s = Some a \<Longrightarrow> conns w' a = None"
proof -
  obtain w' s' tr where e: "setStateNetworkError E p (fst (refusal code)) (snd (refusal code)) w = Some (Ok (), w')"
    and w': "sessions w' p = Some s'" "invalid s'" "s_connection s' = None"
    "history w' = ConnectionError (s_account s) (fst (refusal code)) (c_str (snd (refusal code) @ [CHR 0x0A])) # tr"
    "\<And>a. s_connection s = Some a \<Longrightarrow> conns w' a = None"
    by (rule setStateNetworkError_ends [OF w s(1,2)]) blast
  have "login_failed E p code w = Some (Ok (), w')"
    using e by (simp add: login_failed_def refusal_def split: if_splits)
  then have "ends t w (if code \<noteq> 0 then onR (login_failed E p code) else login_accepted E p) (Ok ()) w'"
    using code(2) by (simp add: ends_onR)
  then show ?thesis using that [OF ends_login_response [OF s code(1)]] w' by blast
qed

end
