(* ===== verification/Rooms.thy ===== *)
theory Rooms
  imports Online
begin

text \<open>
  The list of chat rooms: each lobby names a room and gives the number of people in
  each of its copies.  libpurple is told of a room once for the lobby and once for
  every copy.
\<close>

section \<open>The packet\<close>

record room_lobby =
  rl_name :: string
  rl_code :: int
  rl_room :: string
  rl_copies :: "(int \<times> int) list"   \<comment> \<open>number and occupants\<close>

definition put_copy :: "int \<times> int \<Rightarrow> string" where
  "put_copy x = intToDWord (fst x) @ intToDWord (snd x)"

definition put_lobby :: "room_lobby \<Rightarrow> string" where
  "put_lobby l = put_string (rl_name l) @ intToDWord (rl_code l) @ put_string (rl_room l)
     @ put_items put_copy (rl_copies l)"

definition people :: "room_lobby \<Rightarrow> int" where
  "people l = sum_list (map snd (rl_copies l))"

definition lobbies_ok :: "room_lobby list \<Rightarrow> bool" where
  "lobbies_ok ls \<longleftrightarrow> list_all (\<lambda>l. cint (rl_code l)
       \<and> list_all (\<lambda>x. cint (fst x) \<and> 0 \<le> snd x) (rl_copies l)) ls
     \<and> sum_list (map people ls) < 2 ^ 31"

definition room_event :: "int \<Rightarrow> room_lobby \<Rightarrow> event" where
  "room_event rl l = RoomlistAddRoom rl (c_str (rl_room l)) [c_str (rl_room l), c_str (rl_room l)]"

definition lobby_events :: "int \<Rightarrow> room_lobby \<Rightarrow> event list" where
  "lobby_events rl l = replicate (Suc (length (rl_copies l))) (room_event rl l)"

section \<open>One lobby\<close>

lemma yields_add_room:
  assumes "sessions w p = Some s" and "s_roomlist s = Roomlist rl"
  shows "yields w (add_room p (rl_room l)) () (emit (room_event rl l) w)"
  using assms by (simp add: yields_def add_room_def roomlist_handle_def exec room_event_def)

definition add_copy :: "int \<Rightarrow> room_lobby \<Rightarrow> int \<times> int \<Rightarrow> lobby \<times> 'b world \<Rightarrow> lobby \<times> 'b world" where
  "add_copy rl l x a = ((fst a)\<lparr>cr_occupants := cr_occupants (fst a) + snd x, lb_subrooms := lb_subrooms (fst a)
     @ [\<lparr>cr_number = fst x, cr_occupants = snd x, cr_name = rl_room l\<rparr>]\<rparr>, emit (room_event rl l) (snd a))"

lemma fold_add_copy:
  "cr_occupants (fst (fold (add_copy rl l) xs a)) = cr_occupants (fst a) + sum_list (map snd xs)"
  "snd (fold (add_copy rl l) xs a)
     = (snd a)\<lparr>history := replicate (length xs) (room_event rl l) @ history (snd a)\<rparr>"
  by (induction xs arbitrary: a) (simp_all add: add_copy_def emit_def replicate_app_Cons_same)

lemma sum_prefix:
  fixes f :: "'x \<Rightarrow> int"
  assumes "xs = ys @ x # zs" and "\<And>y. y \<in> set xs \<Longrightarrow> 0 \<le> f y"
  shows "0 \<le> sum_list (map f ys)" and "sum_list (map f ys) + f x \<le> sum_list (map f xs)"
proof -
  have "0 \<le> sum_list (map f us)" if "set us \<subseteq> set xs" for us
    using that assms(2) by (intro sum_list_nonneg) auto
  from this [of ys] this [of zs] show "0 \<le> sum_list (map f ys)"
    and "sum_list (map f ys) + f x \<le> sum_list (map f xs)"
    by (auto simp: assms(1))
qed

lemma eats_copy:
  assumes s: "sessions w p = Some s" "s_roomlist s = Roomlist rl"
    and n: "cint (fst x)" "cint (snd x)" "cint (cr_occupants a + snd x)"
  shows "eats (put_copy x @ r) w (read_room p (rl_room l) a) (fst (add_copy rl l x (a, w))) r
      (snd (add_copy rl l x (a, w)))"
  unfolding read_room_def put_copy_def append_assoc add_copy_def fst_conv snd_conv
  by (rule eats_rules yields_add_room [OF s] n)+

lemma eats_copies:
  assumes s: "sessions w p = Some s" "s_roomlist s = Roomlist rl"
    and xs: "list_all (\<lambda>x. cint (fst x) \<and> 0 \<le> snd x) xs" "sum_list (map snd xs) < 2 ^ 31"
    and a: "cr_occupants a = 0"
  shows "eats (concat (map put_copy xs) @ r) w (forM (int (length xs)) (read_room p (rl_room l)) a)
    (fst (fold (add_copy rl l) xs (a, w))) r (snd (fold (add_copy rl l) xs (a, w)))"
proof (rule eats_forM_at)
  fix ys x zs r assume split: "xs = ys @ x # zs"
  let ?a = "fst (fold (add_copy rl l) ys (a, w))" and ?w = "snd (fold (add_copy rl l) ys (a, w))"
  have nonneg: "\<And>y. y \<in> set xs \<Longrightarrow> 0 \<le> snd y" using xs(1) by (auto simp: list_all_iff)
  have x: "cint (fst x)" "0 \<le> snd x" using xs(1) split by simp_all
  then have n: "cint (snd x)" "cint (cr_occupants ?a + snd x)"
    using sum_prefix [where f = snd, OF split nonneg] xs(2) a by (simp_all add: fold_add_copy cint_def)
  have "sessions ?w p = Some s" using s(1) by (simp add: fold_add_copy)
  from eats_copy [OF this s(2) x(1) n, of r l]
  show "eats (put_copy x @ r) ?w (read_room p (rl_room l) ?a)
      (fst (fold (add_copy rl l) (ys @ [x]) (a, w))) r (snd (fold (add_copy rl l) (ys @ [x]) (a, w)))"
    by simp
qed

definition new_lobby :: "room_lobby \<Rightarrow> lobby" where
  "new_lobby l = \<lparr>cr_number = 0, cr_occupants = 0, cr_name = rl_name l, lb_subrooms = []\<rparr>"

definition add_lobby :: "int \<Rightarrow> room_lobby \<Rightarrow> (lobby list \<times> int) \<times> 'b world \<Rightarrow> (lobby list \<times> int) \<times> 'b world" where
  "add_lobby rl l a =
     (let b = fold (add_copy rl l) (rl_copies l) (new_lobby l, emit (room_event rl l) (snd a))
      in ((fst (fst a) @ [fst b], snd (fst a) + cr_occupants (fst b)), snd b))"

lemma add_lobby_effect:
  "snd (fst (add_lobby rl l a)) = snd (fst a) + people l"
  "snd (add_lobby rl l a) = (snd a)\<lparr>history := lobby_events rl l @ history (snd a)\<rparr>"
  by (simp_all add: add_lobby_def Let_def fold_add_copy new_lobby_def people_def lobby_events_def
      emit_def replicate_app_Cons_same)

lemma fold_add_lobby:
  "snd (fst (fold (add_lobby rl) ls a)) = snd (fst a) + sum_list (map people ls)"
  "snd (fold (add_lobby rl) ls a)
     = (snd a)\<lparr>history := concat (map (lobby_events rl) (rev ls)) @ history (snd a)\<rparr>"
  by (induction ls arbitrary: a) (simp_all add: add_lobby_effect)

lemma put_room_not_Nil [simp]: "put_copy x \<noteq> []" "put_lobby l \<noteq> []"
  by (simp_all add: put_copy_def put_lobby_def)

lemma eats_lobby:
  assumes s: "sessions w p = Some s" "s_roomlist s = Roomlist rl"
    and l: "cint (rl_code l)" "list_all (\<lambda>x. cint (fst x) \<and> 0 \<le> snd x) (rl_copies l)"
      "people l < 2 ^ 31" "cint (snd a + people l)"
  shows "eats (put_lobby l @ r) w (read_lobby p a) (fst (add_lobby rl l (a, w))) r
      (snd (add_lobby rl l (a, w)))"
proof -
  let ?w1 = "emit (room_event rl l) w"
  let ?b = "fold (add_copy rl l) (rl_copies l) (new_lobby l, ?w1)"
  have "cr_occupants (fst ?b) = people l" by (simp add: fold_add_copy new_lobby_def people_def)
  then have total: "cint (snd a + cr_occupants (fst ?b))" using l(4) by simp
  have "sessions ?w1 p = Some s" using s(1) by simp
  note copies = eats_copies [OF this s(2) l(2) l(3) [unfolded people_def], of "new_lobby l" r]
  show ?thesis
    unfolding read_lobby_def put_lobby_def append_assoc add_lobby_def fst_conv snd_conv Let_def
    by (rule eats_bindM, rule eats_string, rule eats_bindM, rule eats_int(1), rule l,
        rule eats_bindM, rule eats_string, rule eats_bindM, rule eats_count(1), simp,
        rule eats_thenM, rule eats_onR, rule yields_add_room [OF s], rule eats_bindM, fold new_lobby_def,
        rule copies, simp add: new_lobby_def, rule eats_thenM, rule eats_ensure, rule total, rule eats_ret)
qed

lemma eats_lobbies:
  assumes s: "sessions w p = Some s" "s_roomlist s = Roomlist rl" and ls: "lobbies_ok ls"
  shows "eats (concat (map put_lobby ls) @ r) w (forM (int (length ls)) (read_lobby p) ([], 0))
    (fst (fold (add_lobby rl) ls (([], 0), w))) r (snd (fold (add_lobby rl) ls (([], 0), w)))"
proof (rule eats_forM_at)
  fix ys l zs r assume split: "ls = ys @ l # zs"
  let ?a = "fst (fold (add_lobby rl) ys (([], 0), w))" and ?w = "snd (fold (add_lobby rl) ys (([], 0), w))"
  have nonneg: "0 \<le> people l" if "l \<in> set ls" for l
    using ls that by (fastforce simp: lobbies_ok_def list_all_iff people_def intro!: sum_list_nonneg)
  have l: "cint (rl_code l)" "list_all (\<lambda>x. cint (fst x) \<and> 0 \<le> snd x) (rl_copies l)" "0 \<le> people l"
    using ls split nonneg by (simp_all add: lobbies_ok_def)
  have sum: "sum_list (map people ls) < 2 ^ 31" using ls by (simp add: lobbies_ok_def)
  note below = sum_prefix [where f = people, OF split nonneg]
  have n: "people l < 2 ^ 31" "cint (snd ?a + people l)"
    using below sum l(3) by (simp_all add: fold_add_lobby cint_def)
  have "sessions ?w p = Some s" using s(1) by (simp add: fold_add_lobby)
  from eats_lobby [OF this s(2) l(1,2) n, of r]
  show "eats (put_lobby l @ r) ?w (read_lobby p ?a)
      (fst (fold (add_lobby rl) (ys @ [l]) (([], 0), w))) r (snd (fold (add_lobby rl) (ys @ [l]) (([], 0), w)))"
    by simp
qed

section \<open>The whole list\<close>

definition listed_rooms :: "int \<Rightarrow> room_lobby list \<Rightarrow> event list" where
  "listed_rooms rl ls = RoomlistInProgress rl False # concat (map (lobby_events rl) (rev ls))"

lemma ends_chat_rooms:
  assumes s: "sessions w p = Some s" "\<not> invalid s" "s_roomlist s = Roomlist rl" and ls: "lobbies_ok ls"
  shows "ends (intToDWord 1 @ intToDWord 7 @ put_string (put_items put_lobby ls)) w
    (parseCSResponse E p) (Ok ()) (w\<lparr>history := listed_rooms rl ls @ history w\<rparr>)"
proof -
  let ?w = "snd (fold (add_lobby rl) ls (([], 0), w))"
  have n: "eats (put_items put_lobby ls) w (onL readInt) (int (length ls)) (concat (map put_lobby ls) @ []) w"
    using eats_count(1) [of put_lobby ls "[]" w] by simp
  have finish: "yields ?w (bindM (roomlist_handle p) (\<lambda>rl. out (RoomlistInProgress rl False))) ()
      (w\<lparr>history := listed_rooms rl ls @ history w\<rparr>)"
    using s by (simp add: yields_def roomlist_handle_def exec fold_add_lobby emit_def listed_rooms_def)
  have "eats (put_string (put_items put_lobby ls)) w (parseChatRoomsResponse p) () []
      (w\<lparr>history := listed_rooms rl ls @ history w\<rparr>)"
    unfolding parseChatRoomsResponse_def
    by (rule eats_enter, rule eats_bindM, rule n, rule eats_bindM, rule eats_lobbies [OF s(1,3) ls],
        rule eats_onR, rule finish)
  note ends_eats [OF this]
  then show ?thesis
    by (intro ends_type1 [OF s(1,2)]) (simp_all add: cint_def put_items_def)
qed

end
