(* ===== verification/Faults.thy ===== *)
theory Faults
  imports Login
begin

text \<open>
  A write that fails ends the session: the connection is deleted.  A caller that goes on
  sending as if nothing had happened then uses what is gone.
\<close>

section \<open>A write fails\<close>

definition write_fails :: "'b env \<Rightarrow> event list \<Rightarrow> int \<Rightarrow> string \<Rightarrow> bool" where
  "write_fails E tr fd d \<longleftrightarrow> (let (r, eagain) = ne_write E tr fd d in r \<le> 0 \<and> \<not> (r < 0 \<and> eagain))"

definition ended :: "nat \<Rightarrow> 'b world \<Rightarrow> bool" where
  "ended p w \<longleftrightarrow> (\<exists>s. sessions w p = Some s \<and> invalid s \<and> s_connection s = None)"

lemma sess_write_fails:
  assumes w: "sound E w" and p: "online p acct j i fd w" and bad: "write_fails E (history w) fd d"
  shows "\<exists>w'. sess_write E p d w = Some (Ok (), w') \<and> ended p w'"
proof -
  obtain s a c where s: "sessions w p = Some s" "s_connection s = Some a" "\<not> invalid s"
    and c: "conns w a = Some c" "\<not> invalid c" "c_tx c = 0" "c_fd c = Some fd"
    using p by (auto simp: online_def)
  let ?w = "emit (SysWrite (obj_id c) fd d (fst (ne_write E (history w) fd d))) w"
  let ?t = "?w\<lparr>conns := (conns ?w)(a \<mapsto> closed E c fd (history ?w)),
      history := closing_history E c fd (history ?w)\<rparr>"
  have w1: "sound E ?w" by (rule sound_emit [OF w]) simp
  have c1: "conns ?w a = Some c" using c by simp
  have close: "conn_close E a ?w = Some (Ok (), ?t)" by (rule conn_close_run [OF c1 c(4)])
  have t: "sound E ?t"
    using good_close [OF conjunct1 [OF w1] close] validD_Ok [OF opened_conn_close _ close] w1 by simp
  have st: "sessions ?t p = Some s" using s(1) by simp
  obtain w' s' where e: "setStateNetworkError E p NetworkError ''Failed reading through socket'' ?t
      = Some (Ok (), w')" "sessions w' p = Some s'" "invalid s'" "s_connection s' = None"
    by (rule setStateNetworkError_ends [OF t st s(3)]) blast
  have o: "owned w" using w by (simp add: own_def)
  have h: "c_handler_id c = obj_id s" "id_map w (obj_id s) = Some p"
    using owned_connected [OF o s(1,2)] owned_session(1) [OF o s(1)] c(1) by auto
  have "if_HANDLER a (\<lambda>p. readError E p a) ?t = readError E p a ?t"
    using h by (simp add: if_HANDLER_run closed_def)
  also have "\<dots> = Some (Ok (), w')"
    using e(1) st s(3) by (simp add: readError_def thenM_run assert_valid_run)
  finally have "sess_write E p d w = Some (Ok (), w')"
    using s c bad close
    by (simp add: sess_write_def conn_write_def sys_write_def bindM_run thenM_run the_connection_run
        get_conn_run isInvalid_def fd_of_run ask_run out_run ret_run write_fails_def split_beta)
  then show ?thesis using e by (auto simp: ended_def)
qed

section \<open>What the next send does\<close>

lemma ended_asserts:
  "ended p w \<Longrightarrow> sendKeepAlive E p w = Some (Throw AssertFail, w)"
  "ended p w \<Longrightarrow> deleteOfflineMessage E p m w = Some (Throw AssertFail, w)"
  by (auto simp: ended_def sendKeepAlive_def deleteOfflineMessage_def thenM_run assert_valid_run)

lemma ended_write: "ended p w \<Longrightarrow> sess_write E p d w = Some (Throw (Undef NullDeref), w)"
  by (auto simp: ended_def sess_write_def bindM_run the_connection_run)

text \<open>Logging in: the first packet fails, and the assertion of the second aborts.\<close>

lemma login_complete_aborts:
  assumes w: "sound E w" and p: "online p acct j i fd w"
    and status: "ev_status_id E (history w) acct = Some status" "status_code status = Some code"
    and msg: "msg = SAFE (ev_status_message E (history w) acct)"
    and bad: "write_fails E (history w) fd (setStatus_packet code (if msg = [] then status else msg))"
  shows "\<exists>w'. login_complete E p roster w = Some (Throw AssertFail, w') \<and> ended p w'"
proof -
  obtain s where s: "sessions w p = Some s" "s_account s = acct" "\<not> invalid s" using p by (rule onlineE)
  obtain w' where w': "sess_write E p (setStatus_packet code (if msg = [] then status else msg)) w
      = Some (Ok (), w')" "ended p w'"
    using sess_write_fails [OF w p bad] by blast
  then have "setStatus E p status msg w = Some (Ok (), w')"
    using s status(2) by (simp add: setStatus_def thenM_run assert_valid_run Let_def)
  then show ?thesis
    using s status(1) msg w'(2) ended_asserts(1) [OF w'(2)]
    by (simp add: login_complete_def bindM_run thenM_run get_sess_run ask_run SAFE_def [of "Some status"])
qed

text \<open>What the client has told libpurple by then keeps the invariants.\<close>

lemma sound_note:
  "sound E (w\<lparr>history := tr\<rparr>) \<Longrightarrow> plain e \<Longrightarrow> sound E (w\<lparr>history := e # tr\<rparr>)"
  using sound_emit [where E = E and w = "w\<lparr>history := tr\<rparr>" and e = e] by (simp add: emit_def)

lemma plain_login [simp]:
  "plain (SetConnected acct)" "plain (UpdateProgress acct m i n)" "plain (NewGroup g)" "plain (AddBuddy acct b g)"
  by (simp_all add: plain_def)

lemma sound_roster_events:
  assumes "sound E (w\<lparr>history := tr\<rparr>)"
  shows "sound E (w\<lparr>history := roster_events E acct gs tr\<rparr>)"
proof -
  define ok where "ok = (\<lambda>tr. sound E (w\<lparr>history := tr\<rparr>))"
  have cons: "ok tr \<Longrightarrow> plain e \<Longrightarrow> ok (e # tr)" for e tr unfolding ok_def by (rule sound_note)
  have member: "ok tr \<Longrightarrow> ok (member_events E acct g m tr)" for g m tr
    by (simp add: member_events_def cons)
  have members: "ok tr \<Longrightarrow> ok (fold (member_events E acct g) ms tr)" for g ms tr
    by (induction ms arbitrary: tr) (simp_all add: member)
  have "ok tr \<Longrightarrow> ok (roster_events E acct gs tr)"
    unfolding roster_events_def by (induction gs arbitrary: tr) (simp_all add: group_events_def members)
  then show ?thesis using assms by (simp only: ok_def)
qed

lemma sound_logged_on:
  assumes w: "sound E w" and s: "sessions w p = Some s"
  shows "sound E (logged_on E p s l w)"
proof -
  have shape: "sess_shape (signed_on l s) = sess_shape s \<and> s_roomlist (signed_on l s) = s_roomlist s" for s
    by (simp add: signed_on_def join_all_def named_def sess_shape_def)
  have "upd_sess p (signed_on l) w = Some (Ok (), edit p (signed_on l) w)"
    using s by (simp add: upd_sess_run edit_def)
  then have "sound E (edit p (signed_on l) w)"
    using validD_Ok [OF both.I_upd_sess w] shape by blast
  moreover have "(edit p (signed_on l) w)\<lparr>history := history w\<rparr> = edit p (signed_on l) w"
    by (cases w) (simp add: edit_def set_sess_def)
  ultimately have "sound E ((edit p (signed_on l) w)\<lparr>history := connected_events (s_account s) @ history w\<rparr>)"
    unfolding connected_events_def append.simps
    by (intro sound_note plain_login) (simp only:)
  then show ?thesis unfolding logged_on_def by (rule sound_roster_events)
qed

text \<open>Adding a buddy to a new group: the first packet fails, and the second goes through a
  null pointer.\<close>

lemma sendAddContactRequest_null:
  assumes w: "sound E w" and p: "online p acct j i fd w" and s: "sessions w p = Some s" "grp \<notin> s_groups s"
    and bad: "write_fails E (history w) fd
      (sendAddRemoveGroupRequest_packet False (fixEmail (SAFE (ev_username E acct))) grp)"
  shows "\<exists>w'. sendAddContactRequest E p who grp w = Some (Throw (Undef NullDeref), w') \<and> ended p w'"
proof -
  have acct: "s_account s = acct" using p s by (auto simp: online_def)
  obtain w' where w': "sess_write E p (sendAddRemoveGroupRequest_packet False
      (fixEmail (SAFE (ev_username E acct))) grp) w = Some (Ok (), w')" "ended p w'"
    using sess_write_fails [OF w p bad] by blast
  then show ?thesis
    using s ended_write [OF w'(2)] acct
    by (simp add: sendAddContactRequest_def sendAddRemoveGroupRequest_def bindM_run thenM_run whenM_run
        get_sess_run Let_def)
qed

text \<open>An answer to a request to be added, after the session is gone.\<close>

lemma gone_answers:
  assumes "sessions w (ar_conn ar) = None"
  shows "contact_add_request_authorize_cb E ar w = Some (Throw (Undef UseAfterFree), w)"
    and "contact_add_request_deny_cb E ar w = Some (Throw (Undef UseAfterFree), w)"
  using assms by (simp_all add: contact_add_request_authorize_cb_def contact_add_request_deny_cb_def
      sendAcceptAddRequest_def sendDenyAddRequest_def sess_write_def thenM_run bindM_run
      assert_valid_run the_connection_run)

end
