(* ===== verification/SessionSpec.thy ===== *)
theory SessionSpec
  imports DemoChat Deliveries Login Rooms Faults
begin

text \<open>
  What a session that is connected to the chat server does with what the server sends,
  and what happens to it when a write fails.  In each property the bytes that \<open>arrives\<close> speaks
  of complete one packet, of which any part may have come before; the bytes \<open>t\<close> after it are
  the beginning of the next and are kept.
\<close>

section \<open>A demo connection\<close>

lemma peer_eager: "eager (peer_env d)"
  by (simp add: eager_def peer_sel)

lemma chatting_arrives:
  assumes "length (put_string frame) < 2 ^ 31" and "lets_in refuse"
  obtains c where "arrives (picky_env refuse (put_string frame)) (chatting_in refuse (put_string frame)) 2 c 8 frame []"
    and "c_tx c = 0" and "c_fd c = Some 8" and "obj_id c = 2"
proof -
  obtain c where "conns (chatting_in refuse (put_string frame)) 2 = Some c" "\<not> invalid c"
    "c_parse_mode c = 0" "c_awaiting c = MessageBuffer []" "obj_id c = 2" "c_tx c = 0" "c_fd c = Some 8"
    using chatting_state(3) [OF assms(2)] by blast
  then show ?thesis using that assms partial_Nil by (simp add: arrives_def peer_sel chatting_read)
qed

lemmas demo_arrives = chatting_arrives [OF _ lets_in_all]

lemma demo_owner: "sessions (demo_chatting d) 0 = Some chat_session" "s_connection chat_session = Some 2"
  by (simp_all add: demo_chatting_state(4))

section \<open>The answer to the login\<close>

text \<open>C7.  Logged in: when the server accepts the login and the network takes what it is given, the
  session keeps the names, the session string and the address it is told, knows the
  groups, and runs its keep-alive timer; libpurple is told that the account is connected
  and gets every contact it does not know, with its group; then the client sends its
  status, the first keep-alive, and the requests for stored messages and for requests to
  be added, and fetches the pictures of its contacts.\<close>

theorem login_answer_accepted:
  assumes "reachable E w" and "fresh_handles E" and "eager E"
    and arr: "arrives E w a c fd (intToDWord 1 @ intToDWord 0 @ put_string (login_body l)) t"
    and l: "login_ok l" and idle: "c_tx c = 0" "c_fd c = Some cfd"
    and s: "sessions w p = Some s" "s_connection s = Some a"
    and fresh: "s_connection_state s < 2" "s_keep_alive_counter s < int_max"
  shows "\<exists>w' s' h. run_callback E (Readable (obj_id c) fd) w = Some (Ok (), w')
    \<and> sessions w' = (sessions w)(p \<mapsto> s') \<and> conns w' = (conns w)(a \<mapsto> c\<lparr>c_awaiting := MessageBuffer t\<rparr>)
    \<and> s' = s\<lparr>s_connection_state := 2, s_server_userId := la_userId l,
        s_server_displayname := la_displayname l, s_server_nickname := la_nickname l,
        s_session := la_session l, s_visibleIP := la_visibleIP l,
        s_groups := set (map lg_key (la_groups l)) \<union> s_groups s,
        s_keep_alive_counter := s_keep_alive_counter s + 1, s_keep_alive_timer := h\<rparr>
    \<and> history w' = TimeoutAdd h 30 (obj_id s) # rev (map (avatar_fetch s') (map fst (la_roster l)))
        @ map (sys_write_all (obj_id c) cfd)
            [sendGetAddRequest_packet, sendOfflineMessagesRequest_packet,
             sendKeepAlive_packet (s_keep_alive_counter s)]
        @ status_events E (s_account s) (obj_id c) cfd
            (roster_events E (s_account s) (la_groups l)
              (SetConnected (s_account s) # UpdateProgress (s_account s) ''Connected'' 1 2
                # SysRead (obj_id c) fd # history w))"
proof -
  note w = reachable_sound [OF assms(1,2)]
  let ?w = "taken a c fd t w"
  have v: "\<not> invalid s" by (rule session_valid [OF w s])
  have on: "online p (s_account s) (obj_id s) (obj_id c) cfd ?w"
    using arrives_online [OF arr idle s v] by simp
  have s1: "sessions ?w p = Some s" using s(1) by simp
  let ?w' = "accepted E p s (obj_id c) cfd l ?w"
  define h where "h = ev_timeout_add E (announce_events E (signed_on l s) (obj_id c) cfd (map fst (la_roster l))
    (roster_events E (s_account s) (la_groups l) (connected_events (s_account s) @ history ?w)))"
  let ?s' = "running h (signed_on l s)"
  have conn: "s_connection ?s' = s_connection s"
    by (simp add: running_def) (simp add: signed_on_def join_all_def named_def)
  have w': "sessions ?w' = (sessions w)(p \<mapsto> ?s')"
    "conns ?w' = (conns w)(a \<mapsto> c\<lparr>c_awaiting := MessageBuffer t\<rparr>)"
    using s(1) by (simp_all add: accepted_def announced_def logged_on_def Let_def h_def)
  have run: "run_callback E (Readable (obj_id c) fd) w = Some (Ok (), ?w')"
    by (rule served [where s' = ?s', OF w arr s ends_login [OF on s1 fresh(1) l
      login_complete_accepted [OF assms(3) on s1 fresh(2)]]])
      (use w' s conn in simp_all)
  have fetch: "avatar_fetch ?s' = avatar_fetch (signed_on l s)"
    by (rule ext) (simp add: avatar_fetch_def running_def)
  have hist: "history ?w' = TimeoutAdd h 30 (obj_id s) # rev (map (avatar_fetch ?s') (map fst (la_roster l)))
        @ map (sys_write_all (obj_id c) cfd)
            [sendGetAddRequest_packet, sendOfflineMessagesRequest_packet,
             sendKeepAlive_packet (s_keep_alive_counter s)]
        @ status_events E (s_account s) (obj_id c) cfd
            (roster_events E (s_account s) (la_groups l)
              (SetConnected (s_account s) # UpdateProgress (s_account s) ''Connected'' 1 2
                # SysRead (obj_id c) fd # history w))"
    unfolding fetch
    by (simp add: accepted_def announced_def logged_on_def Let_def h_def announce_events_def connected_events_def)
      (simp add: signed_on_def join_all_def named_def)
  have s': "?s' = s\<lparr>s_connection_state := 2, s_server_userId := la_userId l,
        s_server_displayname := la_displayname l, s_server_nickname := la_nickname l,
        s_session := la_session l, s_visibleIP := la_visibleIP l,
        s_groups := set (map lg_key (la_groups l)) \<union> s_groups s,
        s_keep_alive_counter := s_keep_alive_counter s + 1, s_keep_alive_timer := h\<rparr>"
    by (simp add: running_def signed_on_def join_all_def named_def)
  show ?thesis
    by (intro exI [of _ ?w'] exI [of _ ?s'] exI [of _ h] conjI run w' s' hist)
qed

definition demo_answer_body :: login_answer where
  "demo_answer_body = \<lparr>la_userId = ''me'', la_displayname = ''Me'', la_nickname = ''m'', la_code1 = 0,
     la_code2 = 0, la_props = [(''k'', ''v'')], la_roster = [(''ann'', 1)], la_tels = [],
     la_blocked = [(''bob'', 0)], la_allowed = [], la_skipped = ''......'', la_session = ''sid'',
     la_visibleIP = ''ip'', la_code3 = 0, la_code4 = CHR ''.'', la_unknown = [], la_code6 = [],
     la_code7 = [], la_groups = [\<lparr>lg_key = ''g'', lg_name = ''g'', lg_members = [''ann'']\<rparr>], la_id = []\<rparr>"

abbreviation login_packet :: string where
  "login_packet \<equiv> intToDWord 1 @ intToDWord 0 @ put_string (login_body demo_answer_body)"

lemma login_packet_length: "length (put_string login_packet) < 2 ^ 31"
  by (simp add: demo_answer_body_def login_body_def put_lists_def put_items_def put_pair_def
      put_entry_def put_group_def)

theorem login_answer_accepted_witness:
  "\<exists>w' s'. run_callback (peer_env (put_string login_packet)) (Readable 2 8) (demo_chatting (put_string login_packet))
      = Some (Ok (), w') \<and> sessions w' = [0 \<mapsto> s'] \<and> s_connection_state s' = 2
    \<and> s_session s' = ''sid'' \<and> s_groups s' = {''g''} \<and> s_keep_alive_counter s' = 1
    \<and> TimeoutAdd (s_keep_alive_timer s') 30 0 \<in> set (history w')
    \<and> AddBuddy 0 ''ann'' ''g'' \<in> set (history w')"
proof -
  obtain c where c: "arrives (peer_env (put_string login_packet)) (demo_chatting (put_string login_packet)) 2 c 8 login_packet []"
    "c_tx c = 0" "c_fd c = Some 8" "obj_id c = 2"
    by (rule demo_arrives [OF login_packet_length])
  have "login_ok demo_answer_body" "s_connection_state chat_session < 2" "s_keep_alive_counter chat_session < int_max"
    by (simp_all add: login_ok_def demo_answer_body_def cint_def demo_session_def int_max_def)
  note out = login_answer_accepted [OF demo_chatting_reachable peer_fresh peer_eager c(1) this(1) c(2,3) demo_owner this(2,3)]
  have status: "e \<in> set tr \<Longrightarrow> e \<in> set (status_events E acct i fd tr)" for e tr acct i fd and E :: "string env"
    by (simp add: status_events_def Let_def split: option.split)
  have roster: "AddBuddy 0 ''ann'' ''g'' \<in> set (roster_events (peer_env d) 0 (la_groups demo_answer_body) tr)" for d tr
    by (simp add: demo_answer_body_def roster_events_def group_events_def member_events_def peer_sel c_str_def)
  have sel: "la_session demo_answer_body = ''sid''" "set (map lg_key (la_groups demo_answer_body)) = {''g''}"
    by (simp_all add: demo_answer_body_def)
  show ?thesis
    using out unfolding c(4) sel demo_chatting_state(4) fun_upd_upd
    by (elim exE conjE) (rule exI, rule exI, intro conjI, assumption, assumption,
      simp_all add: demo_session_def status roster)
qed

section \<open>A refusal\<close>

text \<open>C23.  Refused: any other answer to the login ends the session and deletes its connection; the
  user is told that the password is wrong when the code is 1, and that the network failed,
  with the code, when it is another.\<close>

theorem login_answer_refused:
  assumes "reachable E w" and "fresh_handles E"
    and arr: "arrives E w a c fd (intToDWord 1 @ intToDWord 0 @ put_string (intToDWord code @ u)) t"
    and code: "cint code" "code \<noteq> 0"
    and s: "sessions w p = Some s" "s_connection s = Some a" "s_connection_state s < 2"
  shows "\<exists>w' s' tr. run_callback E (Readable (obj_id c) fd) w = Some (Ok (), w')
    \<and> sessions w' p = Some s' \<and> invalid s' \<and> s_connection s' = None \<and> conns w' a = None
    \<and> history w' = (if code = 1
        then ConnectionError (s_account s) AuthenticationFailed (''Authentication failed'' @ [CHR 0x0A])
        else ConnectionError (s_account s) NetworkError
          (c_str (''CS Login error '' @ dec_of_int code @ [CHR 0x0A, CHR 0x0A]))) # tr"
proof -
  note w = reachable_sound [OF assms(1,2)]
  let ?w = "taken a c fd t w"
  have w1: "sound E ?w" by (rule sound_taken [OF w]) (use arr in \<open>simp add: arrives_def\<close>)
  have s1: "sessions ?w p = Some s" "\<not> invalid s" using s(1) session_valid [OF w s(1,2)] by simp_all
  obtain w' s' tr where e: "ends (intToDWord 1 @ intToDWord 0 @ put_string (intToDWord code @ u)) ?w
      (parseCSResponse E p) (Ok ()) w'"
    and w': "sessions w' p = Some s'" "invalid s'" "s_connection s' = None"
      "history w' = ConnectionError (s_account s) (fst (refusal code)) (c_str (snd (refusal code) @ [CHR 0x0A])) # tr"
      "\<And>a. s_connection s = Some a \<Longrightarrow> conns w' a = None"
    by (rule ends_login_refused [OF w1 s1 s(3) code, of u]) blast
  have "run_callback E (Readable (obj_id c) fd) w = Some (Ok (), w')"
    by (rule served [OF w arr s(1,2) e w'(1)]) (simp add: w'(3))
  then show ?thesis using w' s(2) by (auto simp: refusal_def c_str_def)
qed

abbreviation refusal_packet :: string where
  "refusal_packet \<equiv> intToDWord 1 @ intToDWord 0 @ put_string (intToDWord 1 @ [])"

theorem login_answer_refused_witness:
  "\<exists>w' s' tr. run_callback (peer_env (put_string refusal_packet)) (Readable 2 8) (demo_chatting (put_string refusal_packet))
      = Some (Ok (), w') \<and> sessions w' 0 = Some s' \<and> invalid s' \<and> s_connection s' = None \<and> conns w' 2 = None
    \<and> history w' = ConnectionError 0 AuthenticationFailed (''Authentication failed'' @ [CHR 0x0A]) # tr"
proof -
  have len: "length (put_string refusal_packet) < 2 ^ 31" by simp
  obtain c where c: "arrives (peer_env (put_string refusal_packet)) (demo_chatting (put_string refusal_packet)) 2 c 8 refusal_packet []"
    "obj_id c = 2"
    by (rule demo_arrives [OF len])
  from login_answer_refused [OF demo_chatting_reachable peer_fresh c(1) _ _ demo_owner]
  show ?thesis by (simp add: c(2) cint_def demo_session_def)
qed

section \<open>Contacts\<close>

text \<open>The list of contacts is shown: each contact's status, in the order of the list, with the
  protocol's number translated, and nothing else changes but that the bytes after the
  packet are kept.\<close>

theorem contacts_shown:
  assumes "reachable E w" and "fresh_handles E"
    and arr: "arrives E w a c fd (intToDWord 3 @ put_string header @ put_string ''Contacts''
      @ put_string (put_items put_contact ks @ put_string cid)) t"
    and ks: "list_all contact_ok ks"
    and s: "sessions w p = Some s" "s_connection s = Some a"
  shows "\<exists>w'. run_callback E (Readable (obj_id c) fd) w = Some (Ok (), w')
    \<and> sessions w' = sessions w \<and> conns w' = (conns w)(a \<mapsto> c\<lparr>c_awaiting := MessageBuffer t\<rparr>)
    \<and> history w' = rev (map (\<lambda>k. GotUserStatus (s_account s) (c_str (ct_name k))
        (if ct_status k = 1 then ''online'' else if ct_status k = 2 then ''away''
         else if ct_status k = 3 then ''busy'' else ''offline'') None) ks)
        @ SysRead (obj_id c) fd # history w"
proof -
  note w = reachable_sound [OF assms(1,2)]
  let ?w = "taken a c fd t w"
  let ?w' = "?w\<lparr>history := rev (map (contact_event (s_account s)) ks) @ history ?w\<rparr>"
  have s1: "sessions ?w p = Some s" using s(1) by simp
  note e = ends_Contacts [OF s1 session_valid [OF w s] ks, of header cid E]
  have "run_callback E (Readable (obj_id c) fd) w = Some (Ok (), ?w')"
    by (rule served [OF w arr s e [unfolded contacts_body_def], of s]) (simp_all add: s)
  moreover have "contact_event (s_account s) = (\<lambda>k. GotUserStatus (s_account s) (c_str (ct_name k))
        (if ct_status k = 1 then ''online'' else if ct_status k = 2 then ''away''
         else if ct_status k = 3 then ''busy'' else ''offline'') None)"
    by (rule ext) (simp add: contact_event_def getStatusFromID_def)
  ultimately show ?thesis by (intro exI [of _ ?w']) simp
qed

definition ann :: contact where
  "ann = \<lparr>ct_name = ''ann'', ct_name2 = [], ct_name3 = [], ct_code1 = 0, ct_status = 2, ct_text = [],
     ct_code3 = 0, ct_version = []\<rparr>"

abbreviation contacts_packet :: string where
  "contacts_packet \<equiv> intToDWord 3 @ put_string ''x'' @ put_string ''Contacts''
     @ put_string (put_items put_contact [ann, ann\<lparr>ct_name := ''bob'', ct_status := 9\<rparr>] @ put_string [])"

theorem contacts_shown_witness:
  "\<exists>w'. run_callback (peer_env (put_string contacts_packet)) (Readable 2 8) (demo_chatting (put_string contacts_packet))
      = Some (Ok (), w')
    \<and> history w' = [GotUserStatus 0 ''bob'' ''offline'' None, GotUserStatus 0 ''ann'' ''away'' None]
        @ SysRead 2 8 # history (demo_chatting (put_string contacts_packet))"
proof -
  have len: "length (put_string contacts_packet) < 2 ^ 31"
    by (simp add: ann_def put_items_def put_contact_def)
  obtain c where c: "arrives (peer_env (put_string contacts_packet)) (demo_chatting (put_string contacts_packet)) 2 c 8 contacts_packet []"
    "obj_id c = 2"
    by (rule demo_arrives [OF len])
  have "list_all contact_ok [ann, ann\<lparr>ct_name := ''bob'', ct_status := 9\<rparr>]"
    by (simp add: contact_ok_def ann_def cint_def)
  from contacts_shown [OF demo_chatting_reachable peer_fresh c(1) this demo_owner]
  show ?thesis unfolding c(2) by (elim exE conjE) (rule exI, rule conjI, assumption,
    simp add: ann_def demo_session_def c_str_def)
qed

section \<open>What the server has kept\<close>

text \<open>C12.  Stored messages: each is shown, in the order they come, a plain one with the present time
  and a formatted one with the time it was sent, and as soon as it is shown the server is
  asked to delete it; on a network that takes what it is given every deletion is sent.\<close>

theorem stored_messages_delivered:
  assumes "reachable E w" and "fresh_handles E" and "eager E"
    and arr: "arrives E w a c fd (intToDWord 1 @ intToDWord 1 @ put_string (put_items put_stored ms)) t"
    and ms: "list_all (stored_ok E) ms" and idle: "c_tx c = 0" "c_fd c = Some cfd"
    and s: "sessions w p = Some s" "s_connection s = Some a"
  shows "\<exists>w'. run_callback E (Readable (obj_id c) fd) w = Some (Ok (), w')
    \<and> sessions w' = sessions w \<and> conns w' = (conns w)(a \<mapsto> c\<lparr>c_awaiting := MessageBuffer t\<rparr>)
    \<and> history w' = fold (\<lambda>m tr. SysWrite (obj_id c) cfd (deleteOfflineMessage_packet (st_id m))
          (len (deleteOfflineMessage_packet (st_id m))) # stored_event E (s_account s) m tr # tr) ms
        (SysRead (obj_id c) fd # history w)
    \<and> sent (history w') (obj_id c)
        = sent (history w) (obj_id c) @ concat (map (\<lambda>m. deleteOfflineMessage_packet (st_id m)) ms)"
proof -
  note w = reachable_sound [OF assms(1,2)]
  let ?w = "taken a c fd t w"
  let ?w' = "?w\<lparr>history := fold (delivered E (s_account s) (obj_id c) cfd) ms (history ?w)\<rparr>"
  have on: "online p (s_account s) (obj_id s) (obj_id c) cfd ?w"
    using arrives_online [OF arr idle s session_valid [OF w s]] by simp
  have "run_callback E (Readable (obj_id c) fd) w = Some (Ok (), ?w')"
    by (rule served [OF w arr s ends_offline_messages [OF assms(3) on ms], of s]) (simp_all add: s)
  moreover have "delivered E (s_account s) (obj_id c) cfd = (\<lambda>m tr. SysWrite (obj_id c) cfd
      (deleteOfflineMessage_packet (st_id m)) (len (deleteOfflineMessage_packet (st_id m)))
      # stored_event E (s_account s) m tr # tr)"
    by (intro ext) (simp add: delivered_def)
  ultimately show ?thesis
    using sent_delivered [of E "s_account s" "obj_id c" cfd ms "history ?w"]
    by (intro exI [of _ ?w']) simp
qed

definition demo_stored :: "stored list" where
  "demo_stored = [\<lparr>st_id = ''7'', st_from = ''ann'', st_text = Plain ''hi'', st_time = 5\<rparr>,
     \<lparr>st_id = ''8'', st_from = ''ann'', st_text = Formatted 1 [], st_time = 6\<rparr>]"

abbreviation stored_packet :: string where
  "stored_packet \<equiv> intToDWord 1 @ intToDWord 1 @ put_string (put_items put_stored demo_stored)"

theorem stored_messages_delivered_witness:
  "\<exists>w'. run_callback (peer_env (put_string stored_packet)) (Readable 2 8) (demo_chatting (put_string stored_packet))
      = Some (Ok (), w') \<and> sessions w' = [0 \<mapsto> chat_session]
    \<and> sent (history w') 2 = sent (history (demo_chatting (put_string stored_packet))) 2
        @ deleteOfflineMessage_packet ''7'' @ deleteOfflineMessage_packet ''8''
    \<and> GotIm 0 ''ann'' ''hi'' 1234 \<in> set (history w') \<and> GotIm 0 ''ann'' [] 6 \<in> set (history w')"
proof -
  have len: "length (put_string stored_packet) < 2 ^ 31"
    by (simp add: demo_stored_def put_items_def put_stored_def)
  obtain c where c: "arrives (peer_env (put_string stored_packet)) (demo_chatting (put_string stored_packet)) 2 c 8 stored_packet []"
    "c_tx c = 0" "c_fd c = Some 8" "obj_id c = 2"
    by (rule demo_arrives [OF len])
  have "list_all (stored_ok (peer_env d)) demo_stored" for d
    by (simp add: stored_ok_def demo_stored_def cint_def)
  note stored_messages_delivered [OF demo_chatting_reachable peer_fresh peer_eager c(1) this c(2,3) demo_owner]
  moreover have "ev_time (peer_env d) tr = 1234" for d tr by (simp add: picky_env_def demo_sel)
  ultimately show ?thesis
    unfolding c(4) demo_chatting_state(4) by (elim exE conjE) (rule exI, rule conjI, assumption,
      simp add: demo_stored_def demo_session_def c_str_def stored_event_def)
qed

text \<open>C24.  Requests to be added: the user is asked about each, in the order they come, and nothing
  else changes but that the bytes after the packet are kept.  But what libpurple keeps for the answer is the raw address of the
  session: once the account is closed, either answer uses the deleted session.\<close>

theorem add_requests_dangle:
  assumes "reachable E w" and "fresh_handles E"
    and arr: "arrives E w a c fd (intToDWord 1 @ intToDWord 2 @ put_string (put_items put_asked qs)) t"
    and qs: "list_all (\<lambda>q. cint (as_code q)) qs"
    and s: "sessions w p = Some s" "s_connection s = Some a" and acct: "proto_data w (s_account s) = Some p"
  shows "\<exists>w' w''. run_callback E (Readable (obj_id c) fd) w = Some (Ok (), w')
    \<and> sessions w' = sessions w \<and> conns w' = (conns w)(a \<mapsto> c\<lparr>c_awaiting := MessageBuffer t\<rparr>)
    \<and> history w' = rev (map (\<lambda>q. RequestAuthorization (s_account s) \<lparr>ar_conn = p, ar_localid = as_to q,
        ar_from = as_from q, ar_from2 = [], ar_reqId = as_id q\<rparr>) qs) @ SysRead (obj_id c) fd # history w
    \<and> rediffbol_close E (s_account s) w' = Some (Ok (), w'')
    \<and> (\<forall>ar. ar_conn ar = p \<longrightarrow>
        contact_add_request_authorize_cb E ar w'' = Some (Throw (Undef UseAfterFree), w'')
      \<and> contact_add_request_deny_cb E ar w'' = Some (Throw (Undef UseAfterFree), w''))"
proof -
  note w = reachable_sound [OF assms(1,2)]
  let ?w = "taken a c fd t w"
  let ?w' = "?w\<lparr>history := rev (map (asked_event p (s_account s)) qs) @ history ?w\<rparr>"
  have s1: "sessions ?w p = Some s" using s(1) by simp
  have run: "run_callback E (Readable (obj_id c) fd) w = Some (Ok (), ?w')"
    by (rule served [OF w arr s ends_add_requests [OF s1 session_valid [OF w s] qs], of s]) (simp_all add: s)
  have "reachable E ?w'" by (rule reachable.more [OF assms(1) step.event [OF run]])
  note w' = reachable_sound [OF this assms(2)]
  have "proto_data ?w' (s_account s) = Some p" using acct by (simp add: emit_def)
  then obtain w'' where close: "rediffbol_close E (s_account s) ?w' = Some (Ok (), w'')"
    "sessions w'' = (sessions ?w')(p := None)"
    by (rule rediffbol_close_run [OF w']) blast
  then have "sessions w'' p = None" by simp
  then have "\<forall>ar. ar_conn ar = p \<longrightarrow>
        contact_add_request_authorize_cb E ar w'' = Some (Throw (Undef UseAfterFree), w'')
      \<and> contact_add_request_deny_cb E ar w'' = Some (Throw (Undef UseAfterFree), w'')"
    using gone_answers by blast
  then show ?thesis
    using run close(1) by (intro exI [of _ ?w'] exI [of _ w'']) (simp add: asked_event_def [abs_def])
qed

definition demo_asked :: asked where
  "demo_asked = \<lparr>as_id = ''r1'', as_from = ''eve'', as_code = 0, as_to = ''me''\<rparr>"

abbreviation asked_packet :: string where
  "asked_packet \<equiv> intToDWord 1 @ intToDWord 2 @ put_string (put_items put_asked [demo_asked])"

theorem add_requests_dangle_witness:
  "\<exists>w' w''. run_callback (peer_env (put_string asked_packet)) (Readable 2 8) (demo_chatting (put_string asked_packet))
      = Some (Ok (), w')
    \<and> history w' = RequestAuthorization 0 \<lparr>ar_conn = 0, ar_localid = ''me'', ar_from = ''eve'', ar_from2 = [],
        ar_reqId = ''r1''\<rparr> # SysRead 2 8 # history (demo_chatting (put_string asked_packet))
    \<and> rediffbol_close (peer_env (put_string asked_packet)) 0 w' = Some (Ok (), w'')
    \<and> contact_add_request_authorize_cb (peer_env (put_string asked_packet)) \<lparr>ar_conn = 0,
        ar_localid = ''me'', ar_from = ''eve'', ar_from2 = [], ar_reqId = ''r1''\<rparr> w''
      = Some (Throw (Undef UseAfterFree), w'')"
proof -
  have len: "length (put_string asked_packet) < 2 ^ 31"
    by (simp add: demo_asked_def put_items_def put_asked_def)
  obtain c where c: "arrives (peer_env (put_string asked_packet)) (demo_chatting (put_string asked_packet)) 2 c 8 asked_packet []"
    "obj_id c = 2"
    by (rule demo_arrives [OF len])
  have qs: "list_all (\<lambda>q. cint (as_code q)) [demo_asked]" by (simp add: demo_asked_def cint_def)
  have acct: "s_account chat_session = 0" by (simp add: demo_session_def)
  show ?thesis
    using add_requests_dangle [OF demo_chatting_reachable peer_fresh c(1) qs demo_owner,
        unfolded acct c(2), OF demo_chatting_state(6)]
    by (elim exE conjE) (rule exI, rule exI, intro conjI, assumption, simp add: demo_asked_def,
      assumption, simp)
qed

section \<open>Chat rooms\<close>





section \<open>A write fails\<close>

text \<open>C26.  If the first packet after the login cannot be written, the client aborts: the answer to
  the login is taken in and the contacts are announced, the failure ends the session, and the
  keep-alive packet that comes next asserts that it has not ended.\<close>

theorem login_write_error_aborts:
  assumes "reachable E w" and "fresh_handles E"
    and arr: "arrives E w a c fd (intToDWord 1 @ intToDWord 0 @ put_string (login_body l)) t"
    and l: "login_ok l" and idle: "c_tx c = 0" "c_fd c = Some cfd"
    and s: "sessions w p = Some s" "s_connection s = Some a" "s_connection_state s < 2"
    and h: "h = roster_events E (s_account s) (la_groups l) (SetConnected (s_account s)
      # UpdateProgress (s_account s) ''Connected'' 1 2 # SysRead (obj_id c) fd # history w)"
    and status: "ev_status_id E h (s_account s) = Some status" "status_code status = Some code"
    and msg: "msg = SAFE (ev_status_message E h (s_account s))"
    and bad: "ne_write E h cfd (setStatus_packet code (if msg = [] then status else msg)) = (r, eagain)"
      "r \<le> 0" "\<not> (r < 0 \<and> eagain)"
  shows "\<exists>w' s'. run_callback E (Readable (obj_id c) fd) w = Some (Throw AssertFail, w')
    \<and> sessions w' p = Some s' \<and> invalid s' \<and> s_connection s' = None"
proof -
  note w = reachable_sound [OF assms(1,2)]
  let ?w = "taken a c fd t w"
  let ?l = "logged_on E p s l ?w"
  have w1: "sound E ?w" by (rule sound_taken [OF w]) (use arr in \<open>simp add: arrives_def\<close>)
  have s1: "sessions ?w p = Some s" using s(1) by simp
  have on: "online p (s_account s) (obj_id s) (obj_id c) cfd ?w"
    using arrives_online [OF arr idle s(1,2) session_valid [OF w s(1,2)]] by simp
  have hl: "history ?l = h" by (simp add: logged_on_def h connected_events_def)
  have "write_fails E (history ?l) cfd (setStatus_packet code (if msg = [] then status else msg))"
    using bad by (auto simp: write_fails_def hl)
  then obtain w' where w': "login_complete E p (map fst (la_roster l)) ?l = Some (Throw AssertFail, w')"
    "ended p w'"
    using login_complete_aborts [OF sound_logged_on [OF w1 s1, of l] online_logged_on [OF on],
        where status = status and code = code and msg = msg]
      status msg unfolding hl by blast
  have "run_callback E (Readable (obj_id c) fd) w = Some (Throw AssertFail, w')"
    by (rule serves [OF w arr s(1,2) ends_login [OF on s1 s(3) l w'(1)]]) simp_all
  then show ?thesis using w'(2) unfolding ended_def by blast
qed

text \<open>C27.  If the write fails with which a buddy's new group is announced, adding the buddy goes on
  with a second packet, through the connection pointer that the failure has set to null.\<close>

theorem add_buddy_write_error:
  assumes "reachable E w" and "fresh_handles E"
    and c: "conns w a = Some c" "\<not> invalid c" "c_tx c = 0" "c_fd c = Some fd"
    and s: "sessions w p = Some s" "s_connection s = Some a" "proto_data w acct = Some p"
    and grp: "grp \<notin> s_groups s"
    and bad: "ne_write E (history w) fd (sendAddRemoveGroupRequest_packet False
        (fixEmail (SAFE (ev_username E acct))) grp) = (r, eagain)" "r \<le> 0" "\<not> (r < 0 \<and> eagain)"
  shows "\<exists>w'. rediffbol_add_buddy E acct (Some who) (Some grp) w = Some (Throw (Undef NullDeref), w')"
proof -
  note w = reachable_sound [OF assms(1,2)]
  have o: "owned w" using w by (simp add: own_def)
  have acct: "s_account s = acct" using owned_proto [OF o s(3)] s(1) by auto
  have on: "online p acct (obj_id s) (obj_id c) fd w"
    using c s acct session_valid [OF w s(1,2)] by (auto simp: online_def)
  have "write_fails E (history w) fd (sendAddRemoveGroupRequest_packet False
      (fixEmail (SAFE (ev_username E acct))) grp)"
    using bad by (auto simp: write_fails_def)
  then obtain w' where "sendAddContactRequest E p who grp w = Some (Throw (Undef NullDeref), w')"
    using sendAddContactRequest_null [OF w on s(1) grp] by blast
  then show ?thesis
    using s(3) by (simp add: rediffbol_add_buddy_def if_session_def bindM_run getM_run SAFE_def)
qed

text \<open>A network that takes one packet and then breaks.\<close>

definition broken_env :: "string env" where
  "broken_env = demo_env\<lparr>ne_write := (\<lambda>tr fd d.
     if list_ex is_write tr then (0, False) else (int (length d), False))\<rparr>"

lemma broken_sel:
  "ne_proxy_connect broken_env = (\<lambda>tr. 1)" "ne_input_add broken_env = (\<lambda>tr. top_handle tr + 1)"
  "ne_input_error broken_env = (\<lambda>tr fd. 0)" "cb_new broken_env = []"
  "ne_write broken_env = (\<lambda>tr fd d. if list_ex is_write tr then (0, False) else (int (length d), False))"
  "ev_status_id broken_env = (\<lambda>tr acct. Some ''online'')" "ev_username broken_env = (\<lambda>acct. Some ''me'')"
  by (simp_all add: broken_env_def demo_sel)

lemma broken_reachable: "reachable broken_env demo_connected" "fresh_handles broken_env"
proof -
  have login: "run_call broken_env (Login 0) start_world = Some (Ok (), demo_login demo_env)"
    by (simp add: demo_login_state demo_exec broken_sel fun_upd_twist demo_session_def demo_conn_def
        c_str_def GATEKEEPER_def)
  have connected: "run_callback broken_env (Connected 1 7 None) (demo_login demo_env) = Some (Ok (), demo_connected)"
    by (simp add: demo_login_state connected_exec demo_conn_def demo_session_def demo_connected_def
        broken_sel gk_request_not_Nil set_conn_def emit_def)
  show "reachable broken_env demo_connected"
    by (rule reachable.more [OF reachable.more [OF reachable.start step.libpurple [OF login]]
          step.event [OF connected]])
  show "fresh_handles broken_env"
    using demo_fresh(1) by (simp add: fresh_handles_def broken_env_def)
qed

text \<open>A chat server's network that does not take the client's status.\<close>

definition is_status :: "string \<Rightarrow> bool" where
  "is_status x \<longleftrightarrow> x = setStatus_packet 1 ''online''"

lemma lets_in_login: "lets_in is_status"
proof -
  have "gk_request \<noteq> setStatus_packet 1 ''online''"
    "connectToCS_packet (fixEmail ''me'') ''pw'' \<noteq> setStatus_packet 1 ''online''"
    by code_simp+
  then show ?thesis by (simp add: lets_in_def is_status_def)
qed

theorem login_write_error_aborts_witness:
  "\<exists>w' s'. run_callback (picky_env is_status (put_string login_packet)) (Readable 2 8)
      (chatting_in is_status (put_string login_packet)) = Some (Throw AssertFail, w')
    \<and> sessions w' 0 = Some s' \<and> invalid s' \<and> s_connection s' = None"
proof -
  let ?E = "picky_env is_status (put_string login_packet)"
  obtain c where c: "arrives ?E (chatting_in is_status (put_string login_packet)) 2 c 8 login_packet []"
    "c_tx c = 0" "c_fd c = Some 8" "obj_id c = 2"
    by (rule chatting_arrives [OF login_packet_length lets_in_login])
  have "login_ok demo_answer_body" by (simp add: login_ok_def demo_answer_body_def cint_def)
  moreover have "sessions (chatting_in is_status (put_string login_packet)) 0 = Some chat_session"
    by (simp add: chatting_state(4) [OF lets_in_login])
  moreover have "s_connection_state chat_session < 2" by (simp add: demo_session_def)
  moreover have "ev_status_id ?E tr acct = Some ''online''" "ev_status_message ?E tr acct = None" for tr acct
    by (simp_all add: picky_env_def demo_sel)
  moreover have "status_code ''online'' = Some 1" by (simp add: status_code_def c_tolower_def)
  moreover have "ne_write ?E tr fd (setStatus_packet 1 ''online'') = (0, False)" for tr fd
    by (simp add: peer_sel is_status_def)
  ultimately show ?thesis
    using login_write_error_aborts [where l = demo_answer_body and p = 0 and s = chat_session
        and status = "''online''" and code = 1 and msg = "[]" and r = 0 and eagain = False,
        OF chatting_reachable [OF lets_in_login] peer_fresh c(1) _ c(2,3) _ _ _ refl]
    by (simp add: c(4) SAFE_def)
qed

theorem add_buddy_write_error_witness:
  "\<exists>w'. rediffbol_add_buddy broken_env 0 (Some ''ann'') (Some ''g'') demo_connected
    = Some (Throw (Undef NullDeref), w')"
  by (rule add_buddy_write_error [OF broken_reachable, where c = gk_conn and s = demo_session
      and a = 1 and fd = 7 and p = 0 and r = 0 and eagain = False])
    (simp_all add: broken_sel demo_connected_state demo_conn_def demo_session_def)

end
