(* ===== verification/Pieces.thy ===== *)
theory Pieces
  imports Online Gatekeeper
begin

text \<open>
  A frame that arrives in several reads: until it is complete, each read only adds to the
  connection's buffer.
\<close>

section \<open>Bytes arrive in pieces\<close>

fun run_callbacks :: "'b env \<Rightarrow> callback list \<Rightarrow> ('b world, unit) M" where
  "run_callbacks E [] = ret ()"
| "run_callbacks E (x # xs) = thenM (run_callback E x) (run_callbacks E xs)"

lemma run_callbacks_append:
  "run_callbacks E xs w = Some (Ok (), w') \<Longrightarrow> run_callbacks E (xs @ ys) w = run_callbacks E ys w'"
  by (induction xs arbitrary: w) (auto simp: ret_run thenM_run split: option.splits prod.splits outcome.splits)

lemma partial_prefix: "partial (s @ t) \<Longrightarrow> partial s"
proof -
  assume "partial (s @ t)"
  then obtain frame u where "put_string frame = s @ (t @ u)" "u \<noteq> []" "length frame + 4 < 2 ^ 31"
    by (auto simp: partial_def)
  then show ?thesis unfolding partial_def by blast
qed

lemma partial_piece: "s @ d = put_string frame \<Longrightarrow> d \<noteq> [] \<Longrightarrow> length (put_string frame) < 2 ^ 31 \<Longrightarrow> partial s"
  unfolding partial_def by (rule exI [of _ frame], rule exI [of _ d]) simp

text \<open>As long as the frame is not complete, the bytes are only kept.\<close>

lemma read_more:
  assumes w: "sound E w" and s: "sessions w p = Some s" "s_connection s = Some a"
    and c: "conns w a = Some c" "\<not> invalid c" "c_parse_mode c \<noteq> 2" "c_awaiting c = MessageBuffer pre"
    and fd: "0 \<le> fd" "ne_input_error E (history w) fd = 0"
    and data: "ne_read E (history w) fd = ReadData d" "d \<noteq> []" and t: "partial (pre @ d)"
  shows "run_callback E (Readable (obj_id c) fd) w = Some (Ok (), taken a c fd (pre @ d) w)"
proof -
  have o: "owned w" using w by (simp add: own_def)
  have p: "id_map w (c_handler_id c) = Some p"
    using owned_connected(2) [OF o s] owned_session(1) [OF o s(1)] c(1) by auto
  have id: "id_map w (obj_id c) = Some a"
    by (rule net_inv_conn(1) [OF conjunct1 [OF conjunct1 [OF w]] c(1)])
  let ?w = "taken a c fd (pre @ d) w" and ?c = "c\<lparr>c_awaiting := MessageBuffer (pre @ d)\<rparr>"
  have r: "received a fd d w = ?w" using c by (simp add: received_def taken_def set_conn_emit)
  have c': "sessions ?w p = Some s" "conns ?w a = Some ?c" using s by simp_all
  have "read_loop E p a ?w = Some (Ok (), ?w)"
    by (rule read_loop_rest [OF c'(1) s(2) c'(2) _ t]) simp
  then have "readCallback E p a ?w = Some (Ok (), ?w)"
    using c(3) by (intro readCallback_loop [OF c'(1) s(2) c'(2)]) simp_all
  then show ?thesis unfolding read_data_run [OF id c(1,2) p fd data] r .
qed

definition gathered :: "nat \<Rightarrow> 'b conn \<Rightarrow> int \<Rightarrow> string \<Rightarrow> nat \<Rightarrow> 'b world \<Rightarrow> 'b world" where
  "gathered a c fd t n w = (set_conn a (Some (c\<lparr>c_awaiting := MessageBuffer t\<rparr>)) w)
     \<lparr>history := replicate n (SysRead (obj_id c) fd) @ history w\<rparr>"

lemma gathered_simps [simp]:
  "sessions (gathered a c fd t n w) = sessions w" "id_map (gathered a c fd t n w) = id_map w"
  "id_counter (gathered a c fd t n w) = id_counter w" "next_addr (gathered a c fd t n w) = next_addr w"
  "proto_data (gathered a c fd t n w) = proto_data w"
  "conns (gathered a c fd t n w) = (conns w)(a \<mapsto> c\<lparr>c_awaiting := MessageBuffer t\<rparr>)"
  "history (gathered a c fd t n w) = replicate n (SysRead (obj_id c) fd) @ history w"
  by (simp_all add: gathered_def)

lemma taken_gathered:
  "taken a (c\<lparr>c_awaiting := b\<rparr>) fd t (gathered a c fd t' n w) = gathered a c fd t (Suc n) w"
  by (simp add: taken_def gathered_def set_conn_def emit_def)

lemma read_pieces:
  assumes "reachable E w" and "fresh_handles E" and s: "sessions w p = Some s" "s_connection s = Some a"
    and c: "conns w a = Some c" "\<not> invalid c" "c_parse_mode c \<noteq> 2" "c_awaiting c = MessageBuffer []"
    and fd: "0 \<le> fd" "\<And>tr. ne_input_error E tr fd = 0"
    and data: "\<And>k. k < length ds
      \<Longrightarrow> ne_read E (replicate k (SysRead (obj_id c) fd) @ history w) fd = ReadData (ds ! k)"
    and ds: "[] \<notin> set ds" "partial (concat ds)"
  shows "run_callbacks E (replicate (length ds) (Readable (obj_id c) fd)) w
      = Some (Ok (), gathered a c fd (concat ds) (length ds) w)
    \<and> reachable E (gathered a c fd (concat ds) (length ds) w)"
  using data ds
proof (induction ds rule: rev_induct)
  case Nil
  have "c\<lparr>c_awaiting := MessageBuffer []\<rparr> = c" using c(4) by (cases c) simp
  then have "gathered a c fd [] 0 w = w" using c(1) by (cases w) (simp add: gathered_def set_conn_same)
  then show ?case using assms(1) by (simp add: ret_run)
next
  case (snoc d ds)
  let ?i = "obj_id c" and ?w = "gathered a c fd (concat ds) (length ds) w"
  let ?w' = "gathered a c fd (concat (ds @ [d])) (length (ds @ [d])) w"
  let ?c = "c\<lparr>c_awaiting := MessageBuffer (concat ds)\<rparr>"
  have data: "ne_read E (replicate k (SysRead ?i fd) @ history w) fd = ReadData (ds ! k)" if "k < length ds" for k
    using snoc.prems(1) [of k] that by (simp add: nth_append)
  have ds: "[] \<notin> set ds" "d \<noteq> []" "partial (concat ds)" "partial (concat ds @ d)"
    using snoc.prems(2,3) partial_prefix [of "concat ds" d] by auto
  have run: "run_callbacks E (replicate (length ds) (Readable ?i fd)) w = Some (Ok (), ?w)" and r: "reachable E ?w"
    using snoc.IH [OF data ds(1,3)] by blast+
  have "ne_read E (history ?w) fd = ReadData d" using snoc.prems(1) [of "length ds"] by simp
  then have "run_callback E (Readable (obj_id ?c) fd) ?w = Some (Ok (), taken a ?c fd (concat ds @ d) ?w)"
    using s c fd ds by (intro read_more [OF reachable_sound [OF r assms(2)]]) simp_all
  then have last_run: "run_callback E (Readable ?i fd) ?w = Some (Ok (), ?w')"
    by (simp add: taken_gathered)
  have "reachable E ?w'" by (rule reachable.more [OF r step.event [OF last_run]])
  moreover have "run_callbacks E (replicate (length (ds @ [d])) (Readable ?i fd)) w = Some (Ok (), ?w')"
    using run_callbacks_append [OF run, of "[Readable ?i fd]"] last_run
    by (simp add: thenM_run ret_run replicate_append_same)
  ultimately show ?case by blast
qed

text \<open>
  The network delivers the frame in the pieces \<open>ds\<close>: whenever, after the events \<open>tr\<close>, some
  events \<open>u\<close> with \<open>P\<close> have happened and \<open>k\<close> reads of the connection \<open>i\<close> among them, the next
  read gives the piece \<open>k\<close>.
\<close>

definition reads :: "int \<Rightarrow> event list \<Rightarrow> nat" where
  "reads i u = length (filter (is_read i) u)"

definition delivers ::
  "'b env \<Rightarrow> event list \<Rightarrow> (event list \<Rightarrow> bool) \<Rightarrow> int \<Rightarrow> int \<Rightarrow> string list \<Rightarrow> bool" where
  "delivers E tr P i fd ds \<longleftrightarrow> (\<forall>u. P u \<longrightarrow> reads i u < length ds
     \<longrightarrow> ne_read E (u @ tr) fd = ReadData (ds ! reads i u))"

definition pieces :: "string list \<Rightarrow> string \<Rightarrow> bool" where
  "pieces ds frame \<longleftrightarrow> [] \<notin> set ds \<and> concat ds = put_string frame \<and> length (put_string frame) < 2 ^ 31"

lemma reads_simps [simp]:
  "reads i [] = 0" "reads i (e # u) = (if is_read i e then Suc (reads i u) else reads i u)"
  "reads i (u @ v) = reads i u + reads i v" "reads i (replicate n (SysRead j fd)) = (if i = j then n else 0)"
  by (simp_all add: reads_def)

lemma reads_quiet: "quiet u \<Longrightarrow> reads i u = 0"
  by (simp add: quiet_def reads_def list_ex_iff filter_empty_conv)

lemma piecesE:
  assumes "pieces ds frame"
  obtains es d where "ds = es @ [d]" and "[] \<notin> set es" and "d \<noteq> []" and "concat es @ d = put_string frame"
    and "partial (concat es)" and "length (put_string frame) < 2 ^ 31"
proof (cases ds rule: rev_cases)
  case Nil
  then have "put_string frame = []" using assms by (simp add: pieces_def)
  then show ?thesis by simp
next
  case (snoc es d)
  then have "[] \<notin> set es" "d \<noteq> []" "concat es @ d = put_string frame" "length (put_string frame) < 2 ^ 31"
    using assms by (auto simp: pieces_def)
  then show ?thesis using that [OF snoc] partial_piece by blast
qed

lemma run_pieces:
  "run_callbacks E (replicate n x) w = Some (Ok (), w') \<Longrightarrow> run_callback E x w' = Some (Ok (), w'')
    \<Longrightarrow> run_callbacks E (replicate (Suc n) x) w = Some (Ok (), w'')"
  using run_callbacks_append [of E "replicate n x" w w' "[x]"]
  by (simp add: replicate_append_same thenM_run ret_run)

text \<open>All pieces but the last.\<close>

lemma read_but_last:
  assumes "reachable E w" and "fresh_handles E" and s: "sessions w p = Some s" "s_connection s = Some a"
    and c: "conns w a = Some c" "\<not> invalid c" "c_parse_mode c \<noteq> 2" "c_awaiting c = MessageBuffer []"
    and fd: "0 \<le> fd" "\<And>tr. ne_input_error E tr fd = 0"
    and h: "history w = u @ tr" "reads (obj_id c) u = 0"
      "\<And>k. P (replicate k (SysRead (obj_id c) fd) @ u)"
    and del: "delivers E tr P (obj_id c) fd (es @ [d])" and es: "[] \<notin> set es" "partial (concat es)"
  shows "run_callbacks E (replicate (length es) (Readable (obj_id c) fd)) w
      = Some (Ok (), gathered a c fd (concat es) (length es) w)"
    and "reachable E (gathered a c fd (concat es) (length es) w)"
    and "ne_read E (history (gathered a c fd (concat es) (length es) w)) fd = ReadData d"
proof -
  have data: "ne_read E (replicate k (SysRead (obj_id c) fd) @ history w) fd = ReadData ((es @ [d]) ! k)"
    if "k \<le> length es" for k
  proof -
    let ?u = "replicate k (SysRead (obj_id c) fd) @ u"
    have r: "reads (obj_id c) ?u = k" using h(2) by simp
    then have "ne_read E (?u @ tr) fd = ReadData ((es @ [d]) ! reads (obj_id c) ?u)"
      using del h(3) [of k] that unfolding delivers_def by (metis le_imp_less_Suc length_append_singleton)
    then show ?thesis unfolding r by (simp add: h(1))
  qed
  then have "ne_read E (replicate k (SysRead (obj_id c) fd) @ history w) fd = ReadData (es ! k)"
    if "k < length es" for k using that by (metis less_imp_le nth_append)
  from read_pieces [OF assms(1,2) s c fd this es]
  show "run_callbacks E (replicate (length es) (Readable (obj_id c) fd)) w
      = Some (Ok (), gathered a c fd (concat es) (length es) w)"
    "reachable E (gathered a c fd (concat es) (length es) w)" by blast+
  show "ne_read E (history (gathered a c fd (concat es) (length es) w)) fd = ReadData d"
    using data [of "length es"] by simp
qed

end
