(* ===== verification/LoginRun.thy ===== *)
theory LoginRun
  imports SessionSpec Pieces
begin

text \<open>
  A whole login, from the call of libpurple to a session that is logged in: five events,
  each of which leaves the client in the state in which the next one is handled.
\<close>

section \<open>A connection is made\<close>

text \<open>The first packet on a connection, to the gatekeeper or to the chat server.\<close>

definition greeting :: "'b env \<Rightarrow> sess \<Rightarrow> 'b conn \<Rightarrow> string \<Rightarrow> bool" where
  "greeting E s c d \<longleftrightarrow>
     c_parse_mode c = 1 \<and> d = connectToGK_packet (s_userAgent s)
   \<or> c_parse_mode c = 0 \<and> (\<exists>name pass. ev_username E (s_account s) = Some name
       \<and> ev_password E (s_account s) = Some pass \<and> d = connectToCS_packet (fixEmail name) pass)"

definition joined :: "'b env \<Rightarrow> nat \<Rightarrow> 'b conn \<Rightarrow> int \<Rightarrow> string \<Rightarrow> 'b world \<Rightarrow> 'b world" where
  "joined E a c fd d w =
     (let h = ne_input_add E (history w) in
      wrote (obj_id c) fd d (emit (InputAdd h fd CondRead (obj_id c))
        (set_conn a (Some (c\<lparr>c_attempt := 0, c_fd := Some fd, c_rx := h\<rparr>)) w)))"

lemma greeting_not_Nil: "greeting E s c d \<Longrightarrow> d \<noteq> []"
  by (auto simp: greeting_def connectToGK_packet_def connectToCS_packet_def Let_def write_int_def)

lemma joined_run:
  assumes E: "eager E" and c: "id_map w (obj_id c) = Some a" "conns w a = Some c" "\<not> invalid c"
      "c_rx c = 0" "c_tx c = 0"
    and p: "id_map w (c_handler_id c) = Some p"
    and s: "sessions w p = Some s" "\<not> invalid s" "s_connection s = Some a"
    and fd: "0 \<le> fd" and d: "greeting E s c d"
  shows "run_callback E (Connected (obj_id c) fd None) w = Some (Ok (), joined E a c fd d w)"
proof -
  let ?h = "ne_input_add E (history w)"
  let ?c = "c\<lparr>c_attempt := 0, c_fd := Some fd, c_rx := ?h\<rparr>"
  define v where "v = emit (InputAdd ?h fd CondRead (obj_id c)) (set_conn a (Some ?c) w)"
  have v: "sessions v p = Some s" "conns v a = Some ?c" using s by (simp_all add: v_def)
  have "online p (s_account s) (obj_id s) (obj_id c) fd v"
    using v s c by (auto simp: online_def)
  then have "yields v (sess_write E p d) () (wrote (obj_id c) fd d v)"
    by (rule yields_sess_write [OF E _ greeting_not_Nil [OF d]])
  then have got: "gotConnected E p v = Some (Ok (), wrote (obj_id c) fd d v)"
    using v s(3) d by (auto simp: greeting_def yields_def gotConnected_def connectToGK_def connectToCS_def
        bindM_run the_connection_run get_sess_run get_conn_run string_of_ptr_def ret_run)
  have "run_callback E (Connected (obj_id c) fd None) w = gotConnected E p v"
    using c p fd
    by (simp add: conn_got_connected_def got_connected_cb_def bindM_run thenM_run getObjectById_run
        upd_conn_run get_conn_run isInvalid_def ensure_run ask_run out_run if_HANDLER_run
        RediffBolConn_handler_def set_conn_twice set_conn_emit v_def)
  then show ?thesis using got by (simp add: joined_def v_def Let_def)
qed

lemma joined_simps [simp]:
  "sessions (joined E a c fd d w) = sessions w" "id_map (joined E a c fd d w) = id_map w"
  "id_counter (joined E a c fd d w) = id_counter w" "next_addr (joined E a c fd d w) = next_addr w"
  "proto_data (joined E a c fd d w) = proto_data w"
  "conns (joined E a c fd d w) = (conns w)(a \<mapsto>
     c\<lparr>c_attempt := 0, c_fd := Some fd, c_rx := ne_input_add E (history w)\<rparr>)"
  "history (joined E a c fd d w) = SysWrite (obj_id c) fd d (len d)
     # InputAdd (ne_input_add E (history w)) fd CondRead (obj_id c) # history w"
  by (simp_all add: joined_def Let_def wrote_def)

section \<open>On the chat server\<close>

lemma sent_members: "sent (member_events E acct grp m tr) i = sent tr i"
  by (simp add: member_events_def)

lemma sent_roster: "sent (roster_events E acct gs tr) i = sent tr i"
proof -
  have "sent (fold (member_events E acct grp) ms tr) i = sent tr i" for grp ms tr
    by (induction ms arbitrary: tr) (simp_all add: sent_members)
  then show ?thesis
    unfolding roster_events_def
    by (induction gs arbitrary: tr) (simp_all add: group_events_def)
qed

lemma sent_reads [simp]: "sent (replicate n (SysRead j fd) @ tr) i = sent tr i"
  by (induction n) simp_all

lemma sent_fetches: "sent (rev (map (avatar_fetch s) xs) @ tr) i = sent tr i"
  by (induction xs arbitrary: tr) (simp_all add: avatar_fetch_def)

text \<open>What the client sends when it has been let in, with the status \<open>st\<close>.\<close>

definition first_packets :: "int \<Rightarrow> string \<Rightarrow> string" where
  "first_packets code st = setStatus_packet code st @ sendKeepAlive_packet 0
     @ sendOfflineMessagesRequest_packet @ sendGetAddRequest_packet"

definition account_status :: "'b env \<Rightarrow> nat \<Rightarrow> int \<Rightarrow> string \<Rightarrow> bool" where
  "account_status E acct code st \<longleftrightarrow> (\<forall>tr. status_code (SAFE (ev_status_id E tr acct)) = Some code
     \<and> st = (if SAFE (ev_status_message E tr acct) = [] then SAFE (ev_status_id E tr acct)
             else SAFE (ev_status_message E tr acct)))"

lemma sent_announce:
  assumes "account_status E (s_account s) code st" and "s_keep_alive_counter s = 0"
  shows "sent (announce_events E s i fd roster tr) i = sent tr i @ first_packets code st"
  using assms
  by (simp add: announce_events_def sent_fetches sys_write_all_def status_events_def Let_def
      account_status_def first_packets_def)

lemma sent_announce_other:
  assumes "i \<noteq> j"
  shows "sent (announce_events E s i fd roster tr) j = sent tr j"
  using assms
  by (simp add: announce_events_def sent_fetches sys_write_all_def status_events_def Let_def
      split: option.split)

text \<open>Nothing that has happened is forgotten.\<close>

lemma announce_keeps: "set tr \<subseteq> set (announce_events E s i fd roster tr)"
  by (auto simp: announce_events_def status_events_def Let_def split: option.split)

lemma roster_keeps: "set tr \<subseteq> set (roster_events E acct gs tr)"
proof -
  have mem: "set tr \<subseteq> set (member_events E acct g m tr)" for g m tr
    by (auto simp: member_events_def)
  have "set tr \<subseteq> set (fold (member_events E acct g) ms tr)" for g ms tr
    by (induction ms arbitrary: tr) (use mem in fastforce)+
  then show ?thesis
    unfolding roster_events_def
    by (induction gs arbitrary: tr) (fastforce simp: group_events_def)+
qed

text \<open>What has changed when the client has been let in.\<close>

lemma accepted_effects:
  assumes s: "sessions w p = Some s" "s_keep_alive_counter s = 0"
    and status: "account_status E (s_account s) code st"
  obtains h where "sessions (accepted E p s i fd l w) = (sessions w)(p \<mapsto> running h (signed_on l s))"
    and "conns (accepted E p s i fd l w) = conns w" and "proto_data (accepted E p s i fd l w) = proto_data w"
    and "SetConnected (s_account s) \<in> set (history (accepted E p s i fd l w))"
    and "set (history w) \<subseteq> set (history (accepted E p s i fd l w))"
    and "\<And>j. sent (history (accepted E p s i fd l w)) j
      = sent (history w) j @ (if j = i then first_packets code st else [])"
proof -
  let ?S = "signed_on l s" and ?w = "accepted E p s i fd l w"
  let ?tr = "connected_events (s_account s) @ history w"
  have S: "s_account ?S = s_account s" "s_keep_alive_counter ?S = 0"
    using s(2) by (simp_all add: signed_on_def join_all_def named_def)
  obtain h r where h: "sessions ?w = (sessions w)(p \<mapsto> running h ?S)"
    and hist: "history ?w = TimeoutAdd h 30 r # announce_events E ?S i fd (map fst (la_roster l))
      (roster_events E (s_account s) (la_groups l) ?tr)"
    using s(1) by (auto simp: accepted_def announced_def logged_on_def Let_def)
  have "set ?tr \<subseteq> set (history ?w)"
    unfolding hist using announce_keeps roster_keeps by (meson order.trans set_subset_Cons)
  moreover have "sent (history ?w) j = sent (history w) j @ (if j = i then first_packets code st else [])" for j
  proof (cases "j = i")
    case True
    then show ?thesis
      using sent_announce [of E ?S code st i fd] status S
      by (simp add: hist sent_roster connected_events_def)
  next
    case False
    then show ?thesis
      using sent_announce_other [of i j E ?S fd] by (simp add: hist sent_roster connected_events_def)
  qed
  ultimately show ?thesis
    using h by (intro that [of h])
      (auto simp: connected_events_def accepted_def announced_def logged_on_def Let_def)
qed

text \<open>The server's answer, in any number of pieces.\<close>

lemma answer_in_pieces:
  assumes w: "reachable E w" "fresh_handles E" "eager E"
    and s: "sessions w p = Some s" "s_connection s = Some a" "s_connection_state s < 2"
      "s_keep_alive_counter s = 0"
    and c: "conns w a = Some c" "\<not> invalid c" "c_parse_mode c = 0" "c_awaiting c = MessageBuffer []"
      "c_tx c = 0" "c_fd c = Some fd"
    and fd: "0 \<le> fd" "\<And>tr. ne_input_error E tr fd = 0"
    and h: "history w = u @ tr" "reads (obj_id c) u = 0" "\<And>k. P (replicate k (SysRead (obj_id c) fd) @ u)"
    and data: "delivers E tr P (obj_id c) fd ds"
      "pieces ds (intToDWord 1 @ intToDWord 0 @ put_string (login_body l))"
    and l: "login_ok l"
  shows "run_callbacks E (replicate (length ds) (Readable (obj_id c) fd)) w
    = Some (Ok (), accepted E p s (obj_id c) fd l (gathered a c fd [] (length ds) w))"
proof -
  let ?i = "obj_id c" and ?f = "intToDWord 1 @ intToDWord 0 @ put_string (login_body l)"
  obtain es d where es: "ds = es @ [d]" "[] \<notin> set es" "d \<noteq> []" "concat es @ d = put_string ?f"
    "partial (concat es)" and len: "length (put_string ?f) < 2 ^ 31"
    by (rule piecesE [OF data(2)])
  have mode: "c_parse_mode c \<noteq> 2" using c(3) by simp
  let ?w = "gathered a c fd (concat es) (length es) w" and ?c = "c\<lparr>c_awaiting := MessageBuffer (concat es)\<rparr>"
  note but_last = read_but_last [OF w(1,2) s(1,2) c(1,2) mode c(4) fd h data(1) [unfolded es(1)] es(2,5)]
  have "\<exists>pre d. c_awaiting ?c = MessageBuffer pre \<and> ne_read E (history ?w) fd = ReadData d \<and> d \<noteq> []
      \<and> pre @ d = put_string ?f @ []"
    using but_last(3) es(3,4) by (intro exI [of _ "concat es"] exI [of _ d]) simp
  moreover have c': "\<not> invalid ?c" "c_parse_mode ?c = 0" "conns ?w a = Some ?c" using c by simp_all
  ultimately have arr: "arrives E ?w a ?c fd ?f []"
    using fd len partial_Nil unfolding arrives_def append_Nil2 by blast
  have s': "sessions ?w p = Some s" "s_keep_alive_counter s < int_max" using s by (simp_all add: int_max_def)
  note sound = reachable_sound [OF but_last(2) w(2)]
  have on: "online p (s_account s) (obj_id s) ?i fd (taken a ?c fd [] ?w)"
    using arrives_online [OF arr _ _ s'(1) s(2) session_valid [OF sound s'(1) s(2)]] c(5,6) by simp
  let ?w' = "accepted E p s ?i fd l (taken a ?c fd [] ?w)"
  have "run_callback E (Readable (obj_id ?c) fd) ?w = Some (Ok (), ?w')"
  proof (rule served [OF sound arr s'(1) s(2)])
    show "ends ?f (taken a ?c fd [] ?w) (parseCSResponse E p) (Ok ()) ?w'"
      by (rule ends_login [OF on _ s(3) l login_complete_accepted [OF w(3) on _ s'(2)]]) (simp_all add: s(1))
    show "s_connection (the (sessions ?w' p)) = None \<or> s_connection (the (sessions ?w' p)) = Some a
        \<and> conns ?w' = (conns ?w)(a \<mapsto> ?c\<lparr>c_awaiting := MessageBuffer []\<rparr>)"
      using s(1,2) by (simp add: accepted_def announced_def logged_on_def Let_def)
        (simp add: running_def signed_on_def join_all_def named_def)
  qed (simp add: s(1) accepted_def announced_def logged_on_def Let_def)
  from run_pieces [OF but_last(1)] this show ?thesis
    by (simp add: es(1) taken_gathered)
qed

text \<open>From the connection to the chat server to the end of the login.\<close>

lemma login_on_server:
  assumes w: "reachable E w" "fresh_handles E" "eager E"
    and s: "sessions w p = Some s" "s_connection s = Some a" "s_connection_state s < 2"
      "s_keep_alive_counter s = 0"
    and c: "conns w a = Some c" "\<not> invalid c" "c_rx c = 0" "c_tx c = 0" "c_parse_mode c = 0"
      "c_awaiting c = MessageBuffer []"
    and fd: "0 \<le> fd" "\<And>tr. ne_input_error E tr fd = 0"
    and user: "ev_username E (s_account s) = Some name" "ev_password E (s_account s) = Some pass"
      "account_status E (s_account s) code st"
    and h: "history w = u @ tr" "reads (obj_id c) u = 0" "\<And>v. P (v @ u)"
    and data: "delivers E tr P (obj_id c) fd ds"
      "pieces ds (intToDWord 1 @ intToDWord 0 @ put_string (login_body l))"
    and l: "login_ok l"
  obtains w1 w2 h c' where "run_callback E (Connected (obj_id c) fd None) w = Some (Ok (), w1)"
    and "run_callbacks E (replicate (length ds) (Readable (obj_id c) fd)) w1 = Some (Ok (), w2)"
    and "sessions w2 = (sessions w)(p \<mapsto> running h (signed_on l s))"
    and "conns w2 = (conns w)(a \<mapsto> c')" and "obj_id c' = obj_id c" and "\<not> invalid c'"
    and "c_fd c' = Some fd" and "proto_data w2 = proto_data w"
    and "SetConnected (s_account s) \<in> set (history w2)" and "set (history w) \<subseteq> set (history w2)"
    and "\<And>j. sent (history w2) j = sent (history w) j @ (if j = obj_id c
      then connectToCS_packet (fixEmail name) pass @ first_packets code st else [])"
proof -
  let ?d = "connectToCS_packet (fixEmail name) pass" and ?i = "obj_id c"
  note sound = reachable_sound [OF w(1,2)]
  have o: "owned w" using sound by (simp add: own_def)
  have id: "id_map w ?i = Some a" "id_map w (c_handler_id c) = Some p"
    using net_inv_conn(1) [OF conjunct1 [OF conjunct1 [OF sound]] c(1)]
      owned_connected(2) [OF o s(1,2)] owned_session(1) [OF o s(1)] c(1) by auto
  have greet: "greeting E s c ?d" using c user by (simp add: greeting_def)
  let ?w1 = "joined E a c fd ?d w"
  let ?c1 = "c\<lparr>c_attempt := 0, c_fd := Some fd, c_rx := ne_input_add E (history w)\<rparr>"
  have run1: "run_callback E (Connected ?i fd None) w = Some (Ok (), ?w1)"
    by (rule joined_run [OF w(3) id(1) c(1-4) id(2) s(1) session_valid [OF sound s(1,2)] s(2) fd(1) greet])
  have r1: "reachable E ?w1" by (rule reachable.more [OF w(1) step.event [OF run1]])
  let ?v = "[SysWrite ?i fd ?d (len ?d), InputAdd (ne_input_add E (history w)) fd CondRead ?i]"
  have u: "history ?w1 = (?v @ u) @ tr" "reads ?i (?v @ u) = 0"
    "P (replicate k (SysRead (obj_id ?c1) fd) @ ?v @ u)" for k
    using h(1,2) h(3) [of "replicate k (SysRead ?i fd) @ ?v"] by simp_all
  let ?w2 = "accepted E p s ?i fd l (gathered a ?c1 fd [] (length ds) ?w1)"
  have run2: "run_callbacks E (replicate (length ds) (Readable ?i fd)) ?w1 = Some (Ok (), ?w2)"
    using answer_in_pieces [OF r1 w(2,3) _ s(2-4), where c = ?c1 and tr = tr and u = "?v @ u" and P = P and l = l]
      s(1) c fd u data l by simp
  let ?g = "gathered a ?c1 fd [] (length ds) ?w1"
  have s1: "sessions ?g p = Some s" using s(1) by simp
  obtain h where h: "sessions ?w2 = (sessions ?g)(p \<mapsto> running h (signed_on l s))"
    "conns ?w2 = conns ?g" "proto_data ?w2 = proto_data ?g" "SetConnected (s_account s) \<in> set (history ?w2)"
    "set (history ?g) \<subseteq> set (history ?w2)"
    "\<And>j. sent (history ?w2) j = sent (history ?g) j @ (if j = ?i then first_packets code st else [])"
    by (rule accepted_effects [where i = ?i and fd = fd and l = l, OF s1 s(4) user(3)]) blast
  show ?thesis
  proof (rule that [OF run1 run2])
    show "sessions ?w2 = (sessions w)(p \<mapsto> running h (signed_on l s))" "proto_data ?w2 = proto_data w"
      using h(1,3) by simp_all
    show "conns ?w2 = (conns w)(a \<mapsto> ?c1\<lparr>c_awaiting := MessageBuffer []\<rparr>)" using h(2) by simp
    show "set (history w) \<subseteq> set (history ?w2)" using h(5) by auto
    show "sent (history ?w2) j = sent (history w) j @ (if j = ?i then ?d @ first_packets code st else [])" for j
      using h(6) [of j] by simp
  qed (use c(2) h(4) in simp_all)
qed

section \<open>By way of the gatekeeper\<close>

text \<open>An entry of the directory, \<^verbatim>\<open>host:port\<close>.\<close>

definition server_at :: "string \<Rightarrow> string \<Rightarrow> int \<Rightarrow> bool" where
  "server_at x host port \<longleftrightarrow> (\<exists>digits. x = host @ CHR '':'' # digits \<and> CHR '':'' \<notin> set host
     \<and> length host < 2 ^ 31 \<and> length digits < 2 ^ 31 \<and> atoi digits = Some port)"

text \<open>A connection with the number \<open>i\<close> has been attempted.\<close>

fun attempts :: "int \<Rightarrow> event \<Rightarrow> bool" where
  "attempts i (ProxyConnect acct host port k j) = (j = i)"
| "attempts i _ = False"

lemma picked:
  assumes "servers \<noteq> []"
  shows "servers ! nat (to_size r mod int (length servers)) \<in> set servers"
proof -
  have "0 < int (length servers)" using assms by simp
  then have "nat (to_size r mod int (length servers)) < length servers"
    using pos_mod_bound [of "int (length servers)" "to_size r"] pos_mod_sign [of "int (length servers)" "to_size r"]
    by linarith
  then show ?thesis by simp
qed

text \<open>One of the servers is picked.\<close>

lemma gatekeeper_picks:
  assumes w: "sound E w" and s: "sessions w p = Some s" "s_connection s = Some a"
    and c: "conns w a = Some c" "\<not> invalid c" "c_parse_mode c = 1" "c_awaiting c = MessageBuffer pre"
    and fd: "0 \<le> fd" "ne_input_error E (history w) fd = 0"
    and data: "ne_read E (history w) fd = ReadData d" "d \<noteq> []" "pre @ d = put_string (gk_frame g)"
      "length (put_string (gk_frame g)) < 2 ^ 31"
    and g: "gk_ok g" "servers = chat_servers (gk_directory g)" "servers \<noteq> []"
      "\<forall>x\<in>set servers. \<exists>host port. server_at x host port"
    and i: "id_counter w < int_max" and k: "\<And>tr. ne_proxy_connect E tr \<noteq> 0"
  obtains x host port v k where "x \<in> set servers" and "server_at x host port" and "quiet v"
    and "run_callback E (Readable (obj_id c) fd) w = Some (Ok (), switched E p s a (obj_id c) k
      (v @ ProxyConnect (s_account s) (c_str host) port k (id_counter w) # SysRead (obj_id c) fd # history w) w)"
proof -
  define x where "x = servers ! nat (to_size (ev_rand E (SysRead (obj_id c) fd # history w)) mod int (length servers))"
  have x: "x \<in> set servers" unfolding x_def by (rule picked [OF g(3)])
  then obtain host port where at: "server_at x host port" using g(4) by blast
  then obtain digits where h: "x = host @ CHR '':'' # digits" "CHR '':'' \<notin> set host"
    "length host < 2 ^ 31" "length digits < 2 ^ 31" "atoi digits = Some port"
    unfolding server_at_def by blast
  have o: "owned w" using w by (simp add: own_def)
  have p: "id_map w (c_handler_id c) = Some p"
    using owned_connected(2) [OF o s] owned_session(1) [OF o s(1)] c(1) by auto
  have id: "id_map w (obj_id c) = Some a"
    by (rule net_inv_conn(1) [OF conjunct1 [OF conjunct1 [OF w]] c(1)])
  define k' where "k' = ne_proxy_connect E (SysRead (obj_id c) fd # history w)"
  have "\<exists>v. run_callback E (Readable (obj_id c) fd) w = Some (Ok (), switched E p s a (obj_id c) k'
      (v @ ProxyConnect (s_account s) (c_str host) port k' (id_counter w) # SysRead (obj_id c) fd # history w) w)
    \<and> quiet v"
    by (rule gatekeeper_callback [where t = "[]", OF w id c p s fd data(1,2) _ _ g(1-3) _ h(2-5) i])
      (use data(3,4) h(1) k in \<open>simp_all add: x_def k'_def\<close>)
  then show ?thesis using that x at by blast
qed

text \<open>And so it is when the answer comes in pieces.\<close>

lemma gatekeeper_in_pieces:
  assumes w: "reachable E w" "fresh_handles E" and s: "sessions w p = Some s" "s_connection s = Some a"
    and c: "conns w a = Some c" "\<not> invalid c" "c_parse_mode c = 1" "c_awaiting c = MessageBuffer []"
    and fd: "0 \<le> fd" "\<And>tr. ne_input_error E tr fd = 0"
    and h: "history w = u @ tr" "reads (obj_id c) u = 0" "\<And>k. P (replicate k (SysRead (obj_id c) fd) @ u)"
    and data: "delivers E tr P (obj_id c) fd ds" "pieces ds (gk_frame g)"
    and g: "gk_ok g" "servers = chat_servers (gk_directory g)" "servers \<noteq> []"
      "\<forall>x\<in>set servers. \<exists>host port. server_at x host port"
    and i: "id_counter w < int_max" and k: "\<And>tr. ne_proxy_connect E tr \<noteq> 0"
  obtains x host port v k w' where "x \<in> set servers" and "server_at x host port" and "quiet v"
    and "run_callbacks E (replicate (length ds) (Readable (obj_id c) fd)) w = Some (Ok (), w')" and "reachable E w'"
    and "w' = switched E p s a (obj_id c) k (v @ ProxyConnect (s_account s) (c_str host) port k (id_counter w)
        # replicate (length ds) (SysRead (obj_id c) fd) @ history w) w"
proof -
  obtain es d where es: "ds = es @ [d]" "[] \<notin> set es" "d \<noteq> []" "concat es @ d = put_string (gk_frame g)"
    "partial (concat es)" and len: "length (put_string (gk_frame g)) < 2 ^ 31"
    by (rule piecesE [OF data(2)])
  have mode: "c_parse_mode c \<noteq> 2" using c(3) by simp
  let ?w = "gathered a c fd (concat es) (length es) w" and ?c = "c\<lparr>c_awaiting := MessageBuffer (concat es)\<rparr>"
  note but_last = read_but_last [OF w s c(1,2) mode c(4) fd h data(1) [unfolded es(1)] es(2,5)]
  have w1: "sessions ?w p = Some s" "conns ?w a = Some ?c" "\<not> invalid ?c" "c_parse_mode ?c = 1"
    "c_awaiting ?c = MessageBuffer (concat es)" "id_counter ?w < int_max" using s c i by simp_all
  obtain x host port v k where x: "x \<in> set servers" "server_at x host port" "quiet v"
    and run: "run_callback E (Readable (obj_id ?c) fd) ?w = Some (Ok (), switched E p s a (obj_id ?c) k
      (v @ ProxyConnect (s_account s) (c_str host) port k (id_counter ?w) # SysRead (obj_id ?c) fd # history ?w) ?w)"
    by (rule gatekeeper_picks [OF reachable_sound [OF but_last(2) w(2)] w1(1) s(2) w1(2-5) fd(1,2)
        but_last(3) es(3,4) len g w1(6) k])
  define w' where "w' = switched E p s a (obj_id c) k (v @ ProxyConnect (s_account s) (c_str host) port k (id_counter w)
        # replicate (length ds) (SysRead (obj_id c) fd) @ history w) w"
  have "switched E p s a (obj_id ?c) k
      (v @ ProxyConnect (s_account s) (c_str host) port k (id_counter ?w) # SysRead (obj_id ?c) fd # history ?w) ?w = w'"
    by (simp add: w'_def es(1) switched_def gathered_def set_conn_def fun_eq_iff)
  with run have run': "run_callback E (Readable (obj_id c) fd) ?w = Some (Ok (), w')" by simp
  have "run_callbacks E (replicate (length ds) (Readable (obj_id c) fd)) w = Some (Ok (), w')"
    using run_pieces [OF but_last(1) run'] by (simp add: es(1))
  moreover have "reachable E w'" by (rule reachable.more [OF but_last(2) step.event [OF run']])
  ultimately show ?thesis by (rule that [OF x _ _ w'_def])
qed

text \<open>Up to the first connection.\<close>

lemma login_begun:
  fixes w :: "'b world"
  assumes w: "reachable E w" "eager E" "id_counter w + 2 < int_max"
    and k: "\<And>tr. ne_proxy_connect E tr \<noteq> 0" and fd: "0 \<le> fd"
  obtains w1 w2 and c :: "'b conn" and u where "rediffbol_login E acct w = Some (Ok (), w1)"
    and "run_callback E (Connected (id_counter w + 1) fd None) w1 = Some (Ok (), w2)" and "reachable E w2"
    and "sessions w2 = (sessions w)(next_addr w \<mapsto> first_session acct (id_counter w) (Suc (next_addr w)))"
    and "conns w2 = (conns w)(Suc (next_addr w) \<mapsto> c)" and "proto_data w2 = (proto_data w)(acct \<mapsto> next_addr w)"
    and "id_counter w2 = id_counter w + 2" and "next_addr w2 = next_addr w + 2" and "history w2 = u @ history w"
    and "obj_id c = id_counter w + 1" and "\<not> invalid c" and "c_parse_mode c = 1"
    and "c_awaiting c = MessageBuffer []"
    and "\<not> list_ex (attempts (id_counter w + 2)) u" and "\<And>j. reads j u = 0"
    and "\<And>j tr. sent (u @ tr) j = sent tr j
      @ (if j = id_counter w + 1 then connectToGK_packet DEFAULT_USERAGENT else [])"
proof -
  let ?p = "next_addr w" and ?a = "Suc (next_addr w)" and ?i = "id_counter w + 1"
  let ?d = "connectToGK_packet DEFAULT_USERAGENT"
  define k' where "k' = ne_proxy_connect E (UpdateProgress acct ''Connecting'' 0 2 # history w)"
  define w1 where "w1 = logged_in E acct k' w"
  define s where "s = first_session acct (id_counter w) ?a"
  define c where "c = (fresh_conn E ?i (id_counter w) 1)\<lparr>c_fd := Some (-1), c_attempt := k'\<rparr>"
  have login: "rediffbol_login E acct w = Some (Ok (), w1)"
    unfolding w1_def by (rule rediffbol_login_run) (use w(3) k in \<open>simp_all add: k'_def\<close>)
  have r1: "reachable E w1" by (rule reachable.more [OF w(1) step.libpurple [of _ "Login acct"]]) (simp add: login)
  have c: "obj_id c = ?i" "\<not> invalid c" "c_rx c = 0" "c_tx c = 0" "c_parse_mode c = 1"
      "c_awaiting c = MessageBuffer []" "c_handler_id c = id_counter w"
    by (simp_all add: c_def fresh_conn_def)
  have s: "\<not> invalid s" "s_connection s = Some ?a" "s_userAgent s = DEFAULT_USERAGENT"
    by (simp_all add: s_def first_session_def)
  have w1: "sessions w1 = (sessions w)(?p \<mapsto> s)" "conns w1 = (conns w)(?a \<mapsto> c)"
    "proto_data w1 = (proto_data w)(acct \<mapsto> ?p)" "id_counter w1 = id_counter w + 2" "next_addr w1 = ?p + 2"
    "history w1 = [ProxyConnect acct GATEKEEPER 1863 k' ?i, UpdateProgress acct ''Connecting'' 0 2] @ history w"
    "id_map w1 (obj_id c) = Some ?a" "id_map w1 (c_handler_id c) = Some ?p"
    by (simp_all add: w1_def logged_in_def s_def c(1,7)) (simp add: c_def)
  have at1: "conns w1 ?a = Some c" "sessions w1 ?p = Some s" "greeting E s c ?d"
    by (simp_all add: w1(1,2) greeting_def c(5) s(3))
  define w2 where "w2 = joined E ?a c fd ?d w1"
  have run2: "run_callback E (Connected ?i fd None) w1 = Some (Ok (), w2)"
    unfolding c(1) [symmetric] w2_def
    by (rule joined_run [OF w(2) w1(7) at1(1) c(2-4) w1(8) at1(2) s(1,2) fd at1(3)])
  let ?c = "c\<lparr>c_attempt := 0, c_fd := Some fd, c_rx := ne_input_add E (history w1)\<rparr>"
  let ?u = "[SysWrite ?i fd ?d (len ?d), InputAdd (ne_input_add E (history w1)) fd CondRead ?i,
    ProxyConnect acct GATEKEEPER 1863 k' ?i, UpdateProgress acct ''Connecting'' 0 2]"
  show ?thesis
    by (rule that [OF login run2 reachable.more [OF r1 step.event [OF run2]], where c = ?c and u = ?u])
      (simp_all add: w2_def w1 s_def [symmetric] c)
qed

lemma login_to_server:
  assumes w: "reachable E w" "fresh_handles E" "eager E" "id_counter w + 2 < int_max"
    and k: "\<And>tr. ne_proxy_connect E tr \<noteq> 0"
    and fd: "0 \<le> fd" "\<And>tr. ne_input_error E tr fd = 0"
    and g: "gk_ok g" "servers = chat_servers (gk_directory g)" "servers \<noteq> []"
      "\<forall>x\<in>set servers. \<exists>host port. server_at x host port"
    and data: "delivers E (history w) (\<lambda>u. \<not> list_ex (attempts (id_counter w + 2)) u) (id_counter w + 1) fd ds"
      "pieces ds (gk_frame g)"
  obtains w1 w2 w3 k u x host port where "rediffbol_login E acct w = Some (Ok (), w1)"
    and "run_callback E (Connected (id_counter w + 1) fd None) w1 = Some (Ok (), w2)"
    and "run_callbacks E (replicate (length ds) (Readable (id_counter w + 1) fd)) w2 = Some (Ok (), w3)"
    and "reachable E w3"
    and "sessions w3 = (sessions w)(next_addr w \<mapsto>
      first_session acct (id_counter w) (next_addr w + 2))"
    and "conns w3 = (conns w)(next_addr w + 2 \<mapsto> attempted E (id_counter w + 2) (id_counter w) k)"
    and "proto_data w3 = (proto_data w)(acct \<mapsto> next_addr w)"
    and "history w3 = u @ history w" and "reads (id_counter w + 2) u = 0" and "list_ex (attempts (id_counter w + 2)) u"
    and "x \<in> set servers" and "server_at x host port"
    and "ProxyConnect acct (c_str host) port k (id_counter w + 2) \<in> set u"
    and "\<And>j. sent (history w3) j = sent (history w) j
      @ (if j = id_counter w + 1 then connectToGK_packet DEFAULT_USERAGENT else [])"
proof -
  let ?p = "next_addr w" and ?a = "Suc (next_addr w)" and ?i = "id_counter w + 1"
  let ?s = "first_session acct (id_counter w) ?a"
  obtain w1 w2 c u where begun: "rediffbol_login E acct w = Some (Ok (), w1)"
      "run_callback E (Connected ?i fd None) w1 = Some (Ok (), w2)" "reachable E w2"
    and w2: "sessions w2 = (sessions w)(?p \<mapsto> ?s)" "conns w2 = (conns w)(?a \<mapsto> c)"
      "proto_data w2 = (proto_data w)(acct \<mapsto> ?p)" "id_counter w2 = id_counter w + 2" "next_addr w2 = ?p + 2"
      "history w2 = u @ history w"
    and c: "obj_id c = ?i" "\<not> invalid c" "c_parse_mode c = 1" "c_awaiting c = MessageBuffer []"
    and u: "\<not> list_ex (attempts (id_counter w + 2)) u" "\<And>j. reads j u = 0"
      "\<And>j tr. sent (u @ tr) j = sent tr j @ (if j = ?i then connectToGK_packet DEFAULT_USERAGENT else [])"
    by (rule login_begun [OF w(1,3,4) k fd(1), of acct]) blast
  have s: "s_connection ?s = Some ?a" "s_account ?s = acct" "obj_id ?s = id_counter w"
        by (simp_all add: first_session_def)
  have at2: "sessions w2 ?p = Some ?s" "conns w2 ?a = Some c" "id_counter w2 < int_max"
    "\<not> list_ex (attempts (id_counter w + 2)) (replicate n (SysRead (obj_id c) fd) @ u)" for n
    using w2 w(4) u(1) by (simp_all add: list_ex_iff) auto
  obtain x host port v k' w3 where x: "x \<in> set servers" "server_at x host port" "quiet v"
    and run: "run_callbacks E (replicate (length ds) (Readable (obj_id c) fd)) w2 = Some (Ok (), w3)" "reachable E w3"
    and w3: "w3 = switched E ?p ?s ?a (obj_id c) k' (v @ ProxyConnect (s_account ?s) (c_str host) port k' (id_counter w2)
        # replicate (length ds) (SysRead (obj_id c) fd) @ history w2) w2"
    by (rule gatekeeper_in_pieces [OF begun(3) w(2) at2(1) s(1) at2(2) c(2-4) fd w2(6) u(2) at2(4)
        data(1) [folded c(1)] data(2) g at2(3) k])
  let ?u = "v @ ProxyConnect acct (c_str host) port k' (id_counter w + 2) # replicate (length ds) (SysRead ?i fd) @ u"
  have hist: "history w3 = ?u @ history w" by (simp add: w3 switched_def s(2) w2(4,6) c(1))
  have free: "conns w ?a = None"
    using net_inv_conn(2) [OF conjunct1 [OF conjunct1 [OF reachable_sound [OF w(1,2)]]], of ?a]
    by (cases "conns w ?a") auto
  show ?thesis
  proof (rule that [OF begun(1,2) run(1) [unfolded c(1)] run(2) _ _ _ hist _ _ x(1,2), of k'])
    show "sessions w3 = (sessions w)(?p \<mapsto> first_session acct (id_counter w) (?p + 2))"
      by (simp add: w3 switched_def w2 first_session_def)
    show "conns w3 = (conns w)(?p + 2 \<mapsto> attempted E (id_counter w + 2) (id_counter w) k')"
      using free by (auto simp: w3 switched_def w2 s(3))
    show "proto_data w3 = (proto_data w)(acct \<mapsto> ?p)" by (simp add: w3 switched_def w2)
    show "reads (id_counter w + 2) ?u = 0" using reads_quiet [OF x(3)] by (simp add: u(2))
    show "sent (history w3) j = sent (history w) j
      @ (if j = ?i then connectToGK_packet DEFAULT_USERAGENT else [])" for j
      using x(3) unfolding hist by (simp add: quiet_def u(3))
  qed simp_all
qed

section \<open>The whole login\<close>

text \<open>C2.  A login succeeds: on a network that takes what it is given, when the gatekeeper's directory
  lists chat servers and the one that is picked accepts the login, then libpurple's call,
  the two connections and the two answers, each in any number of pieces, make the session
  of the account one that is logged in, with the session string and the groups it was told
  and one live connection, that to the chat server; libpurple knows that the account is
  connected; and the bytes sent are the request to the gatekeeper on the first connection,
  and on the second the login, the status, the first keep-alive and the two requests, and
  nothing else.\<close>

theorem login_sequence:
  assumes w: "reachable E w" "fresh_handles E" "eager E" "id_counter w + 2 < int_max"
    and net: "\<And>tr. ne_proxy_connect E tr \<noteq> 0" "\<And>tr fd. ne_input_error E tr fd = 0"
    and fd: "0 \<le> gfd" "0 \<le> cfd"
    and user: "ev_username E acct = Some name" "ev_password E acct = Some pass"
      "account_status E acct code st"
    and g: "gk_ok g" "servers = chat_servers (gk_directory g)" "servers \<noteq> []"
      "\<forall>x\<in>set servers. \<exists>host port. server_at x host port" and l: "login_ok l"
    and first: "delivers E (history w) (\<lambda>u. \<not> list_ex (attempts (id_counter w + 2)) u) (id_counter w + 1) gfd gs"
      "pieces gs (gk_frame g)"
    and second: "delivers E (history w) (list_ex (attempts (id_counter w + 2))) (id_counter w + 2) cfd cs"
      "pieces cs (intToDWord 1 @ intToDWord 0 @ put_string (login_body l))"
  shows "\<exists>w1 w2 w3 w4 w5 p s a c x host port k.
      rediffbol_login E acct w = Some (Ok (), w1)
    \<and> run_callback E (Connected (id_counter w + 1) gfd None) w1 = Some (Ok (), w2)
    \<and> run_callbacks E (replicate (length gs) (Readable (id_counter w + 1) gfd)) w2 = Some (Ok (), w3)
    \<and> run_callback E (Connected (id_counter w + 2) cfd None) w3 = Some (Ok (), w4)
    \<and> run_callbacks E (replicate (length cs) (Readable (id_counter w + 2) cfd)) w4 = Some (Ok (), w5)
    \<and> proto_data w5 = (proto_data w)(acct \<mapsto> p) \<and> sessions w5 = (sessions w)(p \<mapsto> s)
    \<and> conns w5 = (conns w)(a \<mapsto> c)
    \<and> \<not> invalid s \<and> s_account s = acct \<and> s_connection s = Some a \<and> s_connection_state s = 2
    \<and> s_session s = la_session l \<and> s_groups s = set (map lg_key (la_groups l))
    \<and> \<not> invalid c \<and> obj_id c = id_counter w + 2 \<and> c_fd c = Some cfd
    \<and> SetConnected acct \<in> set (history w5)
    \<and> x \<in> set servers \<and> server_at x host port
    \<and> ProxyConnect acct (c_str host) port k (id_counter w + 2) \<in> set (history w5)
    \<and> (\<forall>j. sent (history w5) j = sent (history w) j
        @ (if j = id_counter w + 1 then connectToGK_packet DEFAULT_USERAGENT
           else if j = id_counter w + 2 then connectToCS_packet (fixEmail name) pass
             @ setStatus_packet code st @ sendKeepAlive_packet 0
             @ sendOfflineMessagesRequest_packet @ sendGetAddRequest_packet
           else []))"
proof -
  let ?p = "next_addr w" and ?a = "next_addr w + 2"
  obtain w1 w2 w3 k u x host port where gk: "rediffbol_login E acct w = Some (Ok (), w1)"
      "run_callback E (Connected (id_counter w + 1) gfd None) w1 = Some (Ok (), w2)"
      "run_callbacks E (replicate (length gs) (Readable (id_counter w + 1) gfd)) w2 = Some (Ok (), w3)"
      "reachable E w3"
    and sess: "sessions w3 = (sessions w)(?p \<mapsto> first_session acct (id_counter w) ?a)"
    and conns: "conns w3 = (conns w)(?a \<mapsto> attempted E (id_counter w + 2) (id_counter w) k)"
    and proto: "proto_data w3 = (proto_data w)(acct \<mapsto> ?p)"
    and hist: "history w3 = u @ history w" "reads (id_counter w + 2) u = 0" "list_ex (attempts (id_counter w + 2)) u"
    and x: "x \<in> set servers" "server_at x host port"
      "ProxyConnect acct (c_str host) port k (id_counter w + 2) \<in> set u"
    and sent3: "\<And>j. sent (history w3) j = sent (history w) j
      @ (if j = id_counter w + 1 then connectToGK_packet DEFAULT_USERAGENT else [])"
    by (rule login_to_server [OF w net(1) fd(1) net(2) g first, of acct]) blast+
  define s where "s = first_session acct (id_counter w) ?a"
  define c where "c = attempted E (id_counter w + 2) (id_counter w) k"
  have s: "sessions w3 ?p = Some s" "s_connection s = Some ?a" "s_connection_state s < 2"
      "s_keep_alive_counter s = 0" "s_account s = acct" "\<not> invalid s" "s_groups s = {}"
    using sess by (simp_all add: s_def) (simp_all add: first_session_def)
  have c: "conns w3 ?a = Some c" "\<not> invalid c" "c_rx c = 0" "c_tx c = 0" "c_parse_mode c = 0"
      "c_awaiting c = MessageBuffer []" "obj_id c = id_counter w + 2"
    using conns by (simp_all add: c_def attempted_def fresh_conn_def)
  have on: "reads (obj_id c) u = 0" "list_ex (attempts (obj_id c)) (v @ u)" for v
    using hist(2,3) by (simp_all add: c(7) list_ex_append)
  obtain w4 w5 h c' where chat: "run_callback E (Connected (obj_id c) cfd None) w3 = Some (Ok (), w4)"
      "run_callbacks E (replicate (length cs) (Readable (obj_id c) cfd)) w4 = Some (Ok (), w5)"
      "sessions w5 = (sessions w3)(?p \<mapsto> running h (signed_on l s))"
      "conns w5 = (conns w3)(?a \<mapsto> c')" "obj_id c' = obj_id c" "\<not> invalid c'"
      "c_fd c' = Some cfd" "proto_data w5 = proto_data w3"
      "SetConnected (s_account s) \<in> set (history w5)" "set (history w3) \<subseteq> set (history w5)"
      "\<And>j. sent (history w5) j = sent (history w3) j @ (if j = obj_id c
        then connectToCS_packet (fixEmail name) pass @ first_packets code st else [])"
    by (rule login_on_server [where l = l and P = "list_ex (attempts (obj_id c))", OF gk(4) w(2,3) s(1-4) c(1-6) fd(2) net(2), unfolded s(5),
          OF user hist(1) on second(1) [folded c(7)] second(2) l]) (simp add: s(5))
  let ?s = "running h (signed_on l s)"
  have s': "\<not> invalid ?s" "s_account ?s = acct" "s_connection ?s = Some ?a" "s_connection_state ?s = 2"
    "s_session ?s = la_session l" "s_groups ?s = set (map lg_key (la_groups l))"
    using s by (simp_all add: running_def) (simp_all add: signed_on_def join_all_def named_def)
  have "sent (history w5) j = sent (history w) j
        @ (if j = id_counter w + 1 then connectToGK_packet DEFAULT_USERAGENT
           else if j = id_counter w + 2 then connectToCS_packet (fixEmail name) pass
             @ setStatus_packet code st @ sendKeepAlive_packet 0
             @ sendOfflineMessagesRequest_packet @ sendGetAddRequest_packet
           else [])" for j
    using chat(11) [of j] sent3 [of j] by (auto simp: c(7) first_packets_def)
  moreover have "ProxyConnect acct (c_str host) port k (id_counter w + 2) \<in> set (history w5)"
    using x(3) chat(10) by (auto simp: hist(1))
  moreover have "sessions w5 = (sessions w)(?p \<mapsto> ?s)" "conns w5 = (conns w)(?a \<mapsto> c')"
    "proto_data w5 = (proto_data w)(acct \<mapsto> ?p)"
    using chat(3,4,8) sess conns proto by simp_all
  ultimately show ?thesis
    using gk chat(1,2,5-7,9) s' x(1,2) unfolding c(7) s(5) by blast
qed

text \<open>
  The gatekeeper answers until the second connection is attempted, and then the chat server,
  in three pieces.
\<close>

definition login_pieces :: "string list" where
  "login_pieces = [take 2 (put_string login_packet), take 30 (drop 2 (put_string login_packet)),
     drop 32 (put_string login_packet)]"

definition meet_env :: "string env" where
  "meet_env = demo_env\<lparr>ne_read := (\<lambda>tr fd. ReadData
     (if list_ex (attempts 2) tr then login_pieces ! reads 2 tr else put_string (gk_frame demo_answer)))\<rparr>"

lemma meet_sel:
  "ne_proxy_connect meet_env = (\<lambda>tr. 1)" "ne_input_error meet_env = (\<lambda>tr fd. 0)"
  "ne_write meet_env = (\<lambda>tr fd d. (int (length d), False))"
  "ev_username meet_env = (\<lambda>acct. Some ''me'')" "ev_password meet_env = (\<lambda>acct. Some ''pw'')"
  "ev_status_message meet_env = (\<lambda>tr acct. None)" "ev_status_id meet_env = (\<lambda>tr acct. Some ''online'')"
  by (simp_all add: meet_env_def demo_sel)

theorem login_sequence_witness:
  "\<exists>w1 w2 w3 w4 w5 p s. rediffbol_login meet_env 0 start_world = Some (Ok (), w1)
    \<and> run_callback meet_env (Connected 1 7 None) w1 = Some (Ok (), w2)
    \<and> run_callbacks meet_env [Readable 1 7] w2 = Some (Ok (), w3)
    \<and> run_callback meet_env (Connected 2 7 None) w3 = Some (Ok (), w4)
    \<and> run_callbacks meet_env [Readable 2 7, Readable 2 7, Readable 2 7] w4 = Some (Ok (), w5)
    \<and> sessions w5 = [p \<mapsto> s] \<and> s_connection_state s = 2 \<and> s_session s = ''sid''
    \<and> SetConnected 0 \<in> set (history w5)
    \<and> sent (history w5) 1 = connectToGK_packet DEFAULT_USERAGENT
    \<and> sent (history w5) 2 = connectToCS_packet (fixEmail ''me'') ''pw'' @ setStatus_packet 1 ''online''
        @ sendKeepAlive_packet 0 @ sendOfflineMessagesRequest_packet @ sendGetAddRequest_packet"
proof -
  have start: "id_counter start_world = 0" "history start_world = []" "sessions start_world = Map.empty"
    by (simp_all add: start_world_def)
  have E: "fresh_handles meet_env" "eager meet_env"
    using demo_fresh(1) by (simp_all add: fresh_handles_def meet_env_def eager_def demo_sel)
  have status: "account_status meet_env 0 1 ''online''"
    by (simp add: account_status_def meet_sel SAFE_def status_code_def c_tolower_def)
  have servers: "\<forall>x\<in>set [''cs:5555'']. \<exists>host port. server_at x host port"
    using demo_port by (auto simp: server_at_def intro!: exI [of _ "''cs''"])
  have l: "login_ok demo_answer_body" by (simp add: login_ok_def demo_answer_body_def cint_def)
  have first: "delivers meet_env [] (\<lambda>u. \<not> list_ex (attempts 2) u) 1 7 [put_string (gk_frame demo_answer)]"
    and second: "delivers meet_env [] (list_ex (attempts 2)) 2 7 login_pieces"
    by (simp_all add: delivers_def meet_env_def)
  have "take 2 xs @ take 30 (drop 2 xs) @ drop 32 xs = xs" for xs :: string
    using append_take_drop_id [of 30 "drop 2 xs"] append_take_drop_id [of 2 xs] by simp
  then have "put_string login_packet = concat login_pieces" by (simp add: login_pieces_def)
  moreover have "32 < length (put_string login_packet)"
    by (simp add: demo_answer_body_def login_body_def put_lists_def put_items_def)
  ultimately have pieces: "pieces [put_string (gk_frame demo_answer)] (gk_frame demo_answer)"
      "pieces login_pieces login_packet"
    using demo_gk_reply(2) login_packet_length put_not_Nil(1) [of "gk_frame demo_answer", symmetric]
    by (auto simp: pieces_def login_pieces_def)
  have count: "replicate (length login_pieces) x = [x, x, x]" "replicate (length [y]) x = [x]" for x :: callback and y :: string
    by (simp_all add: login_pieces_def)
  have small: "0 + 2 < int_max" "(1::int) \<noteq> 0" "(0::int) = 0" "(0::int) \<le> 7" by (simp_all add: int_max_def)
  have idle: "ne_proxy_connect meet_env tr \<noteq> 0" "ne_input_error meet_env tr fd = 0" for tr fd
    by (simp_all add: meet_sel)
  have user: "ev_username meet_env 0 = Some ''me''" "ev_password meet_env 0 = Some ''pw''"
    by (simp_all add: meet_sel)
  have sid: "la_session demo_answer_body = ''sid''" by (simp add: demo_answer_body_def)
  have two: "(0::int) + 2 = 2" "(0::int) + 1 = 1" by simp_all
  note out = login_sequence [where w = start_world and gfd = 7 and cfd = 7, unfolded start two,
      OF reachable.start E small(1) [unfolded two] idle small(4,4) user status demo_gk_reply(3)
        demo_servers [symmetric] list.distinct(2) servers l first pieces(1) second pieces(2), unfolded count]
  show ?thesis
    using out unfolding sid
    by (elim exE conjE) (intro exI conjI, assumption+, simp_all)
qed

end
