(* ===== verification/Notices.thy ===== *)
theory Notices
  imports Deliveries DemoChat
begin

text \<open>
  What the chat server sends of its own accord, as an abstract machine: each notice has its
  frame on the wire and its effect on the session and on what libpurple is told.  The read
  callback implements it, for any sequence of notices and wherever the stream is cut.
\<close>

section \<open>The notices\<close>

text \<open>Packets of type 3 have a name and a body of their own.\<close>

datatype push =
    Said string string "chat_part list"      \<comment> \<open>from, to, text\<close>
  | SaidByPhone string string string         \<comment> \<open>to, from, text\<close>
  | Types string string                      \<comment> \<open>from, to\<close>
  | NewMail string                           \<comment> \<open>the number of messages, in decimal\<close>
  | Roster "contact list" string
  | NewStatus string int string int string   \<comment> \<open>name, status, text, code, version\<close>
  | AsksToAdd string string string string    \<comment> \<open>the user, number of the request, from, nick\<close>
  | UnknownCommand string string

fun push_name :: "push \<Rightarrow> string" where
  "push_name (Said _ _ _) = ''TextMessage''"
| "push_name (SaidByPhone _ _ _) = ''MessageFromMobileUser''"
| "push_name (Types _ _) = ''TypingNotify''"
| "push_name (NewMail _) = ''NewMailCount''"
| "push_name (Roster _ _) = ''Contacts''"
| "push_name (NewStatus _ _ _ _ _) = ''ContactStatusChange2''"
| "push_name (AsksToAdd _ _ _ _) = ''ContactAddRequest''"
| "push_name (UnknownCommand name _) = name"

fun push_body :: "push \<Rightarrow> string" where
  "push_body (Said sender recipient ps) =
     put_string sender @ put_string recipient @ put_string (concat (map put_part ps))"
| "push_body (SaidByPhone to sender msg) = put_string to @ put_string sender @ put_string msg"
| "push_body (Types sender to) = put_string sender @ put_string to"
| "push_body (NewMail n) = put_string n"
| "push_body (Roster ks cid) = contacts_body ks cid"
| "push_body (NewStatus name status msg code version) = status_body name status msg code version"
| "push_body (AsksToAdd user reqId sender nick) =
     put_string user @ put_string reqId @ put_string sender @ put_string nick"
| "push_body (UnknownCommand _ body) = body"

definition known_commands :: "string list" where
  "known_commands = [''Contacts'', ''NewMailCount'', ''ContactStatusChange2'', ''ContactAddRequest'',
     ''TextMessage'', ''MessageFromMobileUser'', ''TypingNotify'', ''Disconnect'']"

fun push_ok :: "'b env \<Rightarrow> push \<Rightarrow> bool" where
  "push_ok E (Said _ _ ps) = list_all (part_ok E) ps"
| "push_ok E (NewMail n) = (atoi n \<noteq> None)"
| "push_ok E (Roster ks _) = list_all contact_ok ks"
| "push_ok E (NewStatus _ status _ code _) = (cint status \<and> cint code)"
| "push_ok E (UnknownCommand name _) = (name \<notin> set known_commands)"
| "push_ok E _ = True"

text \<open>The other packets: the answer to a keep-alive, an error, and types nobody knows.\<close>

datatype notice =
    Push string push
  | KeptAlive string
  | ServerError int int string string int
  | UnknownType int string

fun notice_frame :: "notice \<Rightarrow> string" where
  "notice_frame (Push header x) =
     intToDWord 3 @ put_string header @ put_string (push_name x) @ put_string (push_body x)"
| "notice_frame (KeptAlive body) = intToDWord 1 @ body"
| "notice_frame (ServerError code sz msg reason code2) =
     intToDWord 2 @ intToDWord code @ intToDWord sz @ put_string msg @ put_string reason @ intToDWord code2"
| "notice_frame (UnknownType n body) = intToDWord n @ body"

fun notice_ok :: "'b env \<Rightarrow> notice \<Rightarrow> bool" where
  "notice_ok E (Push _ x) = push_ok E x"
| "notice_ok E (KeptAlive body) = (length body = 8)"
| "notice_ok E (ServerError code sz _ _ code2) = (cint code \<and> cint sz \<and> cint code2)"
| "notice_ok E (UnknownType n _) = (cint n \<and> n \<notin> {1, 2, 3})"

section \<open>The machine\<close>

text \<open>Its state is the session and the history of what libpurple was told.\<close>

fun push_step :: "'b env \<Rightarrow> nat \<Rightarrow> push \<Rightarrow> sess \<times> event list \<Rightarrow> sess \<times> event list" where
  "push_step E p (Said sender _ ps) (s, tr) =
     (s, GotIm (s_account s) (c_str sender) (c_str (concat (map (render E) ps))) (ev_time E tr) # tr)"
| "push_step E p (SaidByPhone _ sender msg) (s, tr) =
     (s, GotIm (s_account s) (c_str sender) (c_str msg) (ev_time E tr) # tr)"
| "push_step E p (Types sender _) (s, tr) = (s, GotTyping (s_account s) (c_str sender) 60 # tr)"
| "push_step E p (NewMail n) (s, tr) =
     (s, NotifyEmails (s_account s) (the (atoi n)) (SAFE (ev_username E (s_account s))) # tr)"
| "push_step E p (Roster ks _) (s, tr) = (s, rev (map (contact_event (s_account s)) ks) @ tr)"
| "push_step E p (NewStatus name status msg _ _) (s, tr) =
     (let tr' = GotUserStatus (s_account s) (c_str name) (getStatusFromID status) (Some (c_str msg)) # tr
      in (with_status name msg s,
          if ev_find_buddy E tr' (s_account s) (c_str name)
          then UpdateBuddyStatus (s_account s) (c_str name) # tr' else tr'))"
| "push_step E p (AsksToAdd user reqId sender nick) (s, tr) =
     (s, RequestAuthorization (s_account s) \<lparr>ar_conn = p, ar_localid = user, ar_from = sender,
        ar_from2 = nick, ar_reqId = reqId\<rparr> # tr)"
| "push_step E p (UnknownCommand _ _) v = v"

fun notice_step :: "'b env \<Rightarrow> nat \<Rightarrow> notice \<Rightarrow> sess \<times> event list \<Rightarrow> sess \<times> event list" where
  "notice_step E p (Push _ x) v = push_step E p x v"
| "notice_step E p _ v = v"

lemma notice_step_shape: "sess_shape (fst (notice_step E p n v)) = sess_shape (fst v)"
proof (cases n)
  case (Push h x)
  then show ?thesis by (cases v; cases x) (simp_all add: Let_def with_status_def sess_shape_def)
qed simp_all

text \<open>The state of the machine, put into a world.\<close>

definition shown :: "nat \<Rightarrow> sess \<times> event list \<Rightarrow> 'b world \<Rightarrow> 'b world" where
  "shown p v w = set_sess p (Some (fst v)) (w\<lparr>history := snd v\<rparr>)"

lemma shown_simps [simp]:
  "sessions (shown p v w) = (sessions w)(p \<mapsto> fst v)" "conns (shown p v w) = conns w"
  "history (shown p v w) = snd v" "id_map (shown p v w) = id_map w"
  "id_counter (shown p v w) = id_counter w" "proto_data (shown p v w) = proto_data w"
  by (simp_all add: shown_def)

lemma shown_shown: "shown p u (shown p v w) = shown p u w"
  by (simp add: shown_def set_sess_def)

lemma shown_events: "sessions w p = Some s \<Longrightarrow> shown p (s, tr) w = w\<lparr>history := tr\<rparr>"
  by (simp add: shown_def set_sess_def fun_upd_idem)

lemma shown_same: "sessions w p = Some s \<Longrightarrow> shown p (s, history w) w = w"
  by (simp add: shown_events)

section \<open>One notice is parsed\<close>

lemma eats_parseNewMailsResponse:
  assumes "sessions w p = Some s" and "atoi n = Some k"
  shows "eats (put_string (put_string n)) w (parseNewMailsResponse E p) () []
    (emit (NotifyEmails (s_account s) k (SAFE (ev_username E (s_account s)))) w)"
  unfolding parseNewMailsResponse_def
  by (rule eats_enter eats_rules yields_rules assms(1) | simp add: assms(2))+

lemma eats_parseMessageFromMobileUser:
  assumes "sessions w p = Some s"
  shows "eats (put_string (put_string to @ put_string sender @ put_string msg)) w
    (parseMessageFromMobileUser E p) () []
    (emit (GotIm (s_account s) (c_str sender) (c_str msg) (ev_time E (history w))) w)"
  unfolding parseMessageFromMobileUser_def
  by (rule eats_enter eats_rules yields_rules assms)+

lemma eats_parseContactAddRequest:
  assumes "sessions w p = Some s"
  shows "eats (put_string (put_string user @ put_string reqId @ put_string sender @ put_string nick)) w
    (parseContactAddRequest p) () []
    (emit (RequestAuthorization (s_account s) \<lparr>ar_conn = p, ar_localid = user, ar_from = sender,
        ar_from2 = nick, ar_reqId = reqId\<rparr>) w)"
  unfolding parseContactAddRequest_def request_authorization_def
  by (rule eats_enter eats_rules yields_rules assms)+

lemma eats_skip_payload: "eats (put_string s) w skip_payload () [] w"
proof -
  have "eats (put_string s @ []) w (onL readInt) (len s) (s @ []) w" by (rule eats_length)
  then have size: "eats (put_string s) w (onL readInt) (len s) s w" by simp
  have "eats s w (onL (readStringn (len s))) s [] w"
  proof (rule eats_onL)
    fix b assume b: "at b s"
    then have "cint (len s)" using at_length [OF b] by (simp add: cint_def)
    then show "\<exists>b'. yields b (readStringn (len s)) s b' \<and> at b' []"
      using b by (auto simp: at_def yields_def readStringn_run mb_wf_adv rest_adv)
  qed
  with size show ?thesis
    unfolding skip_payload_def by (rule eats_bindM [OF _ eats_bindM [OF _ eats_ret]])
qed

text \<open>The name of the command selects the parser of its body.\<close>

fun parser_of :: "'b env \<Rightarrow> nat \<Rightarrow> push \<Rightarrow> (msgbuf \<times> 'b world, unit) M" where
  "parser_of E p (Said _ _ _) = parseTextMessage E p"
| "parser_of E p (SaidByPhone _ _ _) = parseMessageFromMobileUser E p"
| "parser_of E p (Types _ _) = parseTypingNoficiationResponse p"
| "parser_of E p (NewMail _) = parseNewMailsResponse E p"
| "parser_of E p (Roster _ _) = parseCSContacts p"
| "parser_of E p (NewStatus _ _ _ _ _) = parseContactStatusChange E p"
| "parser_of E p (AsksToAdd _ _ _ _) = parseContactAddRequest p"
| "parser_of E p (UnknownCommand _ _) = skip_payload"

lemma eats_dispatch:
  assumes "push_ok E x" and "eats (put_string (push_body x)) w (parser_of E p x) () [] w'"
  shows "eats (put_string header @ put_string (push_name x) @ put_string (push_body x)) w
    (parse_type3 E p) () [] w'"
proof -
  have pick: "(if push_name x = ''Contacts'' then parseCSContacts p
     else if push_name x = ''NewMailCount'' then parseNewMailsResponse E p
     else if push_name x = ''ContactStatusChange'' then skip_payload
     else if push_name x = ''ContactStatusChange2'' then parseContactStatusChange E p
     else if push_name x = ''ContactAddRequest'' then parseContactAddRequest p
     else if push_name x = ''TextMessage'' then parseTextMessage E p
     else if push_name x = ''MessageFromMobileUser'' then parseMessageFromMobileUser E p
     else if push_name x = ''TypingNotify'' then parseTypingNoficiationResponse p
     else if push_name x = ''Disconnect'' then onR (setStateNetworkError E p NameInUse logged_in_elsewhere)
     else skip_payload) = parser_of E p x"
    using assms(1) by (cases x) (simp_all add: known_commands_def)
  show ?thesis
    unfolding parse_type3_def
    by (rule eats_bindM, rule eats_string(1), rule eats_bindM, rule eats_string(1), unfold pick, rule assms(2))
qed

lemma eats_push_body:
  assumes s: "sessions w p = Some s" "\<not> invalid s" and x: "push_ok E x"
  shows "eats (put_string (push_body x)) w (parser_of E p x) () [] (shown p (push_step E p x (s, history w)) w)"
proof (cases x)
  case (NewStatus name status msg code version)
  then have n: "cint status" "cint code" using x by simp_all
  have "shown p (push_step E p x (s, history w)) w = status_changed E p s name status msg w"
    by (simp add: NewStatus shown_def status_changed_def Let_def emit_def set_sess_def)
  then show ?thesis using eats_parseContactStatusChange [OF s n] NewStatus by simp
next
  case (UnknownCommand name body)
  then show ?thesis using s(1) by (simp add: eats_skip_payload shown_same)
next
  case (NewMail n)
  then show ?thesis
    using x eats_parseNewMailsResponse [OF s(1), of n] s(1) by (auto simp: shown_events emit_def)
next
  case (Said sender recipient ps)
  then show ?thesis
    using x eats_parseTextMessage [OF s(1), of E ps] s(1) by (simp add: shown_events emit_def)
next
  case (SaidByPhone to sender msg)
  then show ?thesis
    using eats_parseMessageFromMobileUser [OF s(1)] s(1) by (simp add: shown_events emit_def)
next
  case (Types sender to)
  then show ?thesis
    using eats_parseTypingNoficiationResponse [OF s(1)] s(1) by (simp add: shown_events emit_def)
next
  case (Roster ks cid)
  then show ?thesis using x eats_parseCSContacts [OF s] s(1) by (simp add: shown_events)
next
  case (AsksToAdd user reqId sender name)
  then show ?thesis
    using eats_parseContactAddRequest [OF s(1)] s(1) by (simp add: shown_events emit_def)
qed

text \<open>The answer to a keep-alive is known by its length alone.\<close>

lemma parse_KeptAlive:
  assumes s: "sessions w p = Some s" "\<not> invalid s" and body: "length body = 8"
  shows "with_local (MessageBuffer (intToDWord 1 @ body)) (parseCSResponse E p) w = Some (Ok (), w)"
proof -
  let ?b = "MessageBuffer (intToDWord 1 @ body)"
  have wf: "mb_wf ?b" "rest ?b = intToDWord 1 @ body" "cint 1"
    using body by (simp_all add: mb_wf_new cint_def)
  let ?b' = "mb_adv (int (length (intToDWord 1))) ?b"
  have one: "readInt ?b = Some (Ok 1, ?b')" "at ?b' body"
    using int_codec.get_put [OF wf(1,3,2)] int_codec.get_then(2,3) [OF wf(1,3,2)]
    by (simp_all add: readInt_def at_def)
  have "getLength ?b' = Some (Ok 12, ?b')"
    using body by (simp add: getLength_def exec to_int32_id cint_def mb_adv_def MessageBuffer_def)
  moreover have "mb_peek ?b' = Some (Ok body, ?b')" using one(2) by (simp add: at_def mb_peek_run)
  ultimately show ?thesis
    using s one(1) by (simp add: with_local_run parseCSResponse_def parse_type1_def thenM_run bindM_run
        onL_run onR_run assert_valid_run ret_run)
qed

lemma parse_notice:
  assumes s: "sessions w p = Some s" "\<not> invalid s" and n: "notice_ok E n"
    and len: "length (notice_frame n) < 2 ^ 31"
  shows "with_local (MessageBuffer (notice_frame n)) (parseCSResponse E p) w
    = Some (Ok (), shown p (notice_step E p n (s, history w)) w)"
proof (cases n)
  case (Push header x)
  then have "push_ok E x" using n by simp
  from eats_packet [OF eats_type3 [OF s eats_dispatch [OF this eats_push_body [OF s this]]]] len
  show ?thesis by (simp add: Push)
next
  case (KeptAlive body)
  then show ?thesis using parse_KeptAlive [OF s] n s(1) by (simp add: shown_same)
next
  case (ServerError code sz msg reason code2)
  then have i: "cint 2" "cint code" "cint sz" "cint code2" using n by (simp_all add: cint_def)
  have "eats (notice_frame n) w (parseCSResponse E p) () [] w"
    unfolding parseCSResponse_def parse_type2_def ServerError notice_frame.simps
    by (rule eats_rules yields_rules s i | simp)+
  then show ?thesis using eats_packet [OF _ len] s(1) by (simp add: ServerError shown_same)
next
  case (UnknownType k body)
  then have k: "cint k" "k \<notin> {1, 2, 3}" using n by simp_all
  have "ends (notice_frame n) w (parseCSResponse E p) (Ok ()) w"
    unfolding parseCSResponse_def UnknownType notice_frame.simps
    by (rule ends_thenM, rule eats_onR, rule yields_basic(7) [OF s], rule ends_bindM, rule eats_int(1),
        rule k(1)) (use k(2) in \<open>simp add: ends_eats [OF eats_ret]\<close>)
  then show ?thesis using ends_packet [OF _ len] s(1) by (simp add: UnknownType shown_same)
qed

section \<open>The stream\<close>

abbreviation notices_wire :: "notice list \<Rightarrow> string" where
  "notices_wire ns \<equiv> concat (map (\<lambda>n. put_string (notice_frame n)) ns)"

lemma read_loop_notices:
  assumes "sessions w p = Some s" and "\<not> invalid s" and "s_connection s = Some a"
    and "conns w a = Some c" and "c_parse_mode c = 0"
    and "c_awaiting c = MessageBuffer (notices_wire ns @ t)"
    and "length (notices_wire ns @ t) < 2 ^ 31"
    and "list_all (notice_ok E) ns" and "partial t"
  shows "read_loop E p a w = Some (Ok (), shown p (fold (notice_step E p) ns (s, history w))
    (set_conn a (Some (c\<lparr>c_awaiting := MessageBuffer t\<rparr>)) w))"
  using assms
proof (induction ns arbitrary: w s c)
  case Nil
  have "c\<lparr>c_awaiting := MessageBuffer t\<rparr> = c" using Nil.prems(6) by (cases c) simp
  then show ?case
    using Nil.prems read_loop_rest [OF Nil.prems(1,3,4) _ Nil.prems(9)]
    by (simp add: set_conn_same shown_same)
next
  case (Cons n ns)
  let ?r = "notices_wire ns @ t"
  let ?c = "c\<lparr>c_awaiting := MessageBuffer ?r\<rparr>"
  let ?v = "notice_step E p n (s, history w)"
  let ?w1 = "set_conn a (Some ?c) w"
  let ?w = "shown p ?v ?w1"
  have n: "notice_ok E n" "length (notice_frame n) < 2 ^ 31" using Cons.prems(7,8) by simp_all
  have s1: "sessions ?w1 p = Some s" using Cons.prems(1) by simp
  have parse: "with_local (MessageBuffer (notice_frame n)) (parseCSResponse E p) ?w1 = Some (Ok (), ?w)"
    using parse_notice [OF s1 Cons.prems(2) n] by simp
  have "at (c_awaiting c) (put_string (notice_frame n) @ ?r)"
    using Cons.prems(6,7) at_new [of "put_string (notice_frame n) @ ?r"] by simp
  from loop_turn_frame [OF Cons.prems(1,3,4,5) this] parse
  have "loop_turn E p a w = Some (Ok True, ?w)" by (simp add: thenM_run ret_run)
  then have "read_loop E p a w = read_loop E p a ?w" by (rule read_loop_more)
  also have "\<dots> = Some (Ok (), shown p (fold (notice_step E p) ns (fst ?v, history ?w))
      (set_conn a (Some (?c\<lparr>c_awaiting := MessageBuffer t\<rparr>)) ?w))"
    using Cons.prems notice_step_shape [of E p n "(s, history w)"]
    by (intro Cons.IH) (simp_all add: sess_shape_def)
  also have "set_conn a (Some (?c\<lparr>c_awaiting := MessageBuffer t\<rparr>)) ?w
      = shown p ?v (set_conn a (Some (c\<lparr>c_awaiting := MessageBuffer t\<rparr>)) w)"
    by (simp add: shown_def set_sess_def set_conn_def)
  finally show ?case by (simp add: shown_shown)
qed

text \<open>C3.  The read callback implements the machine: when bytes arrive that complete any number of
  notices, of which the first may have come in part before and the last be followed by the
  beginning of another, the session and what libpurple is told are what the machine makes
  of the notices in order, exactly the incomplete bytes are kept, and nothing else
  changes; error packets, answers to keep-alives and what the client does not know have no
  effect and do not disturb what follows.\<close>

theorem notices_refine:
  assumes "reachable E w" and "fresh_handles E"
    and c: "conns w a = Some c" "\<not> invalid c" "c_parse_mode c = 0" "c_awaiting c = MessageBuffer pre"
    and fd: "0 \<le> fd" "ne_input_error E (history w) fd = 0"
    and data: "ne_read E (history w) fd = ReadData d" "d \<noteq> []"
      "pre @ d = concat (map (\<lambda>n. put_string (notice_frame n)) ns) @ t"
      "length (concat (map (\<lambda>n. put_string (notice_frame n)) ns) @ t) < 2 ^ 31"
    and ns: "list_all (notice_ok E) ns" and t: "partial t"
  shows "\<exists>p s w' s'. sessions w p = Some s \<and> s_connection s = Some a
    \<and> run_callback E (Readable (obj_id c) fd) w = Some (Ok (), w')
    \<and> (s', history w') = fold (notice_step E p) ns (s, SysRead (obj_id c) fd # history w)
    \<and> sessions w' = (sessions w)(p \<mapsto> s')
    \<and> conns w' = (conns w)(a \<mapsto> c\<lparr>c_awaiting := MessageBuffer t\<rparr>)
    \<and> proto_data w' = proto_data w \<and> id_map w' = id_map w"
proof -
  note w = reachable_sound [OF assms(1,2)]
  obtain p s where p: "id_map w (c_handler_id c) = Some p" and s: "sessions w p = Some s"
    "\<not> invalid s" "s_connection s = Some a"
    by (rule live_conn_owner [OF w c(1,2)])
  have id: "id_map w (obj_id c) = Some a"
    by (rule net_inv_conn(1) [OF conjunct1 [OF conjunct1 [OF w]] c(1)])
  let ?w = "received a fd d w" and ?c = "c\<lparr>c_awaiting := MessageBuffer (pre @ d)\<rparr>"
  let ?v = "fold (notice_step E p) ns (s, SysRead (obj_id c) fd # history w)"
  let ?w' = "shown p ?v (taken a c fd t w)"
  have c': "conns ?w a = Some ?c" "c_parse_mode ?c \<noteq> 2" "sessions ?w p = Some s"
    using c s by simp_all
  have "read_loop E p a ?w = Some (Ok (), shown p (fold (notice_step E p) ns (s, history ?w))
      (set_conn a (Some (?c\<lparr>c_awaiting := MessageBuffer t\<rparr>)) ?w))"
    by (rule read_loop_notices [OF c'(3) s(2,3) c'(1) _ _ data(4) ns t]) (simp_all add: c data(3))
  then have "read_loop E p a ?w = Some (Ok (), ?w')"
    using received_taken [OF c(1), of t fd d] c(1) by simp
  then have "readCallback E p a ?w = Some (Ok (), ?w')"
    by (rule readCallback_loop [OF c'(3) s(3) c'(1,2)]) simp
  then have "run_callback E (Readable (obj_id c) fd) w = Some (Ok (), ?w')"
    unfolding read_data_run [OF id c(1,2) p fd data(1,2)] .
  then show ?thesis
    using s(1,3) by (intro exI [of _ p] exI [of _ s] exI [of _ ?w'] exI [of _ "fst ?v"]) simp
qed

definition demo_notices :: "notice list" where
  "demo_notices = [Push ''x'' (Types ''ann'' ''me''), KeptAlive ''........'', Push ''x'' (NewMail ''3''),
     Push ''x'' (UnknownCommand ''Foo'' ''bar''), UnknownType 9 [], Push ''x'' (NewStatus ''ann'' 2 ''out'' 0 [])]"

abbreviation demo_stream :: string where
  "demo_stream \<equiv> concat (map (\<lambda>n. put_string (notice_frame n)) demo_notices) @ intToDWord 1"

theorem notices_refine_witness:
  "\<exists>w' s'. run_callback (peer_env demo_stream) (Readable 2 8) (demo_chatting demo_stream) = Some (Ok (), w')
    \<and> sessions w' = [0 \<mapsto> s'] \<and> s_status_text s' = [''ann'' \<mapsto> ''out'']
    \<and> history w' = [GotUserStatus 0 ''ann'' ''away'' (Some ''out''), NotifyEmails 0 3 ''me'',
        GotTyping 0 ''ann'' 60, SysRead 2 8] @ history (demo_chatting demo_stream)"
proof -
  obtain c where c: "conns (demo_chatting demo_stream) 2 = Some c" "\<not> invalid c"
    "c_parse_mode c = 0" "c_awaiting c = MessageBuffer []" "obj_id c = 2"
    using demo_chatting_state(3) by blast
  have three: "atoi ''3'' = Some 3" by code_simp
  have len: "length demo_stream < 2 ^ 31" "demo_stream \<noteq> []"
    by (simp_all add: demo_notices_def status_body_def)
  have ok: "list_all (notice_ok (peer_env demo_stream)) demo_notices"
    by (simp add: demo_notices_def known_commands_def cint_def three)
  have t: "partial (intToDWord 1)"
    unfolding partial_def by (rule exI [of _ "''x''"], rule exI [of _ "''x''"]) (simp add: put_string_def)
  note out = notices_refine [OF demo_chatting_reachable peer_fresh c(1-4) _ _ _ len(2) _ len(1) ok t, of 8]
  obtain w' s' where w': "run_callback (peer_env demo_stream) (Readable 2 8) (demo_chatting demo_stream) = Some (Ok (), w')"
    "sessions w' = [0 \<mapsto> s']"
    "(s', history w') = fold (notice_step (peer_env demo_stream) 0) demo_notices
      (chat_session, SysRead 2 8 # history (demo_chatting demo_stream))"
    using out c(5) demo_chatting_state(4) [of demo_stream]
    by (auto simp: peer_sel demo_chatting_read split: if_splits)
  have step: "fold (notice_step (peer_env d) 0) demo_notices (chat_session, tr)
      = (with_status ''ann'' ''out'' chat_session, [GotUserStatus 0 ''ann'' ''away'' (Some ''out''),
         NotifyEmails 0 3 ''me'', GotTyping 0 ''ann'' 60] @ tr)" for d tr
    by (simp add: demo_notices_def three peer_sel demo_session_def c_str_def SAFE_def getStatusFromID_def)
  show ?thesis
    using w' unfolding step by (intro exI [of _ w'] exI [of _ s']) (simp add: with_status_def demo_session_def)
qed

end
