(* ===== verification/Drain.thy ===== *)
theory Drain
  imports Pieces Demo
begin

text \<open>
  The transmit queue empties: what is queued is sent when the event loop calls back often
  enough, and then the write input is removed.
\<close>

section \<open>One call\<close>

lemma max_read_empty: "circ_buffer E content \<Longrightarrow> (cb_max_read E q = 0) = (content q = [])"
  unfolding circ_buffer_def by (metis le_zero_eq list.size(3))

lemma write_cb_empty:
  assumes "circ_buffer E content" and c: "conns w a = Some c" "c_txbuf c = Some q" and "content q = []"
  shows "write_cb E rdErr a w
    = Some (Ok (), set_conn a (Some (c\<lparr>c_tx := 0\<rparr>)) (emit (InputRemove (c_tx c)) w))"
  using assms max_read_empty [OF assms(1), of q]
  by (simp add: write_cb_def bindM_run thenM_run get_conn_run out_run upd_conn_run)

lemma write_cb_takes:
  assumes E: "circ_buffer E content" "posix_write E"
    and c: "conns w a = Some c" "c_txbuf c = Some q" "c_fd c = Some fd"
    and ne: "content q \<noteq> []" and takes: "\<And>d. d \<noteq> [] \<Longrightarrow> 0 < fst (ne_write E (history w) fd d)"
  obtains n d q' where "write_cb E rdErr a w = Some (Ok (),
      set_conn a (Some (c\<lparr>c_txbuf := Some q'\<rparr>)) (emit (SysWrite (obj_id c) fd d (int n)) w))"
    and "take n d \<noteq> []" and "content q = take n d @ content q'"
proof -
  let ?m = "cb_max_read E q"
  let ?d = "cb_out E q ?m"
  let ?r = "fst (ne_write E (history w) fd ?d)"
  have m: "?m \<noteq> 0" "?m \<le> length (content q)" "?d = take ?m (content q)"
    using E(1) ne max_read_empty [OF E(1), of q] by (simp_all add: circ_buffer_def)
  then have r: "0 < ?r" using ne by (intro takes) simp
  have "?r \<le> int (length ?d)" using E(2) by (simp add: posix_write_def)
  then have n: "nat ?r \<le> ?m" "int (nat ?r) = ?r" using m r by simp_all
  let ?q = "cb_mark_read E q (nat ?r)"
  have q: "content ?q = drop (nat ?r) (content q)" using E(1) n(1) by (simp add: circ_buffer_def)
  have "take (nat ?r) ?d = take (nat ?r) (content q)" using n(1) by (simp add: m(3) min_def)
  then have "content q = take (nat ?r) ?d @ content ?q" by (simp add: q)
  moreover have "write_cb E rdErr a w = Some (Ok (),
      set_conn a (Some (c\<lparr>c_txbuf := Some ?q\<rparr>)) (emit (SysWrite (obj_id c) fd ?d (int (nat ?r))) w))"
    using c m(1) r n(2) by (simp add: write_cb_def bindM_run get_conn_run sys_write_run upd_conn_run)
  moreover have "take (nat ?r) ?d \<noteq> []" using m r ne by simp
  ultimately show ?thesis using that by blast
qed

section \<open>All of them\<close>

definition flushed :: "nat \<Rightarrow> 'b conn \<Rightarrow> string \<Rightarrow> 'b world \<Rightarrow> 'b world \<Rightarrow> bool" where
  "flushed a c bytes w w' \<longleftrightarrow> (\<exists>q. conns w' = (conns w)(a \<mapsto> c\<lparr>c_tx := 0, c_txbuf := Some q\<rparr>))
     \<and> sessions w' = sessions w \<and> id_map w' = id_map w \<and> watches (history w') (c_tx c) = None
     \<and> sent (history w') (obj_id c) = sent (history w) (obj_id c) @ bytes"

lemma drains:
  assumes E: "circ_buffer E content" "posix_write E"
    and "\<And>u d. d \<noteq> [] \<Longrightarrow> 0 < fst (ne_write E (u @ history w) fd d)"
    and "id_map w (obj_id c) = Some a" and "conns w a = Some c" and "c_txbuf c = Some q" and "c_fd c = Some fd"
  shows "\<exists>n w'. n \<le> Suc (length (content q))
    \<and> run_callbacks E (replicate n (Writable (obj_id c))) w = Some (Ok (), w') \<and> flushed a c (content q) w w'"
  using assms(3-7)
proof (induction "length (content q)" arbitrary: w c q rule: less_induct)
  case less
  note takes = less.prems(1) and id = less.prems(2) and c = less.prems(3-5)
  have cb: "run_callback E (Writable (obj_id c)) w = write_cb E (readError E) a w"
    using id by (simp add: conn_write_cb_def bindM_run getObjectById_run)
  show ?case
  proof (cases "content q = []")
    case True
    let ?w = "set_conn a (Some (c\<lparr>c_tx := 0\<rparr>)) (emit (InputRemove (c_tx c)) w)"
    have "c\<lparr>c_tx := 0, c_txbuf := Some q\<rparr> = c\<lparr>c_tx := 0\<rparr>" using c(2) by (cases c) simp
    then have "flushed a c (content q) w ?w"
      unfolding flushed_def by (intro conjI exI [of _ q]) (simp_all add: True)
    moreover have "run_callbacks E (replicate 1 (Writable (obj_id c))) w = Some (Ok (), ?w)"
      using cb write_cb_empty [OF E(1) c(1,2) True, of "readError E"] by (simp add: thenM_run ret_run)
    ultimately show ?thesis by (intro exI [of _ 1] exI [of _ ?w]) simp
  next
    case False
    obtain n d q' where step: "write_cb E (readError E) a w = Some (Ok (),
        set_conn a (Some (c\<lparr>c_txbuf := Some q'\<rparr>)) (emit (SysWrite (obj_id c) fd d (int n)) w))"
      and n: "take n d \<noteq> []" "content q = take n d @ content q'"
      by (rule write_cb_takes [OF E c False takes [of _ "[]", simplified], where rdErr = "readError E"])
    let ?c = "c\<lparr>c_txbuf := Some q'\<rparr>"
    let ?w = "set_conn a (Some ?c) (emit (SysWrite (obj_id c) fd d (int n)) w)"
    have less': "length (content q') < length (content q)" using n(1) by (simp add: n(2))
    obtain k w' where k: "k \<le> Suc (length (content q'))"
        "run_callbacks E (replicate k (Writable (obj_id ?c))) ?w = Some (Ok (), w')" "flushed a ?c (content q') ?w w'"
      using less.hyps [OF less', of ?w ?c] id c takes [of _ "u @ [SysWrite (obj_id c) fd d (int n)]" for u]
      by auto
    have "flushed a c (content q) w w'"
      using k(3) by (auto simp: flushed_def n(2))
    moreover have "run_callbacks E (replicate (Suc k) (Writable (obj_id c))) w = Some (Ok (), w')"
      using cb step k(2) by (simp add: thenM_run)
    ultimately show ?thesis using k(1) less' by (intro exI [of _ "Suc k"] exI [of _ w']) simp
  qed
qed

section \<open>In the reachable states\<close>

text \<open>C8.  What has been queued is sent: in every reachable state, if a connection has the write input
  registered and from then on the network takes at least one byte at a time, then after at
  most as many callbacks as bytes are queued, and one more, everything queued has been sent,
  the connection is still open, its write input is removed, and nothing else has changed.\<close>

theorem queue_drains:
  assumes "reachable E w" and "fresh_handles E" and E: "circ_buffer E content" "posix_write E"
    and c: "conns w a = Some c" "\<not> invalid c" "c_tx c \<noteq> 0" "c_fd c = Some fd"
    and takes: "\<And>u d. d \<noteq> [] \<Longrightarrow> 0 < fst (ne_write E (u @ history w) fd d)"
  shows "\<exists>q n w' q'. c_txbuf c = Some q \<and> n \<le> length (content q) + 1
    \<and> run_callbacks E (replicate n (Writable (obj_id c))) w = Some (Ok (), w')
    \<and> conns w' = (conns w)(a \<mapsto> c\<lparr>c_tx := 0, c_txbuf := Some q'\<rparr>)
    \<and> sent (history w') (obj_id c) = sent (history w) (obj_id c) @ content q
    \<and> watches (history w') (c_tx c) = None \<and> sessions w' = sessions w \<and> id_map w' = id_map w"
proof -
  note w = reachable_sound [OF assms(1,2)]
  have ok: "conn_ok c" and id: "id_map w (obj_id c) = Some a"
    using net_inv_conn [OF conjunct1 [OF conjunct1 [OF w]] c(1)] by simp_all
  then obtain q where q: "c_txbuf c = Some q" using c(2) by (auto simp: conn_ok_def)
  obtain n w' where "n \<le> Suc (length (content q))"
    "run_callbacks E (replicate n (Writable (obj_id c))) w = Some (Ok (), w')" "flushed a c (content q) w w'"
    using drains [OF E takes id c(1) q c(4)] by blast
  then show ?thesis using q by (auto simp: flushed_def)
qed

text \<open>A network that takes nothing at first and then ten bytes at a time.\<close>

definition late_env :: "string env" where
  "late_env = demo_env\<lparr>ne_write := (\<lambda>tr fd d.
     if list_ex is_write tr then (min 10 (int (length d)), False) else (-1, True))\<rparr>"

lemma late_sel:
  "ne_proxy_connect late_env = (\<lambda>tr. 1)" "ne_input_add late_env = (\<lambda>tr. top_handle tr + 1)"
  "cb_new late_env = []" "cb_append late_env = (@)"
  "ne_write late_env = (\<lambda>tr fd d. if list_ex is_write tr then (min 10 (int (length d)), False) else (-1, True))"
  by (simp_all add: late_env_def demo_sel)

lemma late_documented: "fresh_handles late_env" "circ_buffer late_env (\<lambda>q. q)" "posix_write late_env"
  using demo_fresh(1) demo_circ_buffer(1)
  by (simp_all add: fresh_handles_def circ_buffer_def posix_write_def late_env_def)

lemma late_reachable: "reachable late_env slow_connected"
proof -
  have login: "run_call late_env (Login 0) start_world = Some (Ok (), demo_login slow_env)"
    by (simp add: demo_login_state demo_exec late_sel fun_upd_twist demo_session_def demo_conn_def
        c_str_def GATEKEEPER_def)
  have connected: "run_callback late_env (Connected 1 7 None) (demo_login slow_env) = Some (Ok (), slow_connected)"
    by (simp add: demo_login_state connected_exec demo_conn_def demo_session_def slow_connected_def
        late_sel gk_request_not_Nil set_conn_def emit_def)
  show ?thesis
    by (rule reachable.more [OF reachable.more [OF reachable.start step.libpurple [OF login]]
          step.event [OF connected]])
qed

theorem queue_drains_witness:
  "\<exists>n w'. n \<le> length gk_request + 1
    \<and> run_callbacks late_env (replicate n (Writable 1)) slow_connected = Some (Ok (), w')
    \<and> sent (history w') 1 = gk_request \<and> watches (history w') 2 = None
    \<and> sessions w' = sessions slow_connected"
proof -
  let ?c = "demo_conn\<lparr>c_attempt := 0, c_fd := Some 7, c_rx := 1, c_tx := 2, c_txbuf := Some gk_request\<rparr>"
  have c: "conns slow_connected 1 = Some ?c" "\<not> invalid ?c" "c_tx ?c \<noteq> 0" "c_fd ?c = Some 7"
    by (simp_all add: slow_connected_def demo_conn_def)
  have takes: "d \<noteq> [] \<Longrightarrow> 0 < fst (ne_write late_env (u @ history slow_connected) 7 d)" for u d
    by (simp add: late_sel slow_connected_def)
  have before: "sent (history slow_connected) 1 = []"
    by (simp add: slow_connected_def demo_login_state)
  show ?thesis
    using queue_drains [OF late_reachable late_documented c takes] before
    by (simp add: demo_conn_def) blast
qed

end
