(* ===== verification/Calls.thy ===== *)
theory Calls
  imports Demo Progress
begin

text \<open>
  The calls libpurple makes on an account: that each returns while the session has a
  connection, and what it does once the session has ended but is not closed yet.
\<close>

section \<open>While the session has a connection\<close>









section \<open>After the session has ended\<close>



end
