(* ===== verification/Modes.thy ===== *)
theory Modes
  imports Lifecycle
begin

text \<open>
  The mode of a connection is 0 for the chat server, 1 for the gatekeeper and 2 for
  the gatekeeper over HTTP.  No reachable state has a connection in the third mode:
  the only call that makes one destroys it before it returns.
\<close>

definition no_http :: "'b world \<Rightarrow> bool" where
  "no_http w \<longleftrightarrow> (\<forall>a c. conns w a = Some c \<longrightarrow> c_parse_mode c \<noteq> 2)"

lemma no_http_set_conn: "no_http w \<Longrightarrow> c_parse_mode c \<noteq> 2 \<Longrightarrow> no_http (set_conn a (Some c) w)"
  by (auto simp: no_http_def)

lemma no_http_simps [simp]:
  "no_http (emit e w) = no_http w" "no_http (set_sess p x w) = no_http w"
  "no_http (set_proto acct y w) = no_http w" "no_http (reg_erase i w) = no_http w"
  "no_http (reg_add p w) = no_http w" "no_http (w\<lparr>next_addr := n\<rparr>) = no_http w"
  by (simp_all add: no_http_def)

section \<open>Calls that keep it\<close>

lemma no_http_prim [pres_intro]:
  "pres no_http (out e)" "pres no_http (upd_sess p g)" "pres no_http (RObject p)"
  "pres no_http (destroy_RObject i)" "pres no_http (modM (set_sess p y))"
  "pres no_http (modM (set_proto acct z))" "pres no_http (modM (\<lambda>w. w\<lparr>next_addr := n\<rparr>))"
  "pres no_http (modM (set_conn a None))"
  by (auto simp: valid_def exec no_http_def split: option.splits if_splits)

lemma no_http_upd_conn:
  "(\<And>c. c_parse_mode (f c) = c_parse_mode c \<or> c_parse_mode (f c) \<noteq> 2) \<Longrightarrow> pres no_http (upd_conn a f)"
  unfolding pres_iff by (auto simp: exec no_http_def split: option.splits) metis+

lemma no_http_conn [pres_intro]:
  "pres no_http (conn_close E a)" "pres no_http (delete_conn E k)"
  "pres no_http (establish_connection E getProxyAccount a ip port)"
  "(\<And>p. pres no_http (m p)) \<Longrightarrow> pres no_http (if_HANDLER a m)"
  unfolding conn_close_def close_attempt_def close_fd_def close_tx_def close_rx_def
    delete_conn_def establish_connection_def if_HANDLER_def HANDLER_def
  by (intro pres_intro no_http_upd_conn; simp add: setInvalid_def)+

lemma no_http_new_conn [pres_intro]: "pm \<noteq> 2 \<Longrightarrow> pres no_http (new_conn E i pm)"
  by (rule valid_quiet [OF quiet_new_conn])
    (fastforce simp: no_http_def fresh_conn_def dest!: new_conn_OkD(2) split: if_splits)

lemma no_http_error [pres_intro]:
  "pres no_http (softDestroy E p)" "pres no_http (setStateNetworkError E p r m)"
  "pres no_http (readError E p a)" "pres no_http (connectionError E p e a)"
  unfolding softDestroy_def setStateNetworkError_def readError_def connectionError_def
  by (intro pres_intro)+

lemma no_http_write [pres_intro]:
  "pres no_http (conn_write E (readError E) a d)" "pres no_http (write_cb E (readError E) a)"
  "pres no_http (sess_write E p d)"
  unfolding conn_write_def write_cb_def sess_write_def sys_write_def enqueue_def
  by (intro pres_intro no_http_upd_conn; simp)+

lemma no_http_login [pres_intro]:
  "pres no_http (startLogin E p)" "pres no_http (switch_server E p ip port)"
  "pres no_http (new_session acct)" "pres no_http (destroy_session E p)"
  unfolding startLogin_def switch_server_def new_session_def destroy_session_def
  by (intro pres_intro; simp)+

section \<open>The call that makes one\<close>

text \<open>A session \<open>p\<close> owns the only connection that may be in the HTTP mode.\<close>

definition only_http :: "nat \<Rightarrow> nat \<Rightarrow> 'b world \<Rightarrow> bool" where
  "only_http p n w \<longleftrightarrow> (\<exists>s. sessions w p = Some s \<and> s_connection s = Some n)
     \<and> (\<forall>a c. conns w a = Some c \<longrightarrow> a \<noteq> n \<longrightarrow> c_parse_mode c \<noteq> 2)"

lemma setStateNetworkError_removes:
  "valid (only_http p n) (setStateNetworkError E p r m) (\<lambda>_. no_http) X"
proof (rule valid_quiet [OF quiet_setStateNetworkError])
  fix w u w'
  assume w: "only_http p n w" and run: "setStateNetworkError E p r m w = Some (Ok u, w')"
  obtain s where s: "sessions w p = Some s" "s_connection s = Some n"
    using w by (auto simp: only_http_def)
  have v: "\<not> invalid s" using run s by (auto simp: setStateNetworkError_def exec split: if_splits)
  obtain w1 w2 w3 where d: "softDestroy E p w = Some (Ok (), w3)" and w': "conns w' = conns w3"
    using run s v
    by (auto simp: setStateNetworkError_def thenM_def prim split: option.splits elim!: bindM_SomeE)
  define K :: "('a world, unit) M" where
    "K = thenM (delete_conn E (Some n)) (upd_sess p (\<lambda>s. s\<lparr>s_connection := None\<rparr>))"
  define w1 where "w1 = set_sess p (Some (setInvalid (s\<lparr>s_keep_alive_timer := 0\<rparr>)))
    (if s_keep_alive_timer s = 0 then w else emit (TimeoutRemove (s_keep_alive_timer s)) w)"
  have t0: "s\<lparr>s_keep_alive_timer := 0\<rparr> = s" if "s_keep_alive_timer s = 0" using that by (cases s) simp
  have "softDestroy E p w = K w1"
    using s v by (cases "s_keep_alive_timer s = 0")
      (simp_all add: softDestroy_def exec isInvalid_def w1_def t0 flip: K_def)
  then have K: "thenM (delete_conn E (Some n)) (upd_sess p (\<lambda>s. s\<lparr>s_connection := None\<rparr>)) w1
      = Some (Ok (), w3)"
    using d by (simp add: K_def)
  have c1: "conns w1 = conns w" by (simp add: w1_def)
  obtain w2 where "delete_conn E (Some n) w1 = Some (Ok (), w2)" and "conns w3 = conns w2"
    using K by (rule thenM_OkE) (auto simp: upd_sess_run split: option.splits)
  then show "no_http w'"
    using w c1 w' by (auto simp: only_http_def no_http_def elim!: delete_conn_OkD split: if_splits)
qed

lemma startLoginOver80_only:
  "valid no_http (startLoginOver80 E p) (\<lambda>_ w. no_http w \<or> (\<exists>n. only_http p n w)) X"
proof (rule valid_quiet [OF quiet_login(2)])
  fix w u w' assume w: "no_http w" and run: "startLoginOver80 E p w = Some (Ok u, w')"
  obtain s where s: "sessions w p = Some s"
    using run by (auto simp: startLoginOver80_def exec split: option.splits)
  obtain n w1 where new: "new_conn E (obj_id s) 2 w = Some (Ok n, w1)"
    and run1: "thenM (upd_sess p (\<lambda>s. s\<lparr>s_connection := Some n\<rparr>)) (
     bindM (establish_connection E getProxyAccount n GATEKEEPER 80) (\<lambda>ok.
     whenM (\<not> ok) (
       thenM (setStateNetworkError E p NetworkError
         (''Unable to initiate port 80 connection to GK'' @ [CHR 0x0A]))
       (upd_sess p (\<lambda>s. s\<lparr>s_connection := None\<rparr>))))) w1 = Some (Ok u, w')"
    using run unfolding startLoginOver80_def get_sess_then [OF s] by (rule bindM_OkE)
  let ?w2 = "set_sess p (Some (s\<lparr>s_connection := Some n\<rparr>)) w1"
  have cw1: "conns w1 = (conns w)(n \<mapsto> fresh_conn E (id_counter w) (obj_id s) 2)"
    and sw1: "sessions w1 = sessions w"
    by (simp_all add: new_conn_OkD(2) [OF new])
  have w2: "only_http p n ?w2" using w by (auto simp: only_http_def no_http_def cw1)
  obtain ok w3 where est: "establish_connection E getProxyAccount n GATEKEEPER 80 ?w2 = Some (Ok ok, w3)"
    and run3: "whenM (\<not> ok) (
       thenM (setStateNetworkError E p NetworkError
         (''Unable to initiate port 80 connection to GK'' @ [CHR 0x0A]))
       (upd_sess p (\<lambda>s. s\<lparr>s_connection := None\<rparr>))) w3 = Some (Ok u, w')"
    using run1 s by (auto simp: upd_sess_then sw1 elim: bindM_OkE)
  have w3: "only_http p n w3"
    using est w2 by (auto simp: establish_connection_def HANDLER_def exec only_http_def
        split: option.splits if_splits)
  show "no_http w' \<or> (\<exists>n. only_http p n w')"
  proof (cases ok)
    case True
    then show ?thesis using run3 w3 by (auto simp: whenM_run)
  next
    case False
    then obtain w4 where "setStateNetworkError E p NetworkError
         (''Unable to initiate port 80 connection to GK'' @ [CHR 0x0A]) w3 = Some (Ok (), w4)"
      and "upd_sess p (\<lambda>s. s\<lparr>s_connection := None\<rparr>) w4 = Some (Ok u, w')"
      using run3 by (auto simp: whenM_run elim: thenM_OkE)
    then show ?thesis
      using validD_Ok [OF setStateNetworkError_removes w3] validD_Ok [OF no_http_prim(2)] by blast
  qed
qed

lemma no_http_closeCallback [pres_intro]: "pres no_http (closeCallback E p a)"
proof (rule valid_quiet [OF quiet_login(6)])
  fix w u w' assume w: "no_http w" and run: "closeCallback E p a w = Some (Ok u, w')"
  obtain c where c: "conns w a = Some c"
    using run by (auto simp: closeCallback_def exec split: option.splits)
  have "thenM (whenM (c_parse_mode c = 1) (startLoginOver80 E p)) (thenM (assert_valid p)
     (setStateNetworkError E p NetworkError ''The server has closed the connection'')) w = Some (Ok u, w')"
    using run c by (simp add: closeCallback_def bindM_run get_conn_run)
  then obtain t x where t: "whenM (c_parse_mode c = 1) (startLoginOver80 E p) w = Some (Ok x, t)"
    and rest: "thenM (assert_valid p)
      (setStateNetworkError E p NetworkError ''The server has closed the connection'') t = Some (Ok u, w')"
    by (rule thenM_OkE)
  have e: "setStateNetworkError E p NetworkError ''The server has closed the connection'' t
      = Some (Ok u, w')"
    using rest by (auto simp: thenM_run assert_valid_run split: option.splits if_splits)
  have "no_http t \<or> (\<exists>n. only_http p n t)"
    using t w validD_Ok [OF startLoginOver80_only w] by (auto simp: whenM_run split: if_splits)
  then show "no_http w'"
    using validD_Ok [OF no_http_error(2) _ e] validD_Ok [OF setStateNetworkError_removes _ e] by blast
qed

section \<open>Every step keeps it\<close>

interpretation modes: edit_invariant E no_http for E :: "'b env"
proof (unfold_locales, goal_cases)
  case (6 w a c b)
  then show ?case by (intro no_http_set_conn) (auto simp: no_http_def)
next
  case (7 w a c)
  then show ?case by (intro no_http_set_conn) (auto simp: no_http_def)
qed (intro pres_intro)+

lemma no_http_callbacks [pres_intro]:
  "pres no_http (conn_got_connected E (RediffBolConn_handler E) i fd err)"
  "pres no_http (conn_read_cb E (RediffBolConn_handler E) i fd)"
  "pres no_http (conn_write_cb E (readError E) i)"
  unfolding conn_got_connected_def got_connected_cb_def conn_read_cb_def read_cb_def
    conn_write_cb_def RediffBolConn_handler_def handler.simps
  by (intro pres_intro no_http_upd_conn; simp)+

lemma no_http_run_call: "pres no_http (run_call E c)"
  by (rule modes.keeps_run_call; unfold rediffbol_login_def rediffbol_close_def shutdown_def;
      intro pres_intro; simp)

lemma no_http_run_callback: "pres no_http (run_callback E cb)"
  by (cases cb) (simp_all add: no_http_callbacks modes.keeps_send modes.keeps_avatar
    pres_thenM pres_ret)

lemma reachable_no_http: "reachable E w \<Longrightarrow> no_http w"
  by (rule reachable_inv [OF _ no_http_run_call no_http_run_callback])
    (simp add: no_http_def start_world_def)

end
