(* ===== verification/Table.thy ===== *)
theory Table
  imports Lifecycle
begin

text \<open>
  The table of objects never dangles: in every reachable state each number in it names
  an object that exists and has that number.  Together with the invariant of
  \<open>Ownership\<close> (each object is found under its number) the table is exact.
\<close>

definition listed :: "'b world \<Rightarrow> bool" where
  "listed w \<longleftrightarrow>
     (\<forall>i a. id_map w i = Some a \<longrightarrow> (\<exists>c. conns w a = Some c \<and> obj_id c = i)
        \<or> (\<exists>s. sessions w a = Some s \<and> obj_id s = i))
   \<and> (\<forall>a. next_addr w \<le> a \<longrightarrow> conns w a = None \<and> sessions w a = None)"

lemma listed_simps [simp]:
  "listed (emit e w) = listed w" "listed (set_proto acct y w) = listed w"
  by (simp_all add: listed_def)

lemma listed_update:
  "listed w \<Longrightarrow> conns w a = Some c \<Longrightarrow> obj_id c' = obj_id c \<Longrightarrow> listed (set_conn a (Some c') w)"
  "listed w \<Longrightarrow> sessions w p = Some s \<Longrightarrow> obj_id s' = obj_id s \<Longrightarrow> listed (set_sess p (Some s') w)"
  unfolding listed_def by (auto; metis option.inject option.distinct(1))+

lemma listed_entry:
  "listed w \<Longrightarrow> id_map w i = Some a \<Longrightarrow>
     (\<exists>c. conns w a = Some c \<and> obj_id c = i) \<or> (\<exists>s. sessions w a = Some s \<and> obj_id s = i)"
  by (simp add: listed_def)

lemma listed_remove_conn:
  assumes w: "listed w" and c: "conns w a = Some c"
  shows "listed (w\<lparr>conns := (conns w)(a := None), history := tr,
    id_map := (id_map w)(obj_id c := None)\<rparr>)"
proof -
  have "(\<exists>c'. ((conns w)(a := None)) b = Some c' \<and> obj_id c' = i)
      \<or> (\<exists>s. sessions w b = Some s \<and> obj_id s = i)" if "id_map w i = Some b" "i \<noteq> obj_id c" for i b
    using listed_entry [OF w that(1)] that(2) c by auto
  then show ?thesis using w by (auto simp: listed_def)
qed

lemma listed_remove_sess:
  assumes w: "listed w" and s: "sessions w p = Some s"
  shows "listed (set_sess p None (reg_erase (obj_id s) w))"
proof -
  have "(\<exists>c. conns w b = Some c \<and> obj_id c = i)
      \<or> (\<exists>s'. ((sessions w)(p := None)) b = Some s' \<and> obj_id s' = i)"
    if "id_map w i = Some b" "i \<noteq> obj_id s" for i b
    using listed_entry [OF w that(1)] that(2) s by auto
  then show ?thesis using w by (auto simp: listed_def)
qed

section \<open>Calls that keep it\<close>

lemma listed_prim [pres_intro]:
  "pres listed (out e)" "pres listed (modM (set_proto acct z))"
  by (auto simp: valid_def exec)

lemma listed_upd:
  "(\<And>c. obj_id (f c) = obj_id c) \<Longrightarrow> pres listed (upd_conn a f)"
  "(\<And>s. obj_id (g s) = obj_id s) \<Longrightarrow> pres listed (upd_sess p g)"
  by (auto simp: valid_def exec split: option.splits intro: listed_update)

lemma listed_conn_close [pres_intro]: "pres listed (conn_close E a)"
  unfolding conn_close_def close_attempt_def close_fd_def close_tx_def close_rx_def
  by (intro pres_intro listed_upd; simp add: setInvalid_def)

lemma listed_delete_conn [pres_intro]: "pres listed (delete_conn E k)"
proof (cases k)
  case None
  then show ?thesis by (simp add: delete_conn_def pres_ret)
next
  case (Some a)
  show ?thesis
    unfolding Some
  proof (rule valid_quiet [OF quiet_delete_conn])
    fix w u w' assume w: "listed w" and run: "delete_conn E (Some a) w = Some (Ok u, w')"
    obtain c tr where "conns w a = Some c" and "w' = w\<lparr>conns := (conns w)(a := None), history := tr,
        id_map := (id_map w)(obj_id c := None)\<rparr>"
      using run by (rule delete_conn_OkD)
    then show "listed w'" by (simp add: listed_remove_conn [OF w])
  qed
qed

lemma listed_new_conn [pres_intro]: "pres listed (new_conn E j pm)"
proof (rule valid_quiet [OF quiet_new_conn])
  fix w n w' assume w: "listed w" and run: "new_conn E j pm w = Some (Ok n, w')"
  show "listed w'"
    unfolding new_conn_OkD(2) [OF run] new_conn_OkD(1) [OF run]
    using w unfolding listed_def by (auto simp: fresh_conn_def) (metis le_refl option.distinct(1))+
qed

lemma listed_establish [pres_intro]:
  "pres listed (establish_connection E getProxyAccount a ip port)"
  "(\<And>p. pres listed (m p)) \<Longrightarrow> pres listed (if_HANDLER a m)"
  unfolding establish_connection_def if_HANDLER_def HANDLER_def
  by (intro pres_intro listed_upd; simp)+

lemma listed_error [pres_intro]:
  "pres listed (softDestroy E p)" "pres listed (setStateNetworkError E p r m)"
  "pres listed (readError E p a)" "pres listed (connectionError E p e a)"
  unfolding softDestroy_def setStateNetworkError_def readError_def connectionError_def
  by (intro pres_intro listed_upd; simp add: setInvalid_def)+

lemma listed_write [pres_intro]:
  "pres listed (conn_write E (readError E) a d)" "pres listed (write_cb E (readError E) a)"
  "pres listed (sess_write E p d)"
  unfolding conn_write_def write_cb_def sess_write_def sys_write_def enqueue_def
  by (intro pres_intro listed_upd; simp)+

lemma listed_login [pres_intro]:
  "pres listed (startLogin E p)" "pres listed (startLoginOver80 E p)"
  "pres listed (switch_server E p ip port)" "pres listed (closeCallback E p a)"
  unfolding startLogin_def startLoginOver80_def switch_server_def closeCallback_def
  by (intro pres_intro listed_upd; simp)+

section \<open>A session comes and goes\<close>

lemma listed_new_session [pres_intro]: "pres listed (new_session acct)"
proof (rule valid_quiet [OF quiet_new_session])
  fix w p w' assume w: "listed w" and run: "new_session acct w = Some (Ok p, w')"
  then have "id_map w' = (id_map w)(id_counter w \<mapsto> next_addr w)" "conns w' = conns w"
    "next_addr w' = Suc (next_addr w)"
    "\<exists>s. sessions w' = (sessions w)(next_addr w \<mapsto> s) \<and> obj_id s = id_counter w"
    by (auto simp: new_session_def exec split: if_splits)
  then show "listed w'"
    using w unfolding listed_def by (auto split: if_splits) (metis le_refl option.distinct(1))+
qed

lemma quiet_destroy_session: "quiet (destroy_session E p)"
  unfolding destroy_session_def softDestroy_def by (intro quiet_intro)

lemma listed_destroy_session [pres_intro]: "pres listed (destroy_session E p)"
proof (rule valid_quiet [OF quiet_destroy_session])
  fix w u w' assume w: "listed w" and run: "destroy_session E p w = Some (Ok u, w')"
  obtain x w1 where w1: "softDestroy E p w = Some (Ok x, w1)"
    and run1: "bindM (get_sess p) (\<lambda>s. thenM (delete_conn E (s_connection s)) (
      thenM (upd_sess p (\<lambda>s. s\<lparr>s_connection := None\<rparr>)) (
      thenM (destroy_RObject (obj_id s)) (modM (set_sess p None))))) w1 = Some (Ok u, w')"
    using run unfolding destroy_session_def by (rule thenM_OkE)
  obtain s where s: "sessions w1 p = Some s" using run1 by (auto simp: exec split: option.splits)
  obtain y w2 where w2: "delete_conn E (s_connection s) w1 = Some (Ok y, w2)"
    and run2: "thenM (upd_sess p (\<lambda>s. s\<lparr>s_connection := None\<rparr>)) (
      thenM (destroy_RObject (obj_id s)) (modM (set_sess p None))) w2 = Some (Ok u, w')"
    using run1 unfolding get_sess_then [OF s] by (rule thenM_OkE)
  have s2: "sessions w2 p = Some s" using delete_conn_sessions [OF w2] s by simp
  have "listed w1" by (rule validD_Ok [OF listed_error(1) w w1])
  then have "listed w2" by (rule validD_Ok [OF listed_delete_conn _ w2])
  then have "listed (set_sess p (Some (s\<lparr>s_connection := None\<rparr>)) w2)"
    by (rule listed_update(2)) (simp_all add: s2)
  moreover have "w' = set_sess p None (reg_erase (obj_id (s\<lparr>s_connection := None\<rparr>))
      (set_sess p (Some (s\<lparr>s_connection := None\<rparr>)) w2))"
    using run2 s2 by (simp add: exec)
  ultimately show "listed w'" by (simp only:) (rule listed_remove_sess, simp_all)
qed

section \<open>Every step keeps it\<close>

interpretation table: edit_invariant E listed for E :: "'b env"
proof (unfold_locales, goal_cases)
  case (2 p g)
  then show ?case by (intro listed_upd(2)) (simp add: sess_shape_def)
next
  case (6 w a c b)
  then show ?case by (intro listed_update(1)) simp_all
next
  case (7 w a c)
  then show ?case by (intro listed_update(1)) simp_all
qed (intro pres_intro)+

lemma listed_callbacks [pres_intro]:
  "pres listed (conn_got_connected E (RediffBolConn_handler E) i fd err)"
  "pres listed (conn_read_cb E (RediffBolConn_handler E) i fd)"
  "pres listed (conn_write_cb E (readError E) i)"
  unfolding conn_got_connected_def got_connected_cb_def conn_read_cb_def read_cb_def
    conn_write_cb_def RediffBolConn_handler_def handler.simps
  by (intro pres_intro listed_upd table.keeps_send table.keeps_readCallback; simp)+

lemma listed_run_call: "pres listed (run_call E c)"
  by (rule table.keeps_run_call; unfold rediffbol_login_def rediffbol_close_def shutdown_def;
      intro pres_intro; simp)

lemma listed_run_callback: "pres listed (run_callback E cb)"
  by (cases cb) (simp_all add: listed_callbacks table.keeps_send table.keeps_avatar
    pres_thenM pres_ret)

lemma reachable_listed: "reachable E w \<Longrightarrow> listed w"
  by (rule reachable_inv [OF _ listed_run_call listed_run_callback])
    (simp add: listed_def start_world_def)

end
