(* ===== verification/Stall.thy ===== *)
theory Stall
  imports Framing
begin

text \<open>
  A frame whose length is -4.  The check for a complete frame passes, the body is
  everything after the length, and the read position moves back to the length, so the
  loop finds the same frame again.
\<close>

definition stalled :: "nat \<Rightarrow> nat \<Rightarrow> string \<Rightarrow> 'b world \<Rightarrow> bool" where
  "stalled p a r w \<longleftrightarrow> (\<exists>s c. sessions w p = Some s \<and> \<not> invalid s \<and> s_connection s = Some a
     \<and> conns w a = Some c \<and> c_parse_mode c = 0
     \<and> c_awaiting c = MessageBuffer (intToDWord (- 4) @ r))"

lemma minus4: "cint (- 4)" "cint (- 4 + 4)"
  by (simp_all add: cint_def)

lemma read_frame_minus4:
  assumes c: "conns w a = Some c" and b: "c_awaiting c = MessageBuffer (intToDWord (- 4) @ r)"
    and len: "length r + 4 < 2 ^ 31"
  shows "read_frame a w = Some (Ok (Some (MessageBuffer r)), w)"
proof -
  let ?s = "intToDWord (- 4) @ r"
  have at: "at (c_awaiting c) ?s" unfolding b by (rule at_new) (use len in simp)
  have wf: "mb_wf (MessageBuffer ?s)" "mb_wf (mb_adv 4 (MessageBuffer ?s))"
    using len by (simp_all add: mb_wf_new mb_wf_adv)
  let ?b1 = "mb_adv 4 (MessageBuffer ?s)"
  have r1: "rest ?b1 = r" using wf(1) by (simp add: rest_adv intToDWord_def)
  have b1: "readInt32 (MessageBuffer ?s) = Some (Ok (- 4), ?b1)"
    using wf(1) minus4(1) by (simp add: readInt32_run int32_of_mem_write_int)
  have b2: "readMessageBuffer (- 4) ?b1 = Some (Ok (MessageBuffer r), MessageBuffer ?s)"
    using wf(2) minus4(1) by (simp add: readMessageBuffer_def readBytes_run r1 exec)
  let ?w1 = "set_conn a (Some (c\<lparr>c_awaiting := ?b1\<rparr>)) w"
  have cw: "c\<lparr>c_awaiting := MessageBuffer ?s\<rparr> = c" using b by (cases c) simp
  have same: "set_conn a (Some c) w = w" by (rule set_conn_same [OF c])
  have "on_awaiting a peekInt32 w = Some (Ok (- 4), w)"
    by (rule on_awaiting_peek [OF c at minus4(1)])
  moreover have "on_awaiting a left w = Some (Ok (len ?s), w)" by (rule on_awaiting_left [OF c at])
  moreover have "on_awaiting a readInt32 w = Some (Ok (- 4), ?w1)"
    using c by (rule on_awaiting_run) (simp add: b b1)
  moreover have "on_awaiting a (readMessageBuffer (- 4)) ?w1 = Some (Ok (MessageBuffer r), w)"
    using on_awaiting_run [of ?w1 a "c\<lparr>c_awaiting := ?b1\<rparr>" "readMessageBuffer (- 4)"] b2 cw same
    by (simp add: set_conn_twice)
  moreover have "on_awaiting a (bindM mb_tail (\<lambda>t. modM (\<lambda>_. t))) w = Some (Ok (), w)"
    by (rule on_awaiting_look [OF c]) (use mb_tail_at [OF at] b in simp)
  ultimately show ?thesis
    using minus4(2) by (simp add: read_frame_def bindM_run thenM_run ensure_run ret_run)
qed

text \<open>The body is here a packet of type 4, which the parser knows nothing of.\<close>

lemma parseCSResponse_type4:
  assumes "sessions w p = Some s" and "\<not> invalid s"
  shows "with_local (MessageBuffer (intToDWord 4)) (parseCSResponse E p) w = Some (Ok (), w)"
proof (rule eats_packet)
  show "eats (intToDWord 4) w (parseCSResponse E p) () [] w"
    unfolding parseCSResponse_def by (rule eats_rules yields_rules assms | simp add: cint_def)+
qed simp

lemma loop_turn_stalled:
  assumes "stalled p a (intToDWord 4) w"
  shows "loop_turn E p a w = Some (Ok True, w)"
proof -
  obtain s c where s: "sessions w p = Some s" "\<not> invalid s" "s_connection s = Some a"
    and c: "conns w a = Some c" "c_parse_mode c = 0"
    and b: "c_awaiting c = MessageBuffer (intToDWord (- 4) @ intToDWord 4)"
    using assms by (auto simp: stalled_def)
  have at: "at (c_awaiting c) (intToDWord (- 4) @ intToDWord 4)"
    unfolding b by (rule at_new) simp
  have "read_frame a w = Some (Ok (Some (MessageBuffer (intToDWord 4))), w)"
    by (rule read_frame_minus4 [OF c(1) b]) simp
  moreover have "on_awaiting a left w = Some (Ok 8, w)"
    using on_awaiting_left [OF c(1) at] by simp
  ultimately show ?thesis
    using s c parseCSResponse_type4 [OF s(1,2), of E]
    by (simp add: loop_turn_def dispatch_def bindM_run thenM_run get_sess_run the_connection_run
        get_conn_run ret_run)
qed

lemma read_loop_stalled:
  assumes "stalled p a (intToDWord 4) w"
  shows "read_loop E p a w = None"
proof (rule ccontr)
  assume "read_loop E p a w \<noteq> None"
  then obtain r where "read_loop E p a w = Some r" by blast
  then have "\<not> stalled p a (intToDWord 4) w"
  proof (rule read_loop.raw_induct [where P = "\<lambda>E p a w r. \<not> stalled p a (intToDWord 4) w", rotated])
    fix f :: "'a env \<Rightarrow> nat \<Rightarrow> nat \<Rightarrow> 'a world \<Rightarrow> (unit outcome \<times> 'a world) option"
      and E p a w r
    assume IH: "\<And>E p a w r. f E p a w = Some r \<Longrightarrow> \<not> stalled p a (intToDWord 4) w"
      and "bindM (loop_turn E p a) (\<lambda>more w'. if more then f E p a w' else ret () w') w = Some r"
    then have "f E p a w = Some r" if "stalled p a (intToDWord 4) w"
      using loop_turn_stalled [OF that, of E] by (simp add: bindM_run)
    then show "\<not> stalled p a (intToDWord 4) w" using IH by blast
  qed
  with assms show False by contradiction
qed

text \<open>What the event loop sees of it.\<close>

lemma stalled_callback:
  assumes c: "id_map w i = Some a" "conns w a = Some c" "\<not> invalid c" "c_parse_mode c = 0"
      "c_awaiting c = MessageBuffer pre"
    and p: "id_map w (c_handler_id c) = Some p"
    and s: "sessions w p = Some s" "\<not> invalid s" "s_connection s = Some a"
    and fd: "0 \<le> fd" "ne_input_error E (history w) fd = 0"
    and data: "ne_read E (history w) fd = ReadData d" "d \<noteq> []" "pre @ d = intToDWord (- 4) @ intToDWord 4"
  shows "run_callback E (Readable i fd) w = None"
proof -
  have "stalled p a (intToDWord 4) (received a fd d w)" using s c data(3) by (simp add: stalled_def)
  then have "read_loop E p a (received a fd d w) = None" by (rule read_loop_stalled)
  then have "readCallback E p a (received a fd d w) = None"
    using s c by (simp add: readCallback_def catch_Overflow_run bindM_run thenM_run whenM_run
        get_sess_run get_conn_run ensure_run)
  then show ?thesis unfolding read_data_run [OF c(1-3) p fd data(1,2)] .
qed

lemma stall_bytes:
  "intToDWord (- 4) @ intToDWord 4 = [CHR 0xFC, CHR 0xFF, CHR 0xFF, CHR 0xFF,
     CHR 0x04, CHR 0x00, CHR 0x00, CHR 0x00]"
  by (simp add: intToDWord_def char_of_def bit_iff_odd)

end
