(* ===== verification/PluginInfo.thy ===== *)
theory PluginInfo
  imports Lifecycle
begin

text \<open>
  The rest of \<^verbatim>\<open>rediffbol_init.cpp\<close>: the functions that only give libpurple a constant, or
  only log, and the two tables \<^verbatim>\<open>prpl_info\<close> and \<^verbatim>\<open>info\<close> through which libpurple finds the
  plugin's functions.  The calls of the state machine are the entries of these tables.
\<close>

section \<open>Constants and functions that do nothing\<close>

definition REDIFFBOLPRPL_ID :: string where
  "REDIFFBOLPRPL_ID = ''prpl-rediffbol''"

definition rediffbol_list_icon :: string where
  "rediffbol_list_icon = ''meanwhile''"

definition rediffbol_list_emblem :: "string option" where
  "rediffbol_list_emblem = None"

definition rediffbol_alias_buddy :: "nat \<Rightarrow> string \<Rightarrow> string \<Rightarrow> ('b world, unit) M" where
  "rediffbol_alias_buddy acct who alias = ret ()"

definition rediffbol_set_buddy_icon :: "nat \<Rightarrow> ('b world, unit) M" where
  "rediffbol_set_buddy_icon acct = ret ()"

definition rediffbol_join_chat :: "nat \<Rightarrow> ('b world, unit) M" where
  "rediffbol_join_chat acct = ret ()"

definition rediffbol_init :: "('b world, unit) M" where
  "rediffbol_init = ret ()"

definition rediffbol_destroy :: "('b world, unit) M" where
  "rediffbol_destroy = ret ()"

text \<open>\<^verbatim>\<open>struct proto_chat_entry\<close>, of which the code sets three members.\<close>

record proto_chat_entry =
  pce_label :: string
  pce_identifier :: string
  pce_required :: bool

definition rediffbol_chat_info :: "proto_chat_entry list" where
  "rediffbol_chat_info =
     [\<lparr>pce_label = ''Chat _room'', pce_identifier = ''room'', pce_required = True\<rparr>]"

definition rediffbol_chat_info_defaults :: "string \<rightharpoonup> string" where
  "rediffbol_chat_info_defaults = [''room'' \<mapsto> ''default'']"

text \<open>An entry of the account's menu, with the function it calls.\<close>

definition rediffbol_actions :: "(string \<times> (nat \<Rightarrow> ('b world, unit) M)) list" where
  "rediffbol_actions = [(''Set Avatar (Buddy Icon)...'', rediffbol_set_avatar)]"

section \<open>The tables\<close>

datatype proto_option = OPT_PROTO_CHAT_TOPIC
datatype scale_rule = PURPLE_ICON_SCALE_DISPLAY
datatype plugin_type = PURPLE_PLUGIN_PROTOCOL

text \<open>\<^verbatim>\<open>PurpleBuddyIconSpec\<close>.\<close>

record icon_spec =
  is_format :: string
  is_min_width :: nat
  is_min_height :: nat
  is_max_width :: nat
  is_max_height :: nat
  is_max_filesize :: nat
  is_scale_rules :: scale_rule

text \<open>
  \<^verbatim>\<open>PurplePluginProtocolInfo\<close>.  The slots the plugin fills are fields; the last one lists
  those it leaves null, in the order of the structure.
\<close>

record 'b protocol_info =
  pi_options :: proto_option
  pi_icon_spec :: icon_spec
  pi_list_icon :: string
  pi_list_emblem :: "string option"
  pi_status_text :: "nat \<Rightarrow> string \<Rightarrow> ('b world, string option) M"
  pi_status_types :: "(status_primitive \<times> string \<times> string option) list"
  pi_chat_info :: "proto_chat_entry list"
  pi_chat_info_defaults :: "string \<rightharpoonup> string"
  pi_login :: "nat \<Rightarrow> ('b world, unit) M"
  pi_close :: "nat \<Rightarrow> ('b world, unit) M"
  pi_send_im :: "nat \<Rightarrow> string \<Rightarrow> string \<Rightarrow> ('b world, int) M"
  pi_send_typing :: "nat \<Rightarrow> string option \<Rightarrow> typing_state \<Rightarrow> ('b world, int) M"
  pi_set_status :: "nat \<Rightarrow> status_primitive \<Rightarrow> string option \<Rightarrow> ('b world, unit) M"
  pi_add_buddy :: "nat \<Rightarrow> string option \<Rightarrow> string option \<Rightarrow> ('b world, unit) M"
  pi_remove_buddy :: "nat \<Rightarrow> string option \<Rightarrow> string option \<Rightarrow> ('b world, unit) M"
  pi_join_chat :: "nat \<Rightarrow> ('b world, unit) M"
  pi_alias_buddy :: "nat \<Rightarrow> string \<Rightarrow> string \<Rightarrow> ('b world, unit) M"
  pi_group_buddy :: "nat \<Rightarrow> string option \<Rightarrow> string option \<Rightarrow> string option \<Rightarrow> ('b world, unit) M"
  pi_normalize :: "string option \<Rightarrow> string"
  pi_set_buddy_icon :: "nat \<Rightarrow> ('b world, unit) M"
  pi_remove_group :: "nat \<Rightarrow> string option \<Rightarrow> ('b world, unit) M"
  pi_roomlist_get_list :: "nat \<Rightarrow> ('b world, unit) M"
  pi_offline_message :: bool
  pi_null :: "string list"

definition prpl_info :: "'b env \<Rightarrow> 'b protocol_info" where
  "prpl_info E =
     \<lparr>pi_options = OPT_PROTO_CHAT_TOPIC,
      pi_icon_spec = \<lparr>is_format = ''png,jpg,gif'', is_min_width = 0, is_min_height = 0,
        is_max_width = 128, is_max_height = 128, is_max_filesize = 10000,
        is_scale_rules = PURPLE_ICON_SCALE_DISPLAY\<rparr>,
      pi_list_icon = rediffbol_list_icon, pi_list_emblem = rediffbol_list_emblem,
      pi_status_text = rediffbol_status_text, pi_status_types = rediffbol_status_types,
      pi_chat_info = rediffbol_chat_info, pi_chat_info_defaults = rediffbol_chat_info_defaults,
      pi_login = rediffbol_login E, pi_close = rediffbol_close E, pi_send_im = rediffbol_send_im E,
      pi_send_typing = rediffbol_send_typing E, pi_set_status = rediffbol_set_status E,
      pi_add_buddy = rediffbol_add_buddy E, pi_remove_buddy = rediffbol_remove_buddy E,
      pi_join_chat = rediffbol_join_chat, pi_alias_buddy = rediffbol_alias_buddy,
      pi_group_buddy = rediffbol_group_buddy E, pi_normalize = rediffbol_normalize,
      pi_set_buddy_icon = rediffbol_set_buddy_icon, pi_remove_group = rediffbol_remove_group E,
      pi_roomlist_get_list = rediffbol_roomlist_get_list E,
      pi_offline_message = rediffbol_offline_message,
      pi_null = [''user_splits'', ''protocol_options'', ''tooltip_text'', ''blist_node_menu'',
        ''set_info'', ''get_info'', ''set_idle'', ''change_passwd'', ''add_buddies'',
        ''remove_buddies'', ''add_permit'', ''add_deny'', ''rem_permit'', ''rem_deny'',
        ''set_permit_deny'', ''reject_chat'', ''get_chat_name'', ''chat_invite'', ''chat_leave'',
        ''chat_whisper'', ''chat_send'', ''keepalive'', ''register_user'', ''get_cb_info'',
        ''get_cb_away'', ''rename_group'', ''buddy_free'', ''convo_closed'', ''get_cb_real_name'',
        ''set_chat_topic'', ''find_blist_chat'', ''roomlist_cancel'', ''roomlist_expand_category'',
        ''can_receive_file'', ''send_file'', ''new_xfer'', ''whiteboard_prpl_ops'', ''send_raw'',
        ''roomlist_room_serialize'']\<rparr>"

text \<open>
  \<^verbatim>\<open>PurplePluginInfo\<close>, as far as the source fills it: \<^verbatim>\<open>PACKAGE\<close> and \<^verbatim>\<open>PACKAGE_VERSION\<close> come
  from the build configuration.
\<close>

record 'b plugin_info =
  pl_type :: plugin_type
  pl_id :: string
  pl_name :: string
  pl_version :: string
  pl_summary :: string
  pl_description :: string
  pl_author :: string
  pl_homepage :: string
  pl_destroy :: "('b world, unit) M"
  pl_extra_info :: "'b protocol_info"
  pl_actions :: "(string \<times> (nat \<Rightarrow> ('b world, unit) M)) list"

definition plugin_info_table :: "'b env \<Rightarrow> string \<Rightarrow> string \<Rightarrow> 'b plugin_info" where
  "plugin_info_table E package version =
     \<lparr>pl_type = PURPLE_PLUGIN_PROTOCOL, pl_id = REDIFFBOLPRPL_ID, pl_name = package,
      pl_version = version, pl_summary = ''RediffBol Protocol Plugin'',
      pl_description = ''RediffBol Protocol Plugin'',
      pl_author = ''Arnold Noronha <arnold+rb@cmi.ac.in>'',
      pl_homepage = ''http://rediffbol-prpl.sourceforge.net'', pl_destroy = rediffbol_destroy,
      pl_extra_info = prpl_info E, pl_actions = rediffbol_actions\<rparr>"

section \<open>The state machine's calls are the entries of the tables\<close>

text \<open>A call as libpurple makes it: through the tables it was given, and nothing else.\<close>

fun call_through :: "'b plugin_info \<Rightarrow> call \<Rightarrow> ('b world, unit) M option" where
  "call_through t (Login acct) = Some (pi_login (pl_extra_info t) acct)"
| "call_through t (Close acct) = Some (pi_close (pl_extra_info t) acct)"
| "call_through t (SendIm acct who msg) =
     Some (thenM (pi_send_im (pl_extra_info t) acct who msg) (ret ()))"
| "call_through t (SetStatus acct st msg) = Some (pi_set_status (pl_extra_info t) acct st msg)"
| "call_through t (SendTyping acct who ty) =
     Some (thenM (pi_send_typing (pl_extra_info t) acct who ty) (ret ()))"
| "call_through t (AddBuddyCall acct who grp) = Some (pi_add_buddy (pl_extra_info t) acct who grp)"
| "call_through t (RemoveBuddy acct who grp) = Some (pi_remove_buddy (pl_extra_info t) acct who grp)"
| "call_through t (GroupBuddy acct who old new) =
     Some (pi_group_buddy (pl_extra_info t) acct who old new)"
| "call_through t (RemoveGroup acct grp) = Some (pi_remove_group (pl_extra_info t) acct grp)"
| "call_through t (StatusText acct who) =
     Some (thenM (pi_status_text (pl_extra_info t) acct who) (ret ()))"
| "call_through t (RoomlistGetList acct) = Some (pi_roomlist_get_list (pl_extra_info t) acct)"
| "call_through t (SetAvatar acct) =
     map_option (\<lambda>f. f acct) (map_of (pl_actions t) ''Set Avatar (Buddy Icon)...'')"
| "call_through t (Authorize ar) = None"
| "call_through t (Deny ar) = None"

text \<open>The answers to a request to be added are functions handed over with the request.\<close>

lemma calls_are_entries:
  "call_through (plugin_info_table E package version) c =
     (case c of Authorize ar \<Rightarrow> None | Deny ar \<Rightarrow> None | _ \<Rightarrow> Some (run_call E c))"
  by (cases c) (simp_all add: plugin_info_table_def prpl_info_def rediffbol_actions_def)

end
