(* ===== verification/Spec2Isabelle.thy ===== *)
theory Spec2Isabelle
  imports WireSpec MessageSpec SessionSpec LoginRun Notices Drain Calls Outcomes Modes Table Stall
    Gatekeeper Events DemoChat PluginInfo
begin

text \<open>
  A model of \<^verbatim>\<open>rediffbol-prpl\<close>, a protocol plugin that lets libpurple (Pidgin) talk to the
  Rediff Bol servers, and what makes it correct.

  \<^bold>\<open>The program.\<close>  libpurple calls the functions of \<^verbatim>\<open>src/rediffbol_init.cpp\<close>.  Logging in
  creates a session, a \<^verbatim>\<open>RediffBolConn\<close> (\<^verbatim>\<open>src/rediffbol.cpp\<close>), which owns a connection, a
  \<^verbatim>\<open>PurpleAsyncConn\<close> (\<^verbatim>\<open>src/conn.cpp\<close>), first to the gatekeeper and then to the chat server
  the gatekeeper names.  The event loop calls back into the connection, which queues what
  it cannot send yet, collects what it receives, and calls its session through the virtual
  functions of \<^verbatim>\<open>src/PurpleAsyncConnHandler.h\<close>.  The session cuts the received bytes
  into frames, parses each and tells libpurple.  Callbacks are given the number of an object
  (\<^verbatim>\<open>src/RObject.cpp\<close>), not a pointer, because the object may be gone when they come.

  \<^bold>\<open>The theories\<close>, in the order of their imports:

  \<^item> \<open>Prelude\<close>: a call is a function from a state to \<open>Some (outcome, state)\<close>, or \<open>None\<close> where
    it does not return; an outcome is a value, an exception, a failed \<^verbatim>\<open>assert\<close>, or undefined
    behaviour of C++ with its kind.  The rules \<open>exec\<close> (evaluation), \<open>total\<close> (the call
    returns), \<open>valid\<close> and \<open>pres\<close> (pre- and postconditions, invariants).
  \<^item> \<open>Bytes\<close>: C integers and strings; \<^verbatim>\<open>util.cpp\<close>.  \<open>MessageBuffer\<close>:
    \<^verbatim>\<open>messagebuffer.cpp\<close>; the locale \<open>codec\<close> says that a reader undoes a writer.
    \<open>FontParser\<close>: \<^verbatim>\<open>FontParser.cpp\<close>.  \<open>ChatMessage\<close>: \<^verbatim>\<open>encode.cpp\<close> and
    \<^verbatim>\<open>_parseChatMessage\<close>.
  \<^item> \<open>RObject\<close>: the table of objects; the locale \<open>handle_table\<close> is its contract.  \<open>Conn\<close>:
    every function of \<^verbatim>\<open>conn.cpp\<close>, for any handler.  \<open>ConnInvariant\<close>: what holds of the
    connections between callbacks and, as a locale, what a handler must keep for it.
    \<open>ConnStream\<close>: the transmit queue.
  \<^item> \<open>Requests\<close>: \<^verbatim>\<open>request.h\<close> and the bytes of every packet sent, with a layout
    specification.  \<open>Session\<close>: the state of \<^verbatim>\<open>RediffBolConn\<close>, its life, its failures and
    its sending functions.  \<open>ChatRoom\<close>, \<open>Avatar\<close>, \<open>Responses\<close>: \<^verbatim>\<open>rediffbol_chatroom.cpp\<close>,
    \<^verbatim>\<open>avatar.cpp\<close>, and all parsers from \<^verbatim>\<open>readCallback\<close> down.  \<open>Plugin\<close>:
    \<^verbatim>\<open>rediffbol_init.cpp\<close>; \<open>PluginInfo\<close>: its tables and constants, through which libpurple
    finds the functions.  \<open>External\<close>: the boundary (below).
  \<^item> \<open>Ownership\<close>, \<open>SessionInvariant\<close>, \<open>WorldInvariant\<close>: who owns what, and that every
    function keeps it.  The locale \<open>world_invariant\<close> says what a property of worlds needs so
    that every call keeps it; \<open>edit_invariant\<close> is a contract that gives it.
    \<open>Lifecycle\<close>: the plugin as a step relation, one step for each call
    from outside that returns, its reachable states, and the invariant of them.
    \<open>Progress\<close>: what cannot fail.  \<open>Modes\<close>: the modes a connection can be in.
    \<open>Table\<close>: the table of objects never dangles.  \<open>Listing\<close>: the list of chat rooms is
    never set.  All these invariants are interpretations of the same locale.
  \<^item> \<open>Packets\<close>, \<open>Framing\<close>: what a parser does with a well-formed packet (the predicates
    \<open>yields\<close> for a call, \<open>eats\<close> for a parser on a buffer and a world, with a rule per
    primitive, and \<open>ends\<close> for its outcome, an exception included),
    and the loop that takes packets from a stream.  \<open>Outcomes\<close>: how calls end.
    \<open>Gatekeeper\<close>: the answer of the gatekeeper and the switch to the chat server.
    \<open>Events\<close>: the notice of another login and a buddy's status.  \<open>Stall\<close>: the frame that
    stops the client.
  \<^item> \<open>Online\<close>: a session connected to the chat server, what sending does there, what a
    frame that arrives does, and the list of contacts.  On it rest \<open>Login\<close> (the answer to
    the login), \<open>Deliveries\<close> (stored messages and requests to be added), \<open>Rooms\<close> (the list
    of chat rooms) and \<open>Faults\<close> (writes that fail).  Each has a record for the contents of
    the packet, a writer for it, and the effect of parsing what was written.
  \<^item> \<open>Notices\<close>: what the server sends unasked, as an abstract machine on the session and the
    events that libpurple sees, and that the read callback implements it.  \<open>Pieces\<close>:
    frames that arrive in several reads.  \<open>LoginRun\<close>: the events of a login, composed.
    \<open>Drain\<close>: the transmit queue empties.
  \<^item> \<open>Demo\<close>, \<open>DemoChat\<close>: a concrete outside world and some reachable states, up to a
    connection with a chat server, in which the theorems are applied.
  \<^item> \<open>WireSpec\<close>, \<open>MessageSpec\<close>, \<open>SessionSpec\<close>, \<open>Calls\<close> and this theory state the
    properties, numbered by importance.

  \<^bold>\<open>State.\<close>  A \<open>world\<close> holds the table of objects, the connections and sessions by address
  (an address is not used twice, so what a dangling pointer names is absent),
  \<^verbatim>\<open>gc->proto_data\<close> of each account, and the history of all calls to the outside.  A
  dereference of a freed object, of a null pointer, a read of an uninitialised member, an
  index out of range, a division by zero and a signed overflow are \<open>Undef\<close> outcomes, so a
  theorem that says \<open>Ok\<close> also says none of these happened.

  \<^bold>\<open>The outside.\<close>  libpurple, GLib, iconv and the operating system are the fields of the
  record \<open>env\<close>, a parameter of the model: each answer may depend on the whole history.
  Where a theorem needs documented behaviour it is a named hypothesis: \<open>fresh_handles\<close> (the
  event loop gives each input a positive handle not in use), \<open>circ_buffer\<close> (libpurple's
  circular buffer is a queue of bytes), \<open>posix_write\<close> (\<^verbatim>\<open>write\<close> never takes more than it is
  given), \<open>eager\<close> (the network takes at once what it is offered).  \<open>arrives\<close> says that
  \<^verbatim>\<open>read\<close> returns bytes that complete a frame, of which any part may already be in the
  connection's buffer, and that may be followed by the beginning of the next; \<open>delivers\<close>
  gives what several reads return.  The code reads at most 1024 bytes at a time; the model
  lets \<^verbatim>\<open>read\<close> return any number.

  \<^bold>\<open>Loops.\<close>  \<^verbatim>\<open>_parseChatMessage\<close> and the framing loop may not end: a length on the wire may
  be negative.  They are partial functions into \<open>option\<close>, without fuel, and properties show
  when they return and, for each, bytes on which it does not.  All other loops are
  counted by a number read before, or structural.

  \<^bold>\<open>What is shown.\<close>  In every reachable state of the plugin, under any behaviour of network
  and user and with callbacks that come late, the inputs registered with the event loop
  belong to live, owned connections; closing releases everything; a write callback cannot
  fail; libpurple's calls return.  Bytes are sent in order and not lost, and what is queued
  is sent when the network takes any bytes at all; text messages are delivered in order
  however the stream is cut, and so is everything else the server sends of its own accord,
  by refinement of an abstract machine.  A login goes through from libpurple's call to a
  connected account, with exactly the packets of the protocol sent.  The gatekeeper's answer
  leads to the server it names; the answer to the login sets up the session, announces the
  contacts and sends the status and the requests, in this order; contacts, stored messages, requests to be
  added and chat rooms are reported as the server lists them.  What \<^verbatim>\<open>sendMessage\<close> sends is
  shown at the other side; each request but one has the layout its lengths announce.
  Where the code does something else than it means to, a theorem shows exactly what it
  does: the parser and the loop that hang, the calls on a session that has ended, the writes
  whose failure is not noticed, the request to be added that outlives its session, the use
  of a freed connection, the member that is never initialised, the request with a wrong
  length.

  \<^bold>\<open>Not modelled.\<close>  Debug output (\<^verbatim>\<open>hex_dump\<close>, \<^verbatim>\<open>purple_debug\<close>); \<^verbatim>\<open>response.h\<close>, an
  interface nothing implements; the build files; memory exhaustion.  Functions that
  \<^verbatim>\<open>util.h\<close> declares and no file defines have no body to model.

  \<^bold>\<open>Further work.\<close>  Progress under a network that stops taking bytes in the middle of a
  login: \<open>transmission_in_order\<close> covers the queue, \<open>login_sequence\<close> an eager network, and
  the two are not composed.
\<close>

section \<open>The plugin as a state machine\<close>

text \<open>C1.  In every state the plugin can reach, whatever libpurple, the network and late callbacks
  did before, each input registered with the event loop belongs to a live connection that
  remembers it and is found under the number passed to the callback, and that connection
  belongs to exactly the session its handler number names, which is live and owns it.\<close>

theorem reachable_inputs_live:
  assumes "reachable E w" and "fresh_handles E"
    and "watches (history w) h = Some (fd, d, i)"
  shows "\<exists>a c p s. id_map w i = Some a \<and> conns w a = Some c \<and> obj_id c = i \<and> \<not> invalid c
    \<and> holds_input d h c \<and> id_map w (c_handler_id c) = Some p \<and> sessions w p = Some s
    \<and> obj_id s = c_handler_id c \<and> \<not> invalid s \<and> s_connection s = Some a"
proof -
  note w = reachable_sound [OF assms(1,2)]
  obtain a c where c: "id_map w i = Some a" "conns w a = Some c" "\<not> invalid c"
    "holds_input d h c" "obj_id c = i"
    by (rule watched_input [OF w assms(3)])
  obtain p s where "id_map w (c_handler_id c) = Some p" "sessions w p = Some s" "\<not> invalid s"
    "s_connection s = Some a" "obj_id s = c_handler_id c"
    by (rule live_conn_owner [OF w c(2,3)])
  with c show ?thesis by blast
qed

theorem reachable_inputs_live_witness:
  "\<exists>a c p s. id_map slow_connected 1 = Some a \<and> conns slow_connected a = Some c \<and> obj_id c = 1
    \<and> \<not> invalid c \<and> holds_input CondWrite 2 c \<and> id_map slow_connected (c_handler_id c) = Some p
    \<and> sessions slow_connected p = Some s \<and> obj_id s = c_handler_id c \<and> \<not> invalid s
    \<and> s_connection s = Some a"
  by (rule reachable_inputs_live [OF demo_reachable(4) demo_fresh(2), where fd = 7])
    (simp add: slow_connected_def)



text \<open>C9.  When the event loop finds a registered descriptor writable, the callback returns normally:
  in no reachable state does it assert, use a freed object or dereference a null buffer,
  whatever \<^verbatim>\<open>write\<close> answers.\<close>

theorem writable_never_fails:
  assumes "reachable E w" and "fresh_handles E"
    and "watches (history w) h = Some (fd, d, i)"
  shows "\<exists>w'. run_callback E (Writable i) w = Some (Ok (), w')"
proof -
  note w = reachable_sound [OF assms(1,2)]
  obtain a c where c: "id_map w i = Some a" "conns w a = Some c" "\<not> invalid c"
    by (rule watched_input [OF w assms(3)])
  show ?thesis
    using write_cb_returns [OF w c(2,3)] c(1)
    by (simp add: conn_write_cb_def bindM_run getObjectById_run)
qed

theorem writable_never_fails_witness:
  "\<exists>w'. run_callback slow_env (Writable 1) slow_connected = Some (Ok (), w')"
  by (rule writable_never_fails [OF demo_reachable(4) demo_fresh(2), where fd = 7 and h = 2])
    (simp add: slow_connected_def)



text \<open>Sending on a session that has a connection returns normally in every reachable state,
  whatever \<^verbatim>\<open>write\<close> answers: an error closes the connection and ends the session, it does
  not propagate to the caller.\<close>

theorem sending_returns:
  assumes "reachable E w" and "fresh_handles E"
    and "sessions w p = Some s" and "s_connection s = Some a"
  shows "\<exists>w'. sess_write E p d w = Some (Ok (), w')"
  using sess_write_returns [OF reachable_sound [OF assms(1,2)] assms(3,4)] by blast

theorem sending_returns_witness:
  "\<exists>w'. sess_write demo_env 0 ''data'' demo_connected = Some (Ok (), w')"
  by (rule sending_returns [OF demo_reachable(3) demo_fresh(1) demo_live(1), where a = 1])
    (simp add: demo_session_def)

text \<open>C17.  Sessions, accounts and connections stay consistent: in every reachable state an account's
  pointer leads to a session of that account, found under its own number, and a session
  that has a connection is valid and its connection's handler.\<close>

theorem reachable_ownership:
  assumes "reachable E w" and "fresh_handles E" and "proto_data w acct = Some p"
  shows "\<exists>s. sessions w p = Some s \<and> s_account s = acct \<and> id_map w (obj_id s) = Some p
    \<and> (\<forall>a. s_connection s = Some a \<longrightarrow> \<not> invalid s \<and>
        (\<exists>c. conns w a = Some c \<and> c_handler_id c = obj_id s))"
proof -
  have o: "owned w" using reachable_sound [OF assms(1,2)] by (simp add: own_def)
  obtain s where s: "sessions w p = Some s" "s_account s = acct" by (rule owned_proto [OF o assms(3)])
  then show ?thesis using owned_session(1) [OF o s(1)] owned_connected [OF o s(1)] by blast
qed

theorem reachable_ownership_witness:
  "\<exists>s. sessions demo_connected 0 = Some s \<and> s_account s = 0
    \<and> id_map demo_connected (obj_id s) = Some 0
    \<and> (\<forall>a. s_connection s = Some a \<longrightarrow> \<not> invalid s \<and>
        (\<exists>c. conns demo_connected a = Some c \<and> c_handler_id c = obj_id s))"
  by (rule reachable_ownership [OF demo_reachable(3) demo_fresh(1)])
    (simp add: demo_connected_def demo_login_state)

text \<open>C18.  The table of objects is exact: a number is in it just when a connection or a session has that
  number, it leads to that object, and no address holds both, so what a callback finds is
  alive and has the number it was given.\<close>

theorem table_exact:
  assumes "reachable E w" and "fresh_handles E"
  shows "(id_map w i = Some a) = ((\<exists>c. conns w a = Some c \<and> obj_id c = i)
      \<or> (\<exists>s. sessions w a = Some s \<and> obj_id s = i))
    \<and> (conns w a = None \<or> sessions w a = None)"
proof -
  note w = reachable_sound [OF assms]
  have o: "owned w" using w by (simp add: own_def)
  have "id_map w (obj_id c) = Some a" if "conns w a = Some c" for c
    by (rule net_inv_conn(1) [OF conjunct1 [OF conjunct1 [OF w]] that])
  moreover have "id_map w (obj_id s) = Some a" "conns w a = None" if "sessions w a = Some s" for s
    by (rule owned_session [OF o that])+
  ultimately show ?thesis
    using listed_entry [OF reachable_listed [OF assms(1)], of i a] by (cases "sessions w a") auto
qed

theorem table_exact_witness:
  "(id_map slow_connected 1 = Some 1) = ((\<exists>c. conns slow_connected 1 = Some c \<and> obj_id c = 1)
      \<or> (\<exists>s. sessions slow_connected 1 = Some s \<and> obj_id s = 1))
    \<and> (conns slow_connected 1 = None \<or> sessions slow_connected 1 = None)"
  by (rule table_exact [OF demo_reachable(4) demo_fresh(2)])

text \<open>C19.  A connection that has been closed holds nothing: no pending connection attempt, no
  transmit buffer, no handle, and no input registered with the event loop under its
  number.\<close>

theorem closed_holds_nothing:
  assumes "reachable E w" and "fresh_handles E" and "conns w a = Some c" and "invalid c"
  shows "c_attempt c = 0 \<and> c_txbuf c = None \<and> c_tx c = 0 \<and> c_rx c = 0
    \<and> (\<forall>h fd d. watches (history w) h \<noteq> Some (fd, d, obj_id c))"
proof -
  note w = reachable_sound [OF assms(1,2)]
  have ok: "conn_ok c" and i: "id_map w (obj_id c) = Some a"
    using net_inv_conn [OF conjunct1 [OF conjunct1 [OF w]] assms(3)] by simp_all
  have "watches (history w) h \<noteq> Some (fd, d, obj_id c)" for h fd d
  proof
    assume "watches (history w) h = Some (fd, d, obj_id c)"
    then obtain b e where "id_map w (obj_id c) = Some b" "conns w b = Some e" "\<not> invalid e"
      by (rule watched_input [OF w])
    with i assms(3,4) show False by simp
  qed
  with ok assms(4) show ?thesis by (simp add: conn_ok_def)
qed

theorem closed_holds_nothing_witness:
  "\<exists>c. conns demo_ended 1 = Some c \<and> invalid c \<and> c_attempt c = 0 \<and> c_txbuf c = None
    \<and> c_tx c = 0 \<and> c_rx c = 0 \<and> (\<forall>h fd d. watches (history demo_ended) h \<noteq> Some (fd, d, obj_id c))"
  using demo_ended_run(2) closed_holds_nothing [OF demo_ended_reachable demo_fresh(1)] by blast

section \<open>The life of a session\<close>

text \<open>C21.  Login, when libpurple can begin to connect: the account gets a new session in the initial
  state, owning one new connection in the gatekeeper's mode, on which a connection to
  \<^verbatim>\<open>gatekeeper.rediff.com\<close> port 1863 is being attempted on behalf of that account.\<close>

theorem login_connects:
  assumes "id_counter w + 1 < int_max"
    and "ne_proxy_connect E (UpdateProgress acct ''Connecting'' 0 2 # history w) = k" and "k \<noteq> 0"
  shows "\<exists>w' p a s c. rediffbol_login E acct w = Some (Ok (), w')
    \<and> proto_data w' = (proto_data w)(acct \<mapsto> p) \<and> sessions w' = (sessions w)(p \<mapsto> s)
    \<and> s_account s = acct \<and> \<not> invalid s \<and> s_connection s = Some a \<and> s_connection_state s = 0
    \<and> id_map w' (obj_id s) = Some p
    \<and> conns w' = (conns w)(a \<mapsto> c) \<and> \<not> invalid c \<and> c_attempt c = k \<and> c_parse_mode c = 1
    \<and> c_handler_id c = obj_id s \<and> id_map w' (obj_id c) = Some a
    \<and> history w' = ProxyConnect acct ''gatekeeper.rediff.com'' 1863 k (obj_id c)
        # UpdateProgress acct ''Connecting'' 0 2 # history w"
  by (subst rediffbol_login_run [OF assms(1,3,2)], rule exI [of _ "logged_in E acct k w"],
      rule exI [of _ "next_addr w"],
      rule exI [of _ "Suc (next_addr w)"],
      rule exI [of _ "first_session acct (id_counter w) (Suc (next_addr w))"],
      rule exI [of _ "(fresh_conn E (id_counter w + 1) (id_counter w) 1)
        \<lparr>c_fd := Some (-1), c_attempt := k\<rparr>"])
    (simp add: first_session_def fresh_conn_def GATEKEEPER_def logged_in_def)

theorem login_connects_witness:
  "\<exists>w' p a s c. rediffbol_login demo_env 3 demo_connected = Some (Ok (), w')
    \<and> proto_data w' = (proto_data demo_connected)(3 \<mapsto> p)
    \<and> sessions w' = (sessions demo_connected)(p \<mapsto> s)
    \<and> s_account s = 3 \<and> \<not> invalid s \<and> s_connection s = Some a \<and> s_connection_state s = 0
    \<and> id_map w' (obj_id s) = Some p
    \<and> conns w' = (conns demo_connected)(a \<mapsto> c) \<and> \<not> invalid c \<and> c_attempt c = 1
    \<and> c_parse_mode c = 1 \<and> c_handler_id c = obj_id s \<and> id_map w' (obj_id c) = Some a
    \<and> history w' = ProxyConnect 3 ''gatekeeper.rediff.com'' 1863 1 (obj_id c)
        # UpdateProgress 3 ''Connecting'' 0 2 # history demo_connected"
  by (rule login_connects) (simp_all add: demo_connected_def demo_login_state int_max_def demo_sel)



section \<open>From the gatekeeper to the chat server\<close>

text \<open>C22.  The gatekeeper's answer moves the session to a chat server: of the servers its directory
  entries list, one chosen at random is connected to, at the host and port it names; the
  session owns that connection, in the chat server's mode, and the connection to the
  gatekeeper is deleted.  Nothing is written and nothing else changes.  The answer may come
  in pieces; what follows it is dropped with the connection.\<close>

theorem gatekeeper_answer:
  assumes "reachable E w" and "fresh_handles E"
    and c: "conns w a = Some c" "\<not> invalid c" "c_parse_mode c = 1" "c_awaiting c = MessageBuffer pre"
    and fd: "0 \<le> fd" "ne_input_error E (history w) fd = 0"
    and data: "ne_read E (history w) fd = ReadData d" "d \<noteq> []" "pre @ d = put_string (gk_frame g) @ t"
      "length (put_string (gk_frame g) @ t) < 2 ^ 31"
    and g: "gk_ok g" "servers = chat_servers (gk_directory g)" "servers \<noteq> []"
    and pick: "servers ! nat (to_size (ev_rand E (SysRead (obj_id c) fd # history w))
      mod int (length servers)) = host @ CHR '':'' # digits"
    and host: "CHR '':'' \<notin> set host" "length host < 2 ^ 31" "length digits < 2 ^ 31"
    and port: "atoi digits = Some port"
    and i: "id_counter w < int_max"
    and k: "ne_proxy_connect E (SysRead (obj_id c) fd # history w) = k" "k \<noteq> 0"
  shows "\<exists>p s w' n e. sessions w p = Some s \<and> s_connection s = Some a
    \<and> run_callback E (Readable (obj_id c) fd) w = Some (Ok (), w')
    \<and> sessions w' = (sessions w)(p \<mapsto> s\<lparr>s_connection := Some n\<rparr>)
    \<and> conns w' = (conns w)(n \<mapsto> e, a := None) \<and> proto_data w' = proto_data w
    \<and> id_map w' (obj_id c) = None \<and> id_map w' (obj_id e) = Some n
    \<and> \<not> invalid e \<and> c_parse_mode e = 0 \<and> c_attempt e = k \<and> c_handler_id e = obj_id s
    \<and> ProxyConnect (s_account s) (c_str host) port k (obj_id e) \<in> set (history w')
    \<and> (\<forall>j. sent (history w') j = sent (history w) j)"
proof -
  note w = reachable_sound [OF assms(1,2)]
  obtain p s where p: "id_map w (c_handler_id c) = Some p" and s: "sessions w p = Some s"
    "s_connection s = Some a"
    by (rule live_conn_owner [OF w c(1,2)])
  have id: "id_map w (obj_id c) = Some a" "obj_id c \<noteq> id_counter w"
    using net_inv_conn(1,5) [OF conjunct1 [OF conjunct1 [OF w]] c(1)] by simp_all
  define tr where
    "tr u = u @ ProxyConnect (s_account s) (c_str host) port k (id_counter w) # SysRead (obj_id c) fd # history w"
    for u
  obtain u where "run_callback E (Readable (obj_id c) fd) w
      = Some (Ok (), switched E p s a (obj_id c) k (tr u) w)" "quiet u"
    using gatekeeper_callback [OF w id(1) c p s fd data g pick host port i k] unfolding tr_def by blast
  moreover from this(2) have "sent (tr u) j = sent (history w) j" for j
    by (simp add: tr_def quiet_def)
  moreover have "ProxyConnect (s_account s) (c_str host) port k (id_counter w) \<in> set (tr u)"
    by (simp add: tr_def)
  ultimately show ?thesis
    by (intro exI [of _ p] exI [of _ s] exI [of _ "switched E p s a (obj_id c) k (tr u) w"]
        exI [of _ "next_addr w"] exI [of _ "attempted E (id_counter w) (obj_id s) k"])
      (use s id(2) in \<open>simp add: switched_def attempted_def fresh_conn_def\<close>)
qed

theorem gatekeeper_answer_witness:
  "\<exists>p s w' n e. sessions demo_connected p = Some s \<and> s_connection s = Some 1
    \<and> run_callback (peer_env []) (Readable 1 7) demo_connected = Some (Ok (), w')
    \<and> sessions w' = (sessions demo_connected)(p \<mapsto> s\<lparr>s_connection := Some n\<rparr>)
    \<and> conns w' = (conns demo_connected)(n \<mapsto> e, 1 := None)
    \<and> proto_data w' = proto_data demo_connected
    \<and> id_map w' 1 = None \<and> id_map w' (obj_id e) = Some n
    \<and> \<not> invalid e \<and> c_parse_mode e = 0 \<and> c_attempt e = 1 \<and> c_handler_id e = obj_id s
    \<and> ProxyConnect (s_account s) ''cs'' 5555 1 (obj_id e) \<in> set (history w')
    \<and> (\<forall>j. sent (history w') j = sent (history demo_connected) j)"
  using gatekeeper_answer [OF peer_reachable [OF lets_in_all] peer_fresh, where a = 1 and c = gk_conn
      and fd = 7 and pre = "[]" and d = "put_string (gk_frame demo_answer)" and g = demo_answer
      and t = "[]" and servers = "[''cs:5555'']" and host = "''cs''"
      and digits = "''5555''" and port = 5555 and k = 1]
    demo_servers demo_port demo_gk_reply
  by (simp add: demo_connected_state demo_conn_def peer_sel int_max_def c_str_def)

section \<open>Packets of the chat server\<close>

text \<open>C29.  When the server says that the account has logged in elsewhere, the session ends: the user
  is told so, the session is invalid, its connection is deleted, and the read callback
  returns without touching the deleted connection's buffer again, even if bytes follow.\<close>

theorem disconnect_ends_session:
  assumes "reachable E w" and "fresh_handles E"
    and arr: "arrives E w a c fd (intToDWord 3 @ put_string header @ put_string ''Disconnect'' @ r) t"
  shows "\<exists>p s w' s' tr. sessions w p = Some s \<and> s_connection s = Some a
    \<and> run_callback E (Readable (obj_id c) fd) w = Some (Ok (), w')
    \<and> sessions w' p = Some s' \<and> invalid s' \<and> s_connection s' = None \<and> conns w' a = None
    \<and> history w' = ConnectionError (s_account s) NameInUse
        (''It seems like you'' @ [CHR 0x27] @ ''ve logged in elsewhere :('' @ [CHR 0x0A]) # tr"
proof -
  note w = reachable_sound [OF assms(1,2)]
  have c: "conns w a = Some c" "\<not> invalid c" using arr by (simp_all add: arrives_def)
  obtain p s where s: "sessions w p = Some s" "\<not> invalid s" "s_connection s = Some a"
    by (rule live_conn_owner [OF w c])
  let ?w = "taken a c fd t w"
  have w1: "sound E ?w" by (rule sound_taken [OF w c(1)])
  have s1: "sessions ?w p = Some s" using s(1) by simp
  obtain w' s' tr where w': "ends (intToDWord 3 @ put_string header @ put_string ''Disconnect'' @ r) ?w
      (parseCSResponse E p) (Ok ()) w'"
    "sessions w' p = Some s'" "invalid s'" "s_connection s' = None"
    "history w' = ConnectionError (s_account s) NameInUse (c_str (logged_in_elsewhere @ [CHR 0x0A])) # tr"
    "\<And>a. s_connection s = Some a \<Longrightarrow> conns w' a = None"
    by (rule ends_disconnect [OF w1 s1 s(2), of header r]) blast
  have "run_callback E (Readable (obj_id c) fd) w = Some (Ok (), w')"
    by (rule served [OF w arr s(1,3) w'(1,2)]) (simp add: w'(4))
  with w' s show ?thesis by (auto simp: logged_in_elsewhere_def c_str_def)
qed

abbreviation disconnect_packet :: string where
  "disconnect_packet \<equiv> intToDWord 3 @ put_string ''x'' @ put_string ''Disconnect'' @ []"

theorem disconnect_ends_session_witness:
  "\<exists>w' s' tr. run_callback (peer_env (put_string disconnect_packet)) (Readable 2 8)
      (demo_chatting (put_string disconnect_packet))
      = Some (Ok (), w') \<and> sessions w' 0 = Some s' \<and> invalid s' \<and> s_connection s' = None
    \<and> conns w' 2 = None
    \<and> history w' = ConnectionError 0 NameInUse
        (''It seems like you'' @ [CHR 0x27] @ ''ve logged in elsewhere :('' @ [CHR 0x0A]) # tr"
proof -
  have len: "length (put_string disconnect_packet) < 2 ^ 31" by simp
  obtain c where c: "arrives (peer_env (put_string disconnect_packet)) (demo_chatting (put_string disconnect_packet)) 2 c 8
      disconnect_packet []" "obj_id c = 2"
    by (rule demo_arrives [OF len])
  from disconnect_ends_session [OF demo_chatting_reachable peer_fresh c(1)]
  show ?thesis
    using demo_chatting_state(4) [of "put_string disconnect_packet"] c(2)
    by (auto simp: demo_session_def split: if_splits)
qed

text \<open>A buddy's change of status is shown, with the protocol's number translated and the message,
  and the message is what the buddy's status text is from then on; bytes that follow are kept.\<close>

theorem status_change_noted:
  assumes "reachable E w" and "fresh_handles E"
    and arr: "arrives E w a c fd (intToDWord 3 @ put_string header
        @ put_string ''ContactStatusChange2'' @ put_string (put_string name @ intToDWord status
          @ put_string msg @ intToDWord code @ put_string version)) t"
    and n: "cint status" "cint code"
  shows "\<exists>p s w' s' tr. sessions w p = Some s \<and> s_connection s = Some a
    \<and> run_callback E (Readable (obj_id c) fd) w = Some (Ok (), w')
    \<and> sessions w' = (sessions w)(p \<mapsto> s')
    \<and> conns w' = (conns w)(a \<mapsto> c\<lparr>c_awaiting := MessageBuffer t\<rparr>)
    \<and> getBuddyStatusMessage p name w' = Some (Ok msg, w')
    \<and> history w' = tr @ GotUserStatus (s_account s) (c_str name)
        (if status = 1 then ''online'' else if status = 2 then ''away''
         else if status = 3 then ''busy'' else ''offline'') (Some (c_str msg))
        # SysRead (obj_id c) fd # history w
    \<and> (tr = [] \<or> tr = [UpdateBuddyStatus (s_account s) (c_str name)])"
proof -
  note w = reachable_sound [OF assms(1,2)]
  have c: "conns w a = Some c" "\<not> invalid c" using arr by (simp_all add: arrives_def)
  obtain p s where s: "sessions w p = Some s" "\<not> invalid s" "s_connection s = Some a"
    by (rule live_conn_owner [OF w c])
  let ?w' = "status_changed E p s name status msg (taken a c fd t w)"
  have s1: "sessions (taken a c fd t w) p = Some s" using s(1) by simp
  note e = ends_status_change [OF s1 s(2) n, of header name msg version E, unfolded status_body_def]
  have w': "sessions ?w' = (sessions w)(p \<mapsto> with_status name msg s)"
    "conns ?w' = (conns w)(a \<mapsto> c\<lparr>c_awaiting := MessageBuffer t\<rparr>)"
    by (simp_all add: status_changed_def Let_def)
  have "run_callback E (Readable (obj_id c) fd) w = Some (Ok (), ?w')"
    by (rule served [OF w arr s(1,3) e, of "with_status name msg s"])
      (use w' s in \<open>simp_all add: with_status_def\<close>)
  moreover have "getBuddyStatusMessage p name ?w' = Some (Ok msg, ?w')"
    by (rule noted_status) (simp add: w')
  ultimately show ?thesis
    using s w' by (intro exI [of _ p] exI [of _ s] exI [of _ ?w'] exI [of _ "with_status name msg s"])
      (simp add: status_changed_def getStatusFromID_def Let_def)
qed

abbreviation status_packet :: string where
  "status_packet \<equiv> intToDWord 3 @ put_string ''x'' @ put_string ''ContactStatusChange2''
     @ put_string (put_string ''ann'' @ intToDWord 2 @ put_string ''out'' @ intToDWord 0 @ put_string ''v'')"

theorem status_change_noted_witness:
  "\<exists>w' s' tr. run_callback (peer_env (put_string status_packet)) (Readable 2 8)
      (demo_chatting (put_string status_packet))
      = Some (Ok (), w') \<and> sessions w' = [0 \<mapsto> s']
    \<and> getBuddyStatusMessage 0 ''ann'' w' = Some (Ok ''out'', w')
    \<and> history w' = tr @ GotUserStatus 0 ''ann'' ''away'' (Some ''out'')
        # SysRead 2 8 # history (demo_chatting (put_string status_packet))"
proof -
  have len: "length (put_string status_packet) < 2 ^ 31" by simp
  obtain c where c: "arrives (peer_env (put_string status_packet)) (demo_chatting (put_string status_packet)) 2 c 8
      status_packet []" "obj_id c = 2"
    by (rule demo_arrives [OF len])
  have n: "cint 2" "cint 0" by (simp_all add: cint_def)
  from status_change_noted [OF demo_chatting_reachable peer_fresh c(1) n]
  show ?thesis
    using demo_chatting_state(4) [of "put_string status_packet"] c(2)
    by (auto simp: demo_session_def c_str_def split: if_splits)
qed

text \<open>C32.  A frame with the length -4 stops the client: if the peer sends these eight bytes on a chat
  connection, in however many pieces, the read callback never returns, and with it the whole application hangs.\<close>

theorem frame_length_hangs:
  assumes "reachable E w" and "fresh_handles E"
    and c: "conns w a = Some c" "\<not> invalid c" "c_parse_mode c = 0" "c_awaiting c = MessageBuffer pre"
    and fd: "0 \<le> fd" "ne_input_error E (history w) fd = 0"
    and data: "ne_read E (history w) fd = ReadData d" "d \<noteq> []"
      "pre @ d = [CHR 0xFC, CHR 0xFF, CHR 0xFF, CHR 0xFF,
      CHR 0x04, CHR 0x00, CHR 0x00, CHR 0x00]"
  shows "run_callback E (Readable (obj_id c) fd) w = None"
proof -
  note w = reachable_sound [OF assms(1,2)]
  obtain p s where p: "id_map w (c_handler_id c) = Some p" and s: "sessions w p = Some s"
    "\<not> invalid s" "s_connection s = Some a"
    by (rule live_conn_owner [OF w c(1,2)])
  have id: "id_map w (obj_id c) = Some a"
    by (rule net_inv_conn(1) [OF conjunct1 [OF conjunct1 [OF w]] c(1)])
  show ?thesis
    by (rule stalled_callback [OF id c p s fd data(1,2)]) (simp add: data(3) stall_bytes)
qed

abbreviation stall_packet :: string where
  "stall_packet \<equiv> [CHR 0xFC, CHR 0xFF, CHR 0xFF, CHR 0xFF, CHR 0x04, CHR 0x00, CHR 0x00, CHR 0x00]"

theorem frame_length_hangs_witness:
  "run_callback (peer_env stall_packet) (Readable 2 8) (demo_chatting stall_packet) = None"
proof -
  obtain c where c: "conns (demo_chatting stall_packet) 2 = Some c" "\<not> invalid c"
    "c_parse_mode c = 0" "c_awaiting c = MessageBuffer []" "obj_id c = 2"
    using demo_chatting_state(3) by blast
  show ?thesis
    using frame_length_hangs [OF demo_chatting_reachable peer_fresh c(1-4), of 8 stall_packet] c(5)
    by (simp add: peer_sel demo_chatting_read)
qed

section \<open>Messages\<close>







text \<open>C6.  Bytes are sent in order and none is lost or repeated: after any sequence of writes and
  write-ready callbacks that leaves the connection open, the bytes the operating system
  has taken followed by the bytes still queued are what they were before, followed by
  everything written since, whatever \<^verbatim>\<open>write\<close> took at a time.\<close>

theorem transmission_in_order:
  assumes E: "circ_buffer E content" "fresh_handles E" "posix_write E"
    and c: "conns w a = Some c" "\<not> invalid c" "c_fd c = Some fd" "c_txbuf c = Some q"
      "c_tx c = 0 \<longrightarrow> content q = []"
    and run: "run_tx E (readError E) a ops w = Some (Ok (), w')" and alive: "\<not> is_closed a w'"
  shows "\<exists>c' q'. conns w' a = Some c' \<and> c_txbuf c' = Some q'
    \<and> sent (history w') (obj_id c) @ content q' = sent (history w) (obj_id c) @ content q @ written ops"
proof -
  have ready: "tx_ready content c" using c by (simp add: tx_ready_def drained_def queued_def)
  obtain c' where c': "conns w' a = Some c'" "tx_ready content c'" "obj_id c' = obj_id c"
    "stream content w' c' = stream content w c @ written ops"
    using run_tx_stream [OF E leaves_closed_readError c(1) ready run alive] by blast
  then obtain q' where "c_txbuf c' = Some q'" by (auto simp: tx_ready_def)
  with c' c show ?thesis by (auto simp: stream_def queued_def)
qed

definition demo_tx :: "string world" where
  "demo_tx = snd (the (run_tx slow_env (readError slow_env) 1 [Write ''abc'', Ready] slow_connected))"

definition slow_conn :: "string conn" where
  "slow_conn = demo_conn\<lparr>c_attempt := 0, c_fd := Some 7, c_rx := 1, c_tx := 2,
     c_txbuf := Some gk_request\<rparr>"

lemma slow_conn_state: "conns slow_connected 1 = Some slow_conn"
  by (simp add: slow_connected_def slow_conn_def)

lemma demo_tx_run:
  "run_tx slow_env (readError slow_env) 1 [Write ''abc'', Ready] slow_connected = Some (Ok (), demo_tx)"
  "conns demo_tx 1 = Some (slow_conn\<lparr>c_txbuf := Some (gk_request @ ''abc'')\<rparr>)"
  using slow_conn_state
  by (simp_all add: demo_tx_def thenM_run conn_write_def bindM_run get_conn_run isInvalid_def
      slow_conn_def demo_conn_def ret_run enqueue_def whenM_run upd_conn_run write_cb_def
      slow_sel sys_write_def fd_of_run ask_run out_run)

theorem transmission_in_order_witness:
  "\<exists>c' q'. conns demo_tx 1 = Some c' \<and> c_txbuf c' = Some q'
    \<and> sent (history demo_tx) (obj_id slow_conn) @ q'
      = sent (history slow_connected) (obj_id slow_conn) @ gk_request @ ''abc''"
proof -
  have "\<not> is_closed 1 demo_tx"
    using demo_tx_run(2) by (simp add: is_closed_def slow_conn_def demo_conn_def)
  from transmission_in_order [OF demo_circ_buffer(2) demo_fresh(2) demo_posix_write(2)
      slow_conn_state _ _ _ _ demo_tx_run(1) this]
  show ?thesis by (simp add: slow_conn_def demo_conn_def)
qed

section \<open>Handles\<close>





section \<open>Failures\<close>


text \<open>C16.  Asking for the list of chat rooms is undefined: no state the plugin can reach has set the
  pointer \<^verbatim>\<open>roomlist\<close>, which no constructor initialises, so on every session with a
  connection the request is sent and the uninitialised pointer is then read.\<close>

theorem roomlist_uninitialised:
  assumes "reachable E w" and "fresh_handles E"
    and "sessions w p = Some s" and "s_connection s = Some a"
  shows "\<exists>w'. sendGetChatRoomsRequest E p w = Some (Throw (Undef Uninitialised), w')"
proof -
  obtain w1 where w1: "sess_write E p sendGetChatRoomsRequest_packet w = Some (Ok (), w1)"
    using sess_write_returns [OF reachable_sound [OF assms(1,2)] assms(3,4)] by blast
  have "present p w" using assms(3) by (simp add: present_def)
  then have "present p w1" by (rule validD_Ok [OF present_write _ w1])
  then obtain s1 where "sessions w1 p = Some s1" by (auto simp: present_def)
  then show ?thesis using rooms_undefined [OF reachable_unlisted [OF assms(1)] assms(3) w1] by blast
qed

theorem roomlist_uninitialised_witness:
  "\<exists>w'. sendGetChatRoomsRequest demo_env 0 demo_connected = Some (Throw (Undef Uninitialised), w')"
  by (rule roomlist_uninitialised [OF demo_reachable(3) demo_fresh(1) demo_live(1), where a = 1])
    (simp add: demo_session_def)

text \<open>C15.  The login over port 80 can never take place: no reachable state has a connection in the
  HTTP mode, because the only call that creates one, \<^verbatim>\<open>closeCallback\<close>, ends the session
  before it returns.\<close>

theorem http_mode_unreachable:
  assumes "reachable E w" and "conns w a = Some c"
  shows "c_parse_mode c \<noteq> 2"
  using reachable_no_http [OF assms(1)] assms(2) by (simp add: no_http_def)

theorem http_mode_unreachable_witness:
  "c_parse_mode slow_conn \<noteq> 2"
  by (rule http_mode_unreachable [OF demo_reachable(4) slow_conn_state])

text \<open>If it did, a refusal would crash it: in any consistent state in which a session's connection
  is in the HTTP mode and the answer is not \<^verbatim>\<open>200 OK\<close>, the client reports an error, which
  deletes the connection, and then writes to the deleted connection.\<close>

theorem http_refusal_use_after_free:
  assumes "net_inv w" and "own E w" and "opened w"
    and "sessions w p = Some s" and "s_connection s = Some a"
    and "conns w a = Some c" and "c_parse_mode c = 2"
    and "take 15 (getRawBuffer (c_awaiting c)) \<noteq> ''HTTP/1.1 200 OK''"
  shows "\<exists>w'. readCallback E p a w = Some (Throw (Undef UseAfterFree), w')"
proof -
  have l: "length goodreply = 15" by (simp add: goodreply_def)
  have "take (length goodreply) (getRawBuffer (c_awaiting c)) \<noteq> goodreply"
    unfolding l unfolding goodreply_def by (rule assms(8))
  then show ?thesis using http_refused [OF _ assms(4-7)] assms(1-3) by blast
qed

definition http_conn :: "string conn" where
  "http_conn = slow_conn\<lparr>c_parse_mode := 2, c_awaiting := MessageBuffer ''HTTP/1.1 404''\<rparr>"

lemma http_state:
  "net_inv (set_conn 1 (Some http_conn) slow_connected)"
  "own slow_env (set_conn 1 (Some http_conn) slow_connected)"
  "opened (set_conn 1 (Some http_conn) slow_connected)"
proof -
  have w: "sound slow_env slow_connected" by (rule reachable_sound [OF demo_reachable(4) demo_fresh(2)])
  have "good slow_env (set_conn 1 (Some http_conn) slow_connected)"
    by (rule good_set_conn [OF conjunct1 [OF w] slow_conn_state])
      (simp_all add: http_conn_def shape_def conn_ok_def)
  moreover have "opened (set_conn 1 (Some http_conn) slow_connected)"
    using w by (intro opened_set_conn) (simp_all add: http_conn_def slow_conn_def)
  ultimately show "net_inv (set_conn 1 (Some http_conn) slow_connected)"
    "own slow_env (set_conn 1 (Some http_conn) slow_connected)"
    "opened (set_conn 1 (Some http_conn) slow_connected)"
    by simp_all
qed

theorem http_refusal_use_after_free_witness:
  "\<exists>w'. readCallback slow_env 0 1 (set_conn 1 (Some http_conn) slow_connected)
     = Some (Throw (Undef UseAfterFree), w')"
proof (rule http_refusal_use_after_free [OF http_state, where s = demo_session and c = http_conn])
  show "sessions (set_conn 1 (Some http_conn) slow_connected) 0 = Some demo_session"
    by (simp add: slow_connected_def demo_login_state)
qed (simp_all add: demo_session_def http_conn_def getRawBuffer_def MessageBuffer_def)

text \<open>Keep-alive packets are numbered: each sends the session's counter and leaves it one
  higher, so no number is used twice before the counter is exhausted, when the increment
  is undefined.\<close>

theorem keep_alive_numbers:
  assumes "sessions w p = Some s" and "\<not> invalid s"
  shows "sendKeepAlive E p w =
    (if s_keep_alive_counter s < int_max
     then sess_write E p (sendKeepAlive_packet (s_keep_alive_counter s))
       (set_sess p (Some (s\<lparr>s_keep_alive_counter := s_keep_alive_counter s + 1\<rparr>)) w)
     else Some (Throw (Undef SignedOverflow), w))"
  using assms by (simp add: sendKeepAlive_def bindM_run thenM_run assert_valid_run get_sess_run
      ensure_run upd_sess_run)

theorem keep_alive_numbers_witness:
  "sendKeepAlive demo_env 0 demo_connected = sess_write demo_env 0 (sendKeepAlive_packet 0)
     (set_sess 0 (Some (demo_session\<lparr>s_keep_alive_counter := 1\<rparr>)) demo_connected)"
  using keep_alive_numbers [OF demo_live(1,2), of demo_env]
  by (simp add: demo_session_def int_max_def)

end
